(* ===== verification/Prelude.thy ===== *)
theory Prelude
  imports
    Main
    "HOL-Library.Word"
    "HOL-Library.Signed_Division"
    "HOL-Library.Sublist"
    "HOL-Library.AList"
    "HOL-Library.Monad_Syntax"
begin

text \<open>
  Shared layer of the development: Go's 64-bit integers, instants and durations, byte strings with
  the functions of package strings the program uses, decimal and hexadecimal printing, the error
  values of the program, and the generic lemmas on lists and maps the components share.
\<close>

named_theorems store_simps \<open>how one operation of a component reads back through another\<close>
named_theorems op_defs \<open>the definitions of the operations of the session service\<close>

section \<open>64-bit integers\<close>

text \<open>
  A Go \<open>int64\<close> is an \<open>int\<close> in range; \<open>+\<close>, \<open>-\<close> and \<open>*\<close> wrap around.  Division truncates
  towards zero (\<open>sdiv\<close>, \<open>smod\<close> of the library).
\<close>

definition i64 :: "int \<Rightarrow> bool" where
  "i64 x \<longleftrightarrow> - (2 ^ 63) \<le> x \<and> x < 2 ^ 63"

definition wrap64 :: "int \<Rightarrow> int" where
  "wrap64 x = (x + 2 ^ 63) mod 2 ^ 64 - 2 ^ 63"

definition add64 :: "int \<Rightarrow> int \<Rightarrow> int" where
  "add64 a b = wrap64 (a + b)"

definition mul64 :: "int \<Rightarrow> int \<Rightarrow> int" where
  "mul64 a b = wrap64 (a * b)"

text \<open>The atomic counters of the recording client are \<open>int32\<close>.\<close>

definition add32 :: "int \<Rightarrow> int \<Rightarrow> int" where
  "add32 a b = (a + b + 2 ^ 31) mod 2 ^ 32 - 2 ^ 31"

lemma wrap64_id: "i64 x \<Longrightarrow> wrap64 x = x"
  by (simp add: i64_def wrap64_def)

lemma i64_wrap64 [simp]: "i64 (wrap64 x)"
proof -
  have "0 \<le> (x + 2 ^ 63) mod 2 ^ 64" and "(x + 2 ^ 63) mod 2 ^ 64 < (2 :: int) ^ 64"
    by simp_all
  then show ?thesis by (simp add: i64_def wrap64_def)
qed

lemma wrap64_word: "wrap64 x = sint (word_of_int x :: 64 word)"
  by (simp add: wrap64_def sint_sbintrunc' signed_take_bit_eq_take_bit_shift take_bit_eq_mod)

lemma i64_small: "- 9223372036854775808 \<le> x \<Longrightarrow> x \<le> 9223372036854775807 \<Longrightarrow> i64 x"
  by (simp add: i64_def)

lemma add64_id: "i64 (a + b) \<Longrightarrow> add64 a b = a + b"
  by (simp add: add64_def wrap64_id)

lemma mul64_id: "i64 (a * b) \<Longrightarrow> mul64 a b = a * b"
  by (simp add: mul64_def wrap64_id)

lemma sdiv_nonneg: "0 \<le> (a :: int) \<Longrightarrow> 0 < b \<Longrightarrow> a sdiv b = a div b"
  by (cases "a = 0") (simp_all add: signed_divide_int_def)

lemma smod_nonneg: "0 \<le> (a :: int) \<Longrightarrow> 0 < b \<Longrightarrow> a smod b = a mod b"
  by (cases "a = 0") (simp_all add: signed_modulo_int_def sdiv_nonneg minus_div_mult_eq_mod)

section \<open>Instants and durations\<close>

text \<open>
  A \<open>time.Time\<close> is the number of nanoseconds since the zero instant (year 1, UTC), so that
  \<open>IsZero\<close> is equality with 0; \<open>Unix\<close> counts seconds from 1970; \<open>Sub\<close> saturates at the
  range of \<open>time.Duration\<close>.
\<close>

type_synonym gotime = int

definition IsZero :: "gotime \<Rightarrow> bool" where
  "IsZero t \<longleftrightarrow> t = 0"

definition Unix :: "gotime \<Rightarrow> int" where
  "Unix t = t div 1000000000 - 62135596800"

definition Sub :: "gotime \<Rightarrow> gotime \<Rightarrow> int" where
  "Sub a b = max (- (2 ^ 63)) (min (2 ^ 63 - 1) (a - b))"

definition Minute :: int where
  "Minute = 60000000000"

lemma Sub_ge_iff: "i64 d \<Longrightarrow> - (2 ^ 63) < d \<Longrightarrow> d \<le> Sub a b \<longleftrightarrow> d \<le> a - b"
  by (auto simp: Sub_def i64_def)

section \<open>Lists and maps\<close>

text \<open>The last \<open>n\<close> elements of a list, as Go writes \<open>xs[len(xs)-n:]\<close>.\<close>

definition lastn :: "nat \<Rightarrow> 'a list \<Rightarrow> 'a list" where
  "lastn n xs = drop (length xs - n) xs"

lemma length_lastn [simp]: "length (lastn n xs) = min n (length xs)"
  by (simp add: lastn_def)

lemma lastn_all [simp]: "length xs \<le> n \<Longrightarrow> lastn n xs = xs"
  by (simp add: lastn_def)

lemma set_lastn: "x \<in> set (lastn n xs) \<Longrightarrow> x \<in> set xs"
  by (auto simp: lastn_def dest: in_set_dropD)

lemma lastn_lastn: "m \<le> n \<Longrightarrow> lastn m (lastn n xs) = lastn m xs"
  by (auto simp: lastn_def intro!: arg_cong [where f = "\<lambda>k. drop k xs"])

lemma lastn_snoc: "0 < n \<Longrightarrow> lastn n (lastn n xs @ [x]) = lastn n (xs @ [x])"
  by (cases "length xs < n") (auto simp: lastn_def Suc_diff_le)

lemma rev_lastn: "rev (lastn n xs) = take n (rev xs)"
  by (cases "n \<le> length xs") (simp_all add: lastn_def rev_drop)

lemma foldl_invariant:
  "P s \<Longrightarrow> (\<And>s x. x \<in> set xs \<Longrightarrow> P s \<Longrightarrow> P (f s x)) \<Longrightarrow> P (foldl f s xs)"
  by (induction xs arbitrary: s) auto

lemma foldl_fixed:
  "(\<And>x. x \<in> set xs \<Longrightarrow> f s x = s) \<Longrightarrow> foldl f s xs = s"
  by (induction xs) auto

text \<open>A separator that does not occur on the left splits a concatenation uniquely.\<close>

lemma sep_split:
  "c \<notin> set a \<Longrightarrow> c \<notin> set a' \<Longrightarrow> a @ c # x = a' @ c # x' \<longleftrightarrow> a = a' \<and> x = x'"
proof (induction a arbitrary: a')
  case Nil
  then show ?case by (cases a') auto
next
  case (Cons d a)
  then show ?case by (cases a') auto
qed

section \<open>Byte strings\<close>

text \<open>
  A Go \<open>string\<close> is a list of bytes.  \<open>strip ws s\<close> removes leading occurrences of the byte
  sequences in \<open>ws\<close>; \<open>unicode_space\<close> lists the UTF-8 encodings of the white space code
  points, so that \<open>TrimSpace\<close> removes exactly what \<open>strings.TrimSpace\<close> removes.
\<close>

function strip :: "string list \<Rightarrow> string \<Rightarrow> string" where
  "strip ws s =
     (case List.find (\<lambda>w. w \<noteq> [] \<and> prefix w s) ws of
        None \<Rightarrow> s
      | Some w \<Rightarrow> strip ws (drop (length w) s))"
  by pat_completeness auto
termination
  by (relation "measure (\<lambda>(ws, s). length s)")
     (auto simp: find_Some_iff prefix_def)

declare strip.simps [simp del]

definition bytes :: "nat list \<Rightarrow> string" where
  "bytes ns = map char_of ns"

definition unicode_space :: "string list" where
  "unicode_space = map bytes
     ([[9], [10], [11], [12], [13], [32], [194, 133], [194, 160], [225, 154, 128]]
      @ map (\<lambda>b. [226, 128, b]) [128, 129, 130, 131, 132, 133, 134, 135, 136, 137, 138, 168, 169, 175]
      @ [[226, 129, 159], [227, 128, 128]])"

lemma unicode_space_code [code]:
  "unicode_space =
    [[CHR 0x09], [CHR 0x0A], [CHR 0x0B], [CHR 0x0C],
     [CHR 0x0D], [CHR 0x20], [CHR 0xC2, CHR 0x85], [CHR 0xC2, CHR 0xA0],
     [CHR 0xE1, CHR 0x9A, CHR 0x80], [CHR 0xE2, CHR 0x80, CHR 0x80], [CHR 0xE2, CHR 0x80, CHR 0x81], [CHR 0xE2, CHR 0x80, CHR 0x82],
     [CHR 0xE2, CHR 0x80, CHR 0x83], [CHR 0xE2, CHR 0x80, CHR 0x84], [CHR 0xE2, CHR 0x80, CHR 0x85], [CHR 0xE2, CHR 0x80, CHR 0x86],
     [CHR 0xE2, CHR 0x80, CHR 0x87], [CHR 0xE2, CHR 0x80, CHR 0x88], [CHR 0xE2, CHR 0x80, CHR 0x89], [CHR 0xE2, CHR 0x80, CHR 0x8A],
     [CHR 0xE2, CHR 0x80, CHR 0xA8], [CHR 0xE2, CHR 0x80, CHR 0xA9], [CHR 0xE2, CHR 0x80, CHR 0xAF], [CHR 0xE2, CHR 0x81, CHR 0x9F],
     [CHR 0xE3, CHR 0x80, CHR 0x80]]"
  by (simp add: unicode_space_def bytes_def char_of_def bit_Suc_0_iff)

definition TrimSpace :: "string \<Rightarrow> string" where
  "TrimSpace s = rev (strip (map rev unicode_space) (rev (strip unicode_space s)))"

definition TrimRight :: "string \<Rightarrow> char \<Rightarrow> string" where
  "TrimRight s c = rev (dropWhile (\<lambda>x. x = c) (rev s))"

definition HasPrefix :: "string \<Rightarrow> string \<Rightarrow> bool" where
  "HasPrefix s p \<longleftrightarrow> prefix p s"

definition HasSuffix :: "string \<Rightarrow> string \<Rightarrow> bool" where
  "HasSuffix s p \<longleftrightarrow> suffix p s"

definition Contains :: "string \<Rightarrow> string \<Rightarrow> bool" where
  "Contains s sub \<longleftrightarrow> sublist sub s"

definition TrimPrefix :: "string \<Rightarrow> string \<Rightarrow> string" where
  "TrimPrefix s p = (if prefix p s then drop (length p) s else s)"

definition TrimSuffix :: "string \<Rightarrow> string \<Rightarrow> string" where
  "TrimSuffix s p = (if suffix p s then take (length s - length p) s else s)"

text \<open>Lower-casing, on the ASCII letters.\<close>

definition lower_char :: "char \<Rightarrow> char" where
  "lower_char c = (let n = of_char c :: nat in if 65 \<le> n \<and> n \<le> 90 then char_of (n + 32) else c)"

definition ToLower :: "string \<Rightarrow> string" where
  "ToLower s = map lower_char s"

definition EqualFold :: "string \<Rightarrow> string \<Rightarrow> bool" where
  "EqualFold a b \<longleftrightarrow> ToLower a = ToLower b"

lemma strip_no_space:
  "(\<And>w. w \<in> set ws \<Longrightarrow> w \<noteq> [] \<Longrightarrow> \<not> prefix w s) \<Longrightarrow> strip ws s = s"
  by (subst strip.simps) (auto split: option.splits simp: find_Some_iff)

lemma strip_Nil [simp]: "strip ws [] = []"
  by (rule strip_no_space) auto

lemma TrimSpace_Nil [simp]: "TrimSpace [] = []"
  by (simp add: TrimSpace_def)

lemma strip_idem [simp]: "strip ws (strip ws s) = strip ws s"
proof (induction ws s rule: strip.induct)
  case (1 ws s)
  show ?case
  proof (cases "List.find (\<lambda>w. w \<noteq> [] \<and> prefix w s) ws")
    case None
    then have "strip ws s = s" by (subst strip.simps) simp
    then show ?thesis by simp
  next
    case (Some w)
    then have "strip ws s = strip ws (drop (length w) s)" by (subst strip.simps) simp
    with 1 [OF Some] show ?thesis by simp
  qed
qed

lemma suffix_strip: "suffix (strip ws s) s"
proof (induction ws s rule: strip.induct)
  case (1 ws s)
  show ?case
    by (subst strip.simps)
       (auto split: option.splits intro: suffix_drop suffix_order.trans [OF 1])
qed

lemma length_TrimSpace: "length (TrimSpace s) \<le> length s"
proof -
  have "length (strip ws t) \<le> length t" for ws t
    by (rule suffix_length_le) (rule suffix_strip)
  then show ?thesis by (metis TrimSpace_def length_rev order_trans)
qed

section \<open>Numbers as text\<close>

definition digit :: "nat \<Rightarrow> char" where
  "digit d = char_of (48 + d)"

fun dec_nat :: "nat \<Rightarrow> string" where
  "dec_nat n = (if n < 10 then [digit n] else dec_nat (n div 10) @ [digit (n mod 10)])"

declare dec_nat.simps [simp del]

text \<open>\<open>FormatInt(v, 10)\<close>, also the verb \<open>%d\<close>.\<close>

definition dec_int :: "int \<Rightarrow> string" where
  "dec_int v = (if v < 0 then CHR ''-'' # dec_nat (nat (- v)) else dec_nat (nat v))"

lemma char_of_digits [simp]:
  "char_of (48 :: nat) = CHR ''0''" "char_of (49 :: nat) = CHR ''1''" "char_of (50 :: nat) = CHR ''2''"
  "char_of (51 :: nat) = CHR ''3''" "char_of (52 :: nat) = CHR ''4''" "char_of (53 :: nat) = CHR ''5''"
  "char_of (54 :: nat) = CHR ''6''" "char_of (55 :: nat) = CHR ''7''" "char_of (56 :: nat) = CHR ''8''"
  "char_of (57 :: nat) = CHR ''9''"
  by code_simp+

lemma digit_0 [simp]: "digit 0 = CHR ''0''"
  by (simp add: digit_def)

definition digit_val :: "char \<Rightarrow> nat option" where
  "digit_val c = (let n = of_char c :: nat in if 48 \<le> n \<and> n \<le> 57 then Some (n - 48) else None)"

fun read_digits :: "nat \<Rightarrow> string \<Rightarrow> nat option" where
  "read_digits acc [] = Some acc"
| "read_digits acc (c # cs) =
     (case digit_val c of None \<Rightarrow> None | Some d \<Rightarrow> read_digits (10 * acc + d) cs)"

text \<open>\<open>ParseInt(s, 10, 64)\<close>: \<open>None\<close> is a syntax or range error.\<close>

definition ParseInt :: "string \<Rightarrow> int option" where
  "ParseInt s =
     (let neg = (s \<noteq> [] \<and> hd s = CHR ''-'');
          ds = (if s \<noteq> [] \<and> (hd s = CHR ''-'' \<or> hd s = CHR ''+'') then tl s else s)
      in if ds = [] then None
         else case read_digits 0 ds of
             None \<Rightarrow> None
           | Some n \<Rightarrow> (let v = (if neg then - int n else int n) in if i64 v then Some v else None))"

definition hex_digit :: "nat \<Rightarrow> char" where
  "hex_digit d = (if d < 10 then char_of (48 + d) else char_of (87 + d))"

text \<open>\<open>hex.EncodeToString\<close>.\<close>

fun hex :: "string \<Rightarrow> string" where
  "hex [] = []"
| "hex (c # cs) = hex_digit (of_char c div 16) # hex_digit (of_char c mod 16) # hex cs"

lemma digit_val_digit [simp]: "d < 10 \<Longrightarrow> digit_val (digit d) = Some d"
  by (simp add: digit_val_def digit_def)

lemma read_digits_append:
  "read_digits acc (xs @ ys) =
     (case read_digits acc xs of None \<Rightarrow> None | Some n \<Rightarrow> read_digits n ys)"
  by (induction acc xs rule: read_digits.induct) (auto split: option.splits)

lemma read_dec_nat: "read_digits 0 (dec_nat n) = Some n"
proof (induction n rule: dec_nat.induct)
  case (1 n)
  then show ?case by (subst dec_nat.simps) (simp add: read_digits_append)
qed

lemma length_dec_nat: "n < 10 ^ k \<Longrightarrow> 0 < k \<Longrightarrow> length (dec_nat n) \<le> k"
proof (induction n arbitrary: k rule: dec_nat.induct)
  case (1 n)
  show ?case
  proof (cases "n < 10")
    case True
    with "1.prems" show ?thesis by (subst dec_nat.simps) simp
  next
    case False
    with "1.prems" have "k \<noteq> 1" by (intro notI) simp
    with "1.prems" obtain k' where k: "k = Suc k'" "0 < k'" by (cases k) auto
    with "1.prems" have "n div 10 < 10 ^ k'" by (simp add: less_mult_imp_div_less mult.commute)
    with "1.IH" [OF False _ k(2)] k(1) False show ?thesis by (subst dec_nat.simps) simp
  qed
qed

lemma dec_nat_not_Nil [simp]: "dec_nat n \<noteq> []"
  by (subst dec_nat.simps) simp

lemma set_dec_nat: "c \<in> set (dec_nat n) \<Longrightarrow> 48 \<le> (of_char c :: nat) \<and> (of_char c :: nat) \<le> 57"
proof (induction n rule: dec_nat.induct)
  case (1 n)
  show ?case
  proof (cases "n < 10")
    case True
    with "1.prems" show ?thesis by (subst (asm) dec_nat.simps) (auto simp: digit_def)
  next
    case False
    with "1.prems" have "c \<in> set (dec_nat (n div 10)) \<or> c = digit (n mod 10)"
      by (subst (asm) dec_nat.simps) auto
    with "1.IH" [OF False] show ?thesis by (auto simp: digit_def)
  qed
qed

lemma dec_int_no_char:
  assumes "\<not> (48 \<le> (of_char c :: nat) \<and> (of_char c :: nat) \<le> 57)" and "c \<noteq> CHR ''-''"
  shows "c \<notin> set (dec_int v)"
  using assms set_dec_nat by (auto simp: dec_int_def)

lemma hd_dec_nat: "hd (dec_nat n) \<noteq> CHR ''-'' \<and> hd (dec_nat n) \<noteq> CHR ''+''"
proof -
  have "hd (dec_nat n) \<in> set (dec_nat n)" by simp
  from set_dec_nat [OF this] show ?thesis by auto
qed

lemma ParseInt_dec_int: "i64 v \<Longrightarrow> ParseInt (dec_int v) = Some v"
  using hd_dec_nat by (auto simp: ParseInt_def dec_int_def read_dec_nat Let_def)

lemma dec_nat_inject [simp]: "dec_nat m = dec_nat n \<longleftrightarrow> m = n"
  by (metis option.inject read_dec_nat)

lemma dec_int_inject [simp]: "dec_int v = dec_int w \<longleftrightarrow> v = w"
proof -
  have "dec_nat m \<noteq> CHR ''-'' # xs" for m xs
    using hd_dec_nat [of m] by auto
  then show ?thesis by (auto simp: dec_int_def eq_commute [of "CHR ''-'' # _"])
qed

lemma length_dec_int: "i64 v \<Longrightarrow> length (dec_int v) \<le> 20"
proof -
  assume "i64 v"
  then have "length (dec_nat (nat (- v))) \<le> 19" "length (dec_nat (nat v)) \<le> 19"
    by (auto intro!: length_dec_nat simp: i64_def)
  then show ?thesis by (auto simp: dec_int_def)
qed

lemma hex_digit_inject: "a < 16 \<Longrightarrow> b < 16 \<Longrightarrow> hex_digit a = hex_digit b \<longleftrightarrow> a = b"
  by (auto simp: hex_digit_def split: if_splits dest: arg_cong [where f = "of_char :: char \<Rightarrow> nat"])

lemma length_hex [simp]: "length (hex bs) = 2 * length bs"
  by (induction bs) auto

lemma hex_byte_inject:
  "hex_digit (of_char c div 16) = hex_digit (of_char d div 16) \<and>
   hex_digit (of_char c mod 16) = hex_digit (of_char d mod 16) \<longleftrightarrow> c = d"
proof -
  have lt: "of_char x div 16 < (16 :: nat)" for x :: char
    by (rule less_mult_imp_div_less) (use nat_of_char_less_256 [of x] in simp)
  have "(of_char c :: nat) = of_char d" if "of_char c div 16 = of_char d div (16 :: nat)"
    and "of_char c mod 16 = of_char d mod (16 :: nat)"
    using that by (metis div_mult_mod_eq)
  then show ?thesis by (auto simp: hex_digit_inject lt)
qed

lemma hex_inject: "hex a = hex b \<longleftrightarrow> a = b"
proof (induction a arbitrary: b)
  case Nil
  then show ?case by (cases b) auto
next
  case (Cons c a)
  show ?case
  proof (cases b)
    case (Cons d b')
    then show ?thesis
      using Cons.IH [of b'] hex_byte_inject [of c d] by (simp del: of_char_eq_iff) blast
  qed simp
qed

section \<open>Errors\<close>

text \<open>
  The program's error values.  \<open>errors.Is\<close> against one of the package sentinels is a
  constructor test; an error that no sentinel matches keeps its message.
\<close>

datatype lifecycle_state = StateCreated | StateRunning | StatePaused | StateStopped

datatype err =
    ErrNotFound
  | ErrInvalidTransition string lifecycle_state
  | InsufficientPrepaidError (RemainingUnits: int) (RequiredUnits: int)
  | ErrInvalidNaryoEvent
  | ErrInsufficientFunds
  | ErrOther string

fun state_text :: "lifecycle_state \<Rightarrow> string" where
  "state_text StateCreated = ''created''"
| "state_text StateRunning = ''running''"
| "state_text StatePaused = ''paused''"
| "state_text StateStopped = ''stopped''"

text \<open>The method \<open>Error\<close> of each value.\<close>

fun err_text :: "err \<Rightarrow> string" where
  "err_text ErrNotFound = ''pipeline session not found''"
| "err_text (ErrInvalidTransition what st) =
     ''invalid pipeline state transition: '' @ what @ '' '' @ state_text st"
| "err_text (InsufficientPrepaidError rem req) =
     ''insufficient prepaid balance: have '' @ dec_int rem @ '' need '' @ dec_int req"
| "err_text ErrInvalidNaryoEvent = ''invalid naryo event''"
| "err_text ErrInsufficientFunds = ''insufficient prepaid balance''"
| "err_text (ErrOther m) = m"

fun is_insufficient_prepaid :: "err \<Rightarrow> bool" where
  "is_insufficient_prepaid (InsufficientPrepaidError _ _) = True"
| "is_insufficient_prepaid _ = False"

fun is_invalid_transition :: "err \<Rightarrow> bool" where
  "is_invalid_transition (ErrInvalidTransition _ _) = True"
| "is_invalid_transition _ = False"

section \<open>Calls that return\<close>

text \<open>
  A call that may wait for ever has an \<open>option\<close> as its result; it returns when that is not
  \<open>None\<close>.  A sequence of calls returns when each of them does.
\<close>

definition returns :: "'a option \<Rightarrow> bool" where
  "returns m \<longleftrightarrow> m \<noteq> None"

lemma returns_simps [simp]: "returns (Some x)" "\<not> returns None"
  by (simp_all add: returns_def)

lemma returns_bind: "returns m \<Longrightarrow> (\<And>x. m = Some x \<Longrightarrow> returns (f x)) \<Longrightarrow> returns (Option.bind m f)"
  by (cases m) auto

lemma returns_case:
  "returns m \<Longrightarrow> (\<And>x. m = Some x \<Longrightarrow> returns (f x)) \<Longrightarrow> returns (case m of None \<Rightarrow> None | Some x \<Rightarrow> f x)"
  by (cases m) auto

lemma returnsE: "returns m \<Longrightarrow> (\<And>x. m = Some x \<Longrightarrow> P) \<Longrightarrow> P"
  by (cases m) auto

text \<open>What holds of the result whenever a call returns.\<close>

definition on_return :: "('a \<Rightarrow> bool) \<Rightarrow> 'a option \<Rightarrow> bool" where
  "on_return P m \<longleftrightarrow> (case m of None \<Rightarrow> True | Some x \<Rightarrow> P x)"

lemma on_return_Some [simp]: "on_return P (Some x) = P x"
  by (simp add: on_return_def)

lemma on_return_bind: "(\<And>x. on_return P (f x)) \<Longrightarrow> on_return P (Option.bind m f)"
  by (cases m) (simp_all add: on_return_def)

lemma on_returnD: "on_return P m \<Longrightarrow> m = Some x \<Longrightarrow> P x"
  by (simp add: on_return_def)

end
