(* ===== verification/Idempotence.thy ===== *)
theory Idempotence
  imports Prelude
begin

text \<open>
  The contract that operations of the program share: an effect that carries a key and is applied at
  most once per key (crediting a top-up under a reference, storing a webhook event).  Requests without
  a key may come in between; of them the contract says only that they forget no key.  The client
  lemma says what at-most-once delivery is worth: redelivering any selection of the keyed requests
  already handled, in any order and any number of times, changes nothing.
\<close>

locale keyed_effects =
  fixes seen :: "'s \<Rightarrow> 'k set"
    and keyed :: "'a \<Rightarrow> bool"
    and valid :: "'s \<Rightarrow> 'a \<Rightarrow> bool"
    and key :: "'a \<Rightarrow> 'k"
    and apply_to :: "'s \<Rightarrow> 'a \<Rightarrow> 's"
  assumes rejected: "keyed a \<Longrightarrow> \<not> valid s a \<Longrightarrow> apply_to s a = s"
    and duplicate: "keyed a \<Longrightarrow> valid s a \<Longrightarrow> key a \<in> seen s \<Longrightarrow> apply_to s a = s"
    and recorded: "keyed a \<Longrightarrow> valid s a \<Longrightarrow> key a \<notin> seen s \<Longrightarrow> seen (apply_to s a) = insert (key a) (seen s)"
    and unkeyed: "\<not> keyed a \<Longrightarrow> seen s \<subseteq> seen (apply_to s a)"
    and valid_stable: "keyed a \<Longrightarrow> valid (apply_to s b) a = valid s a"
begin

lemma handled: "keyed a \<Longrightarrow> \<not> valid s a \<or> key a \<in> seen s \<Longrightarrow> apply_to s a = s"
  using rejected duplicate by blast

lemma seen_mono: "seen s \<subseteq> seen (apply_to s a)"
proof (cases "keyed a")
  case True
  then show ?thesis by (cases "valid s a \<and> key a \<notin> seen s") (auto simp: recorded handled)
qed (rule unkeyed)

lemma seen_after: "keyed a \<Longrightarrow> valid s a \<Longrightarrow> key a \<in> seen (apply_to s a)"
  by (cases "key a \<in> seen s") (auto simp: recorded handled)

lemma run_seen_mono: "seen s \<subseteq> seen (foldl apply_to s as)"
  by (induction as arbitrary: s) (simp, metis foldl_Cons order_trans seen_mono)

lemma run_valid: "keyed a \<Longrightarrow> valid (foldl apply_to s as) a = valid s a"
  by (induction as arbitrary: s) (simp_all add: valid_stable)

lemma run_handles:
  "keyed a \<Longrightarrow> a \<in> set as \<Longrightarrow> \<not> valid s a \<or> key a \<in> seen (foldl apply_to s as)"
proof (induction as arbitrary: s)
  case (Cons b as)
  show ?case
  proof (cases "a = b \<and> valid s a")
    case True
    then have "key a \<in> seen (apply_to s b)" using seen_after Cons.prems(1) by blast
    then show ?thesis using run_seen_mono by fastforce
  next
    case False
    then show ?thesis using Cons by (auto simp: valid_stable)
  qed
qed simp

lemma redelivery:
  assumes "set bs \<subseteq> set as" "\<forall>b \<in> set bs. keyed b"
  shows "foldl apply_to (foldl apply_to s as) bs = foldl apply_to s as"
proof (rule foldl_fixed)
  fix b
  assume "b \<in> set bs"
  with assms have "keyed b" "\<not> valid s b \<or> key b \<in> seen (foldl apply_to s as)"
    using run_handles by blast+
  then show "apply_to (foldl apply_to s as) b = foldl apply_to s as"
    by (intro handled) (simp_all add: run_valid)
qed

end

end
