(* ===== verification/Go_Values.thy ===== *)
theory Go_Values
  imports Prelude "HOL-Library.Char_ord" "HOL-Library.List_Lexorder"
begin

text \<open>
  The dynamically typed values (\<open>any\<close>) that travel through session configurations, webhook
  payloads and the Configuration API of Naryo, and how package fmt prints them.  A
  \<open>map[string]any\<close> is an association list read with \<open>map_of\<close>; a number decoded from JSON is a
  \<open>float64\<close>, kept as sign, mantissa and binary exponent.
\<close>

section \<open>Floating point numbers\<close>

datatype f64 = F64 (fneg: bool) (fman: nat) (fexp: int)

text \<open>
  The number is \<open>fman * 2 ^ fexp\<close> with the sign in front, the mantissa in \<open>{2^52..<2^53}\<close>, or below
  \<open>2^52\<close> when the exponent is \<open>- 1074\<close>.  \<open>f64_num\<close> and \<open>f64_den\<close> are its numerator and denominator.
\<close>

definition f64_num :: "f64 \<Rightarrow> nat" where
  "f64_num x = fman x * 2 ^ nat (fexp x)"

definition f64_den :: "f64 \<Rightarrow> nat" where
  "f64_den x = 2 ^ nat (- fexp x)"

text \<open>Division rounded to the nearest integer, ties to even.\<close>

definition round_div :: "nat \<Rightarrow> nat \<Rightarrow> nat" where
  "round_div p q =
     (let k = p div q; r = p mod q
      in if 2 * r < q then k else if q < 2 * r then k + 1 else if even k then k else k + 1)"

definition pad_left :: "nat \<Rightarrow> string \<Rightarrow> string" where
  "pad_left n s = replicate (n - length s) (CHR ''0'') @ s"

definition sign_text :: "bool \<Rightarrow> string" where
  "sign_text neg = (if neg then ''-'' else [])"

text \<open>The verb \<open>%.df\<close>: \<open>d\<close> digits after the point, correctly rounded.\<close>

definition fmt_fixed :: "nat \<Rightarrow> f64 \<Rightarrow> string" where
  "fmt_fixed d x =
     (let ds = pad_left (d + 1) (dec_nat (round_div (f64_num x * 10 ^ d) (f64_den x)));
          i = length ds - d
      in sign_text (fneg x) @ take i ds @ (if d = 0 then [] else CHR ''.'' # drop i ds))"

text \<open>
  The verb \<open>%v\<close>: the shortest digits that read back as the same number, with an exponent when
  it is below \<open>-4\<close> or at least 6.  \<open>dec_point\<close> is the position of the decimal point relative to
  the first digit; below 1 it is searched for among the 330 positions a \<open>float64\<close> can need.
\<close>

fun lead_zeros :: "nat \<Rightarrow> nat \<Rightarrow> nat \<Rightarrow> nat" where
  "lead_zeros 0 p q = 0"
| "lead_zeros (Suc fuel) p q = (if q \<le> 10 * p then 0 else Suc (lead_zeros fuel (10 * p) q))"

definition dec_point :: "nat \<Rightarrow> nat \<Rightarrow> int" where
  "dec_point p q =
     (if q \<le> p then int (length (dec_nat (p div q))) else - int (lead_zeros 330 p q))"

text \<open>
  With \<open>n\<close> digits the candidates are the two multiples \<open>k\<close> and \<open>k + 1\<close> of \<open>10 ^ (dp - n)\<close> around
  the number; one is accepted when it lies in the interval of reals that round to the number.
  The interval reaches half a unit of the mantissa to each side (a quarter below a power of two)
  and contains its ends when the mantissa is even.
\<close>

definition shortest_at :: "f64 \<Rightarrow> int \<Rightarrow> nat \<Rightarrow> nat option" where
  "shortest_at x dp n =
     (let up = 10 ^ nat (dp - int n); uq = 10 ^ nat (int n - dp);
          k = (f64_num x * uq) div (f64_den x * up);
          below = (if fman x = 2 ^ 52 \<and> - 1074 < fexp x then 1 else 2);
          lo = (4 * fman x - below) * 2 ^ nat (fexp x); hi = (4 * fman x + 2) * 2 ^ nat (fexp x);
          den = 4 * f64_den x;
          ok = (\<lambda>a b. if even (fman x) then a \<le> b else a < b);
          down = ok (lo * uq) (k * up * den); upw = ok ((k + 1) * up * den) (hi * uq)
      in if down \<and> upw then Some (round_div (f64_num x * uq) (f64_den x * up))
         else if down then Some k else if upw then Some (k + 1) else None)"

fun shortest_from :: "nat \<Rightarrow> f64 \<Rightarrow> int \<Rightarrow> nat \<Rightarrow> nat \<times> nat" where
  "shortest_from 0 x dp n = (0, n)"
| "shortest_from (Suc fuel) x dp n =
     (case shortest_at x dp n of Some k \<Rightarrow> (k, n) | None \<Rightarrow> shortest_from fuel x dp (Suc n))"

definition trim_zeros :: "string \<Rightarrow> string" where
  "trim_zeros s = rev (dropWhile (\<lambda>c. c = CHR ''0'') (rev s))"

definition exp_text :: "int \<Rightarrow> string" where
  "exp_text e = (if e < 0 then ''e-'' else ''e+'') @ pad_left 2 (dec_nat (nat \<bar>e\<bar>))"

definition fmt_v :: "f64 \<Rightarrow> string" where
  "fmt_v x =
     (if fman x = 0 then sign_text (fneg x) @ ''0''
      else let dp0 = dec_point (f64_num x) (f64_den x);
               (k, n) = shortest_from 17 x dp0 1;
               raw = dec_nat k; dp = dp0 + int (length raw) - int n;
               ds = trim_zeros raw; e = dp - 1
           in sign_text (fneg x) @
              (if e < - 4 \<or> 6 \<le> e
               then take 1 ds @ (if tl ds = [] then [] else CHR ''.'' # tl ds) @ exp_text e
               else if dp \<le> 0 then ''0.'' @ replicate (nat (- dp)) (CHR ''0'') @ ds
               else (let i = nat dp
                     in take i (ds @ replicate (i - length ds) (CHR ''0''))
                        @ (if length ds \<le> i then [] else CHR ''.'' # drop i ds))))"

section \<open>Dynamic values\<close>

datatype any =
    ANil
  | ABool bool
  | AFloat f64
  | AInt int
  | ANumber string
  | AStr string
  | AStrs "string list"
  | AArr "any list"
  | AObj "(string \<times> any) list"

type_synonym obj = "(string \<times> any) list"

text \<open>Indexing a map: a missing key reads as the zero value \<open>nil\<close>.\<close>

definition field :: "obj \<Rightarrow> string \<Rightarrow> any" where
  "field m k = (case map_of m k of None \<Rightarrow> ANil | Some v \<Rightarrow> v)"

text \<open>The type assertions \<open>v, _ := x.(string)\<close>, \<open>x.(map[string]any)\<close> and \<open>x.([]any)\<close>.\<close>

fun as_string :: "any \<Rightarrow> string option" where
  "as_string (AStr s) = Some s"
| "as_string _ = None"

fun as_object :: "any \<Rightarrow> obj option" where
  "as_object (AObj m) = Some m"
| "as_object _ = None"

fun as_array :: "any \<Rightarrow> any list option" where
  "as_array (AArr xs) = Some xs"
| "as_array _ = None"

definition string_or_empty :: "any \<Rightarrow> string" where
  "string_or_empty v = (case as_string v of None \<Rightarrow> [] | Some s \<Rightarrow> s)"

fun join :: "string \<Rightarrow> string list \<Rightarrow> string" where
  "join sep [] = []"
| "join sep [x] = x"
| "join sep (x # y # xs) = x @ sep @ join sep (y # xs)"

lemma size_sort_key_mem [termination_simp]:
  "kv \<in> set (sort_key fst m) \<Longrightarrow> size (snd kv) < Suc (size_list (size_prod (\<lambda>_. 0) size) m)"
proof -
  assume "kv \<in> set (sort_key fst m)"
  then have "kv \<in> set m" by simp
  then show ?thesis by (induction m) auto
qed

text \<open>\<open>fmt.Sprint\<close> of one value; the keys of a map are printed in sorted order.\<close>

fun sprint :: "any \<Rightarrow> string" where
  "sprint ANil = ''<nil>''"
| "sprint (ABool b) = (if b then ''true'' else ''false'')"
| "sprint (AFloat x) = fmt_v x"
| "sprint (AInt i) = dec_int i"
| "sprint (ANumber s) = s"
| "sprint (AStr s) = s"
| "sprint (AStrs xs) = ''['' @ join '' '' xs @ '']''"
| "sprint (AArr xs) = ''['' @ join '' '' (map sprint xs) @ '']''"
| "sprint (AObj m) =
     ''map['' @ join '' '' (map (\<lambda>kv. fst kv @ '':'' @ sprint (snd kv)) (sort_key fst m)) @ '']''"

end
