(* ===== verification/Session_Store.thy ===== *)
theory Session_Store
  imports Idempotence Go_Values
begin

text \<open>
  Sessions and their in-memory store: \<^verbatim>\<open>internal/pipeline/model.go\<close>, \<^verbatim>\<open>state_store.go\<close> and
  \<^verbatim>\<open>naryo_events.go\<close>.  Every operation runs under the store's mutex and is one step here.
\<close>

section \<open>Sessions\<close>

record session =
  ID :: string
  AgentID :: string
  State :: lifecycle_state
  PaymentStreamActive :: bool
  BilledSeconds :: int
  RateCentsPerSecond :: int
  LastNaryoOpID :: string
  Config :: obj
  RateUnitsPerMinute :: int
  ChargedUnits :: int
  BillingNumerator :: int
  SecondsInDebitWindow :: int
  CommittedDebitSeq :: int
  FundsChargeRetryPending :: bool
  FundsRetryAtUnix :: int
  SummaryPendingUnits :: int
  SummaryPendingRuntimeSeconds :: int
  LastSummaryEmittedAt :: gotime
  SummaryWindowMinutes :: int
  AutoPausedForFunds :: bool

record NaryoInboundEvent =
  EventID :: string
  Payload :: obj
  ReceivedAt :: gotime

text \<open>
  \<open>sessions\<close> maps ids to the session each pointer points to; \<open>naryoEvents\<close> is read with the
  nil slice as default; \<open>naryoDedup\<close> is the set of keys.
\<close>

record MemoryStore =
  sessions :: "string \<rightharpoonup> session"
  naryoEvents :: "string \<Rightarrow> NaryoInboundEvent list"
  naryoDedup :: "string set"

definition NewMemoryStore :: MemoryStore where
  "NewMemoryStore = \<lparr>sessions = Map.empty, naryoEvents = (\<lambda>_. []), naryoDedup = {}\<rparr>"

section \<open>Store operations\<close>

definition Put :: "MemoryStore \<Rightarrow> session \<Rightarrow> MemoryStore" where
  "Put s sess = s\<lparr>sessions := (sessions s)(ID sess \<mapsto> sess)\<rparr>"

definition Get :: "MemoryStore \<Rightarrow> string \<Rightarrow> err + session" where
  "Get s sid = (case sessions s sid of None \<Rightarrow> Inl ErrNotFound | Some v \<Rightarrow> Inr v)"

text \<open>
  \<open>Update\<close> hands the callback the stored pointer, so what the callback assigns to the session
  stays, whether it reports a change, no change or an error; writing the same pointer back is no
  further effect.  The callback also changes variables it captured (here \<open>'c\<close>) and may block
  forever (\<open>None\<close>), which blocks \<open>Update\<close>.
\<close>

type_synonym 'c callback = "session \<Rightarrow> 'c \<Rightarrow> (session \<times> 'c \<times> (err + bool)) option"

definition Update ::
  "MemoryStore \<Rightarrow> string \<Rightarrow> 'c callback \<Rightarrow> 'c \<Rightarrow> (MemoryStore \<times> 'c \<times> err option) option" where
  "Update s sid fn c =
     (case sessions s sid of
        None \<Rightarrow> Some (s, c, Some ErrNotFound)
      | Some v \<Rightarrow>
          (case fn v c of
             None \<Rightarrow> None
           | Some (v', c', result) \<Rightarrow>
               let s' = s\<lparr>sessions := (sessions s)(sid \<mapsto> v')\<rparr>
               in Some (case result of Inl e \<Rightarrow> (s', c', Some e) | Inr changed \<Rightarrow> (s', c', None))))"

text \<open>
  Go iterates a map in an unspecified order.  \<open>iteration s ids\<close> says that \<open>ids\<close> is one of the
  orders in which \<open>IDs\<close> and \<open>List\<close> may visit the store.
\<close>

definition iteration :: "MemoryStore \<Rightarrow> string list \<Rightarrow> bool" where
  "iteration s ids \<longleftrightarrow> distinct ids \<and> set ids = dom (sessions s)"

definition ListSessions :: "MemoryStore \<Rightarrow> string list \<Rightarrow> session list" where
  "ListSessions s ids = List.map_filter (sessions s) ids"

section \<open>Inbound events\<close>

definition maxNaryoEventsPerSession :: nat where
  "maxNaryoEventsPerSession = 256"

definition dedupKey :: "string \<Rightarrow> string \<Rightarrow> string" where
  "dedupKey sessionID eventID = sessionID @ CHR 0x00 # eventID"

text \<open>The instant is \<open>time.Now()\<close>; the result is the store, \<open>duplicate\<close> and the error.\<close>

definition AppendNaryoEvent ::
  "MemoryStore \<Rightarrow> gotime \<Rightarrow> string \<Rightarrow> string \<Rightarrow> obj \<Rightarrow> MemoryStore \<times> bool \<times> err option" where
  "AppendNaryoEvent s now sessionID eventID payload =
     (if sessionID = [] \<or> eventID = [] then (s, False, Some ErrInvalidNaryoEvent)
      else if sessions s sessionID = None then (s, False, Some ErrNotFound)
      else let dk = dedupKey sessionID eventID
           in if dk \<in> naryoDedup s then (s, True, None)
              else let ev = \<lparr>EventID = eventID, Payload = payload, ReceivedAt = now\<rparr>;
                       list = naryoEvents s sessionID @ [ev];
                       list' = (if maxNaryoEventsPerSession < length list
                                then drop (length list - maxNaryoEventsPerSession) list else list)
                   in (s\<lparr>naryoDedup := insert dk (naryoDedup s),
                          naryoEvents := (naryoEvents s)(sessionID := list')\<rparr>, False, None))"

definition NaryoEvents :: "MemoryStore \<Rightarrow> string \<Rightarrow> int \<Rightarrow> err + NaryoInboundEvent list" where
  "NaryoEvents s sessionID lim =
     (let l1 = (if lim \<le> 0 then 10 else lim);
          l2 = (if int maxNaryoEventsPerSession < l1 then int maxNaryoEventsPerSession else l1)
      in if sessions s sessionID = None then Inl ErrNotFound
         else let list = naryoEvents s sessionID
              in if list = [] then Inr []
                 else if int (length list) \<le> l2 then Inr list
                 else Inr (drop (length list - nat l2) list))"

section \<open>Reading back\<close>

lemma Get_Put [store_simps]:
  "Get (Put s v) sid = (if sid = ID v then Inr v else Get s sid)"
  by (simp add: Get_def Put_def)

lemma Get_Inl: "Get s sid = Inl e \<longleftrightarrow> sessions s sid = None \<and> e = ErrNotFound"
  by (auto simp: Get_def split: option.splits)

lemma Get_Inr: "Get s sid = Inr v \<longleftrightarrow> sessions s sid = Some v"
  by (auto simp: Get_def split: option.splits)

lemma Update_missing [store_simps]:
  "sessions s sid = None \<Longrightarrow> Update s sid fn c = Some (s, c, Some ErrNotFound)"
  by (simp add: Update_def)

lemma Update_found [store_simps]:
  "sessions s sid = Some v \<Longrightarrow> fn v c = Some (v', c', r) \<Longrightarrow>
     Update s sid fn c =
       Some (s\<lparr>sessions := (sessions s)(sid \<mapsto> v')\<rparr>, c', (case r of Inl e \<Rightarrow> Some e | Inr _ \<Rightarrow> None))"
  by (auto simp: Update_def split: sum.splits)

lemma UpdateE:
  assumes "Update s sid fn c = Some (s', c', r)"
  obtains (missing) "sessions s sid = None" "s' = s" "c' = c" "r = Some ErrNotFound"
  | (found) v v' res where "sessions s sid = Some v" "fn v c = Some (v', c', res)"
      "s' = s\<lparr>sessions := (sessions s)(sid \<mapsto> v')\<rparr>" "r = (case res of Inl e \<Rightarrow> Some e | Inr _ \<Rightarrow> None)"
  using assms by (auto simp: Update_def Let_def split: option.splits sum.splits prod.splits)

section \<open>Per-session invariants\<close>

text \<open>
  The interface the service and the billing loop use: reading sessions and updating one session in
  place.  Its client lemmas lift a fact about one callback to a pass over any list of sessions.
\<close>

locale session_table =
  fixes lookup :: "'s \<Rightarrow> string \<Rightarrow> session option"
    and update :: "'s \<Rightarrow> string \<Rightarrow> 'c callback \<Rightarrow> 'c \<Rightarrow> ('s \<times> 'c \<times> err option) option"
  assumes update_missing: "lookup s sid = None \<Longrightarrow> update s sid fn c = Some (s, c, Some ErrNotFound)"
    and update_blocks: "lookup s sid = Some v \<Longrightarrow> fn v c = None \<Longrightarrow> update s sid fn c = None"
    and update_same: "lookup s sid = Some v \<Longrightarrow> fn v c = Some (v', c', r) \<Longrightarrow>
      \<exists>s'. update s sid fn c = Some (s', c', (case r of Inl e \<Rightarrow> Some e | Inr _ \<Rightarrow> None)) \<and>
           lookup s' = (lookup s)(sid \<mapsto> v')"
begin

lemma update_lookup:
  assumes "update s sid fn c = Some (s', c', r)"
  shows "(lookup s sid = None \<and> s' = s \<and> c' = c) \<or>
    (\<exists>v v' res. lookup s sid = Some v \<and> fn v c = Some (v', c', res) \<and>
       lookup s' = (lookup s)(sid \<mapsto> v') \<and> r = (case res of Inl e \<Rightarrow> Some e | Inr _ \<Rightarrow> None))"
proof (cases "lookup s sid")
  case None
  with assms update_missing show ?thesis by auto
next
  case (Some v)
  show ?thesis
  proof (cases "fn v c")
    case None
    with Some assms update_blocks show ?thesis by auto
  next
    case fn: (Some x)
    obtain v' c2 res where x: "x = (v', c2, res)" by (cases x)
    with update_same Some fn assms show ?thesis by fastforce
  qed
qed

lemma update_invariant:
  assumes "update s sid fn c = Some (s', c', r)"
    and "\<And>i v. lookup s i = Some v \<Longrightarrow> P i v"
    and "\<And>v v' c' res. P sid v \<Longrightarrow> fn v c = Some (v', c', res) \<Longrightarrow> P sid v'"
    and "lookup s' i = Some v"
  shows "P i v"
  using update_lookup [OF assms(1)] assms(2-4) by (fastforce split: if_splits)

lemma update_dom:
  assumes "update s sid fn c = Some (s', c', r)"
  shows "dom (lookup s') = dom (lookup s)"
  using update_lookup [OF assms] by (auto simp: dom_def split: if_splits)

lemma update_other:
  assumes "update s sid fn c = Some (s', c', r)" and "i \<noteq> sid"
  shows "lookup s' i = lookup s i"
  using update_lookup [OF assms(1)] assms(2) by auto

end

interpretation st: session_table sessions Update
  by unfold_locales (auto simp: Update_def Let_def split: option.splits sum.splits)

section \<open>Webhook events are keyed effects\<close>

fun append_event :: "MemoryStore \<Rightarrow> gotime \<times> string \<times> string \<times> obj \<Rightarrow> MemoryStore" where
  "append_event s (now, sid, eid, payload) = fst (AppendNaryoEvent s now sid eid payload)"

fun event_ok :: "MemoryStore \<Rightarrow> gotime \<times> string \<times> string \<times> obj \<Rightarrow> bool" where
  "event_ok s (now, sid, eid, payload) \<longleftrightarrow> sid \<noteq> [] \<and> eid \<noteq> [] \<and> sessions s sid \<noteq> None"

fun event_key :: "gotime \<times> string \<times> string \<times> obj \<Rightarrow> string" where
  "event_key (now, sid, eid, payload) = dedupKey sid eid"

lemma sessions_AppendNaryoEvent [simp]:
  "sessions (fst (AppendNaryoEvent s now sid eid payload)) = sessions s"
  by (simp add: AppendNaryoEvent_def Let_def)

text \<open>Every event has a key.\<close>

interpretation inbox: keyed_effects naryoDedup "\<lambda>_. True" event_ok event_key append_event
  by unfold_locales (auto simp: AppendNaryoEvent_def Let_def split: if_splits)

section \<open>Specification of the inbox\<close>

text \<open>
  The history of a session is every event accepted for it, the first delivery of each event id, in
  order of arrival and without bound.
\<close>

fun history_step ::
  "string \<Rightarrow> NaryoInboundEvent list \<Rightarrow> gotime \<times> string \<times> string \<times> obj \<Rightarrow> NaryoInboundEvent list" where
  "history_step sid h (now, s, eid, payload) =
     (if s = sid \<and> eid \<noteq> [] \<and> eid \<notin> EventID ` set h
      then h @ [\<lparr>EventID = eid, Payload = payload, ReceivedAt = now\<rparr>] else h)"

definition event_limit :: "int \<Rightarrow> nat" where
  "event_limit lim = (if lim \<le> 0 then 10 else if 256 < lim then 256 else nat lim)"

definition inbox_of :: "MemoryStore \<Rightarrow> string \<Rightarrow> NaryoInboundEvent list \<Rightarrow> bool" where
  "inbox_of s sid h \<longleftrightarrow> naryoEvents s sid = lastn 256 h \<and>
     (\<forall>eid. dedupKey sid eid \<in> naryoDedup s \<longleftrightarrow> eid \<in> EventID ` set h)"

lemma dedupKey_eq:
  "CHR 0x00 \<notin> set s \<Longrightarrow> CHR 0x00 \<notin> set s' \<Longrightarrow> dedupKey s e = dedupKey s' e' \<longleftrightarrow> s = s' \<and> e = e'"
  by (simp add: dedupKey_def sep_split)

lemma AppendNaryoEvent_eq:
  "AppendNaryoEvent s now sid eid payload =
     (if sid = [] \<or> eid = [] then (s, False, Some ErrInvalidNaryoEvent)
      else if sessions s sid = None then (s, False, Some ErrNotFound)
      else if dedupKey sid eid \<in> naryoDedup s then (s, True, None)
      else (s\<lparr>naryoDedup := insert (dedupKey sid eid) (naryoDedup s),
              naryoEvents := (naryoEvents s)(sid := lastn 256
                (naryoEvents s sid @ [\<lparr>EventID = eid, Payload = payload, ReceivedAt = now\<rparr>]))\<rparr>,
            False, None))"
  by (simp add: AppendNaryoEvent_def maxNaryoEventsPerSession_def lastn_def Let_def)

lemma inbox_step:
  assumes "inbox_of s sid h" "sessions s sid \<noteq> None" "sid \<noteq> []"
    and "CHR 0x00 \<notin> set sid" "CHR 0x00 \<notin> set (fst (snd r))"
  shows "inbox_of (append_event s r) sid (history_step sid h r)"
proof -
  obtain now s' eid payload where r: "r = (now, s', eid, payload)" by (cases r)
  show ?thesis
  proof (cases "s' = sid")
    case True
    with assms r show ?thesis
      by (auto simp: inbox_of_def AppendNaryoEvent_eq dedupKey_eq lastn_snoc)
  next
    case False
    with assms r show ?thesis
      by (auto simp: inbox_of_def AppendNaryoEvent_eq dedupKey_eq)
  qed
qed

lemma run_inbox:
  assumes "inbox_of s sid h" "sessions s sid \<noteq> None" "sid \<noteq> []" "CHR 0x00 \<notin> set sid"
    and "\<forall>r \<in> set rs. CHR 0x00 \<notin> set (fst (snd r))"
  shows "inbox_of (foldl append_event s rs) sid (foldl (history_step sid) h rs) \<and>
    sessions (foldl append_event s rs) sid = sessions s sid"
  using assms
proof (induction rs arbitrary: s h)
  case (Cons r rs)
  have "sessions (append_event s r) = sessions s" by (cases r) simp
  with Cons.IH [OF inbox_step [OF Cons.prems(1-4)]] Cons.prems show ?case
    by (simp del: append_event.simps history_step.simps)
qed simp

lemma NaryoEvents_inbox:
  assumes "inbox_of s sid h" "sessions s sid \<noteq> None"
  shows "NaryoEvents s sid lim = Inr (lastn (event_limit lim) h)"
proof -
  have "lastn (event_limit lim) h = lastn (event_limit lim) (lastn 256 h)"
    by (rule lastn_lastn [symmetric]) (auto simp: event_limit_def)
  then show ?thesis
    using assms
    by (auto simp: NaryoEvents_def inbox_of_def maxNaryoEventsPerSession_def event_limit_def lastn_def Let_def)
qed

section \<open>Properties\<close>

text \<open>
  C20: redelivering any of the webhook events already handled, in any order and number, leaves the
  store unchanged; also events that have been evicted from the bounded list stay suppressed.
\<close>

theorem event_redelivery:
  assumes "set again \<subseteq> set requests"
  shows "foldl append_event (foldl append_event s requests) again = foldl append_event s requests"
  using assms by (rule inbox.redelivery) simp

definition sample_session :: "string \<Rightarrow> session" where
  "sample_session sid = \<lparr>ID = sid, AgentID = ''a1'', State = StateCreated, PaymentStreamActive = False,
     BilledSeconds = 0, RateCentsPerSecond = 1, LastNaryoOpID = [], Config = [],
     RateUnitsPerMinute = 1, ChargedUnits = 0, BillingNumerator = 0, SecondsInDebitWindow = 0,
     CommittedDebitSeq = 0, FundsChargeRetryPending = False, FundsRetryAtUnix = 0,
     SummaryPendingUnits = 0, SummaryPendingRuntimeSeconds = 0, LastSummaryEmittedAt = 0,
     SummaryWindowMinutes = 10, AutoPausedForFunds = False\<rparr>"

theorem event_redelivery_witness:
  "let s = Put NewMemoryStore (sample_session ''s1''); r = (5, ''s1'', ''e1'', [(''k'', AInt 1)]);
       r2 = (9, ''s1'', ''e1'', [(''k'', AInt 2)])
   in length (naryoEvents (foldl append_event s ([r, r2] @ [r2, r])) ''s1'') = 1"
proof -
  let ?s = "Put NewMemoryStore (sample_session ''s1'')"
  let ?r = "(5, ''s1'', ''e1'', [(''k'', AInt 1)])" and ?r2 = "(9, ''s1'', ''e1'', [(''k'', AInt 2)])"
  have "set [?r2, ?r] \<subseteq> set [?r, ?r2]" by auto
  then have "foldl append_event ?s ([?r, ?r2] @ [?r2, ?r]) = foldl append_event ?s [?r, ?r2]"
    unfolding foldl_append by (rule event_redelivery)
  moreover have "length (naryoEvents (foldl append_event ?s [?r, ?r2]) ''s1'') = 1"
    by (simp add: AppendNaryoEvent_eq Put_def NewMemoryStore_def sample_session_def)
  ultimately show ?thesis by (simp only: Let_def)
qed

text \<open>
  C21: the inbox refines the unbounded history.  After any sequence of webhook deliveries to a store
  without events, reading up to \<open>lim\<close> events of a session yields the last ones of its history,
  oldest first, where the history holds the first delivery of every event id.
\<close>

theorem NaryoEvents_refines_history:
  assumes "sessions s sid = Some v" "sid \<noteq> []" "CHR 0x00 \<notin> set sid"
    and "naryoEvents s sid = []" "naryoDedup s = {}"
    and "\<forall>r \<in> set rs. CHR 0x00 \<notin> set (fst (snd r))"
  shows "NaryoEvents (foldl append_event s rs) sid lim =
    Inr (lastn (event_limit lim) (foldl (history_step sid) [] rs))"
proof -
  have "inbox_of s sid []" using assms by (simp add: inbox_of_def)
  from run_inbox [OF this _ assms(2,3,6)] assms(1) show ?thesis
    by (auto intro: NaryoEvents_inbox)
qed

theorem NaryoEvents_refines_history_witness:
  "let s = Put NewMemoryStore (sample_session ''s1'');
       rs = [(5, ''s1'', ''e1'', []), (6, ''s1'', ''e2'', []), (7, ''s1'', ''e1'', []), (8, ''s2'', ''e9'', [])]
   in map_sum (\<lambda>e. e) (map EventID) (NaryoEvents (foldl append_event s rs) ''s1'' 1) = Inr [''e2'']"
proof -
  let ?s = "Put NewMemoryStore (sample_session ''s1'')"
  let ?rs = "[(5, ''s1'', ''e1'', []), (6, ''s1'', ''e2'', []), (7, ''s1'', ''e1'', []), (8, ''s2'', ''e9'', [])]"
  have "sessions ?s ''s1'' = Some (sample_session ''s1'')" "naryoEvents ?s ''s1'' = []" "naryoDedup ?s = {}"
    "\<forall>r \<in> set ?rs. CHR 0x00 \<notin> set (fst (snd r))" "''s1'' \<noteq> ([] :: string)" "CHR 0x00 \<notin> set ''s1''"
    by (simp_all add: Put_def NewMemoryStore_def sample_session_def)
  then have "NaryoEvents (foldl append_event ?s ?rs) ''s1'' 1 =
      Inr (lastn (event_limit 1) (foldl (history_step ''s1'') [] ?rs))"
    by (intro NaryoEvents_refines_history)
  moreover have "map EventID (lastn (event_limit 1) (foldl (history_step ''s1'') [] ?rs)) = [''e2'']"
    by (simp add: event_limit_def lastn_def)
  ultimately show ?thesis by (simp only: Let_def map_sum.simps)
qed

text \<open>
  \<open>Update\<close> keeps what the callback assigned even when the callback reports an error or no
  change, since the callback works on the stored pointer.
\<close>

lemma Update_keeps_assignments:
  assumes "Get s sid = Inr v" "fn v c = Some (v', c', result)"
  shows "\<exists>s'. Update s sid fn c = Some (s', c', (case result of Inl e \<Rightarrow> Some e | Inr _ \<Rightarrow> None)) \<and>
    Get s' sid = Inr v'"
  using assms by (auto simp: Get_Inr Update_found)

end
