(* ===== verification/Ledger.thy ===== *)
theory Ledger
  imports Idempotence
begin

text \<open>
  The off-chain prepaid ledger (\<^verbatim>\<open>internal/ledger/ledger.go\<close>) and the interface through which
  the session service uses it (\<^verbatim>\<open>internal/pipeline/prepaid.go\<close>).  The receiver is a non-nil
  pointer; each operation runs under the ledger's mutex and is one step of the model.
\<close>

section \<open>State\<close>

text \<open>
  \<open>balances\<close> is a Go map of \<open>int64\<close> read with the zero default, hence a total function;
  \<open>credited\<close> is the set of idempotency keys of credits and charges.
\<close>

record MemoryLedger =
  balances :: "string \<Rightarrow> int"
  credited :: "string set"

definition NewMemoryLedger :: MemoryLedger where
  "NewMemoryLedger = \<lparr>balances = (\<lambda>_. 0), credited = {}\<rparr>"

section \<open>Operations\<close>

text \<open>
  \<open>itoa\<close> fills a 32-byte buffer from its end; the model conses the bytes in the same order.
  Negating the least \<open>int64\<close> wraps to itself, so the digit loop does not run for it.
\<close>

function itoa_loop :: "int \<Rightarrow> string \<Rightarrow> string" where
  "itoa_loop v buf =
     (if 0 < v then itoa_loop (v div 10) (char_of (48 + nat (v mod 10)) # buf) else buf)"
  by pat_completeness auto
termination
  by (relation "measure (\<lambda>(v, _). nat v)") auto

declare itoa_loop.simps [simp del]

definition itoa :: "int \<Rightarrow> string" where
  "itoa v =
     (if v = 0 then ''0''
      else let neg = v < 0; v' = (if neg then wrap64 (- v) else v); s = itoa_loop v' []
           in if neg then CHR ''-'' # s else s)"

definition creditKey :: "string \<Rightarrow> string \<Rightarrow> string \<Rightarrow> string" where
  "creditKey agentID sourceTxID source = agentID @ ''|'' @ source @ ''|'' @ sourceTxID"

definition chargeKey :: "string \<Rightarrow> string \<Rightarrow> int \<Rightarrow> string" where
  "chargeKey agentID pipelineID minuteBucket =
     agentID @ ''|'' @ pipelineID @ ''|charge|'' @ itoa minuteBucket"

definition Credit ::
  "MemoryLedger \<Rightarrow> string \<Rightarrow> int \<Rightarrow> string \<Rightarrow> string \<Rightarrow> MemoryLedger \<times> err option" where
  "Credit l agentID amountUnits sourceTxID source =
     (if agentID = [] \<or> amountUnits \<le> 0 then (l, Some (ErrOther ''invalid credit''))
      else let key = creditKey agentID sourceTxID source
           in if sourceTxID \<noteq> [] \<and> key \<in> credited l then (l, None)
              else let l' = (if sourceTxID \<noteq> [] then l\<lparr>credited := insert key (credited l)\<rparr> else l)
                   in (l'\<lparr>balances := (balances l')(agentID := add64 (balances l' agentID) amountUnits)\<rparr>,
                       None))"

definition GetBalance :: "MemoryLedger \<Rightarrow> string \<Rightarrow> int" where
  "GetBalance l agentID = balances l agentID"

definition TestingSetBalance :: "MemoryLedger \<Rightarrow> string \<Rightarrow> int \<Rightarrow> MemoryLedger" where
  "TestingSetBalance l agentID balance = l\<lparr>balances := (balances l)(agentID := balance)\<rparr>"

definition CanAfford :: "MemoryLedger \<Rightarrow> string \<Rightarrow> int \<Rightarrow> bool \<times> int" where
  "CanAfford l agentID minUnits =
     (let bal = GetBalance l agentID in (minUnits \<le> bal, bal))"

text \<open>The result is the new ledger, the remaining balance and the error.\<close>

definition ChargeUsage ::
  "MemoryLedger \<Rightarrow> string \<Rightarrow> string \<Rightarrow> int \<Rightarrow> int \<Rightarrow> MemoryLedger \<times> int \<times> err option" where
  "ChargeUsage l agentID pipelineID amountUnits minuteBucket =
     (if agentID = [] \<or> pipelineID = [] \<or> amountUnits < 0
      then (l, 0, Some (ErrOther ''invalid charge''))
      else if amountUnits = 0 then (l, GetBalance l agentID, None)
      else let key = chargeKey agentID pipelineID minuteBucket
           in if key \<in> credited l then (l, balances l agentID, None)
              else let bal = balances l agentID
                   in if bal < amountUnits then (l, bal, Some ErrInsufficientFunds)
                      else let l' = l\<lparr>balances := (balances l)(agentID := bal - amountUnits),
                                      credited := insert key (credited l)\<rparr>
                           in (l', balances l' agentID, None))"

text \<open>\<open>bal - amountUnits\<close> needs no wrap: both are non-negative when it is reached.\<close>

section \<open>The decimal printer\<close>

lemma itoa_loop_0 [simp]: "itoa_loop 0 buf = buf"
  by (simp add: itoa_loop.simps)

lemma itoa_loop_dec: "0 \<le> v \<Longrightarrow> itoa_loop v buf = (if v = 0 then [] else dec_nat (nat v)) @ buf"
proof (induction v buf rule: itoa_loop.induct)
  case (1 v buf)
  show ?case
  proof (cases "0 < v")
    case True
    let ?d = "char_of (48 + nat (v mod 10)) :: char"
    have d: "?d = digit (nat v mod 10)"
      using True by (simp add: digit_def nat_mod_distrib)
    have "itoa_loop v buf = itoa_loop (v div 10) (?d # buf)"
      using True by (simp add: itoa_loop.simps [of v])
    also have "\<dots> = (if v div 10 = 0 then [] else dec_nat (nat (v div 10))) @ ?d # buf"
      using True by (intro "1.IH") simp_all
    also have "\<dots> = dec_nat (nat v) @ buf"
    proof (cases "v < 10")
      case small: True
      then show ?thesis using True d by (simp add: dec_nat.simps [of "nat v"])
    next
      case False
      then have "v div 10 \<noteq> 0" and "\<not> nat v < 10" by auto
      then show ?thesis using True d
        by (simp add: dec_nat.simps [of "nat v"] nat_div_distrib)
    qed
    finally show ?thesis using True by simp
  next
    case False
    then show ?thesis using "1.prems" by (simp add: itoa_loop.simps [of v])
  qed
qed

lemma itoa_dec: "i64 v \<Longrightarrow> v \<noteq> - (2 ^ 63) \<Longrightarrow> itoa v = dec_int v"
proof -
  assume v: "i64 v" "v \<noteq> - (2 ^ 63)"
  have "wrap64 (- v) = - v" if "v < 0"
    using v that by (intro wrap64_id) (auto simp: i64_def)
  moreover have "dec_nat 0 = ''0''" by (subst dec_nat.simps) simp
  ultimately show ?thesis by (auto simp: itoa_def dec_int_def itoa_loop_dec Let_def)
qed

lemma itoa_inject:
  "i64 v \<Longrightarrow> i64 w \<Longrightarrow> v \<noteq> - (2 ^ 63) \<Longrightarrow> w \<noteq> - (2 ^ 63) \<Longrightarrow> itoa v = itoa w \<longleftrightarrow> v = w"
  by (simp add: itoa_dec)

section \<open>Idempotency keys\<close>

lemma chargeKey_eq:
  assumes "CHR ''|'' \<notin> set a" "CHR ''|'' \<notin> set a'" "CHR ''|'' \<notin> set p" "CHR ''|'' \<notin> set p'"
  shows "chargeKey a p b = chargeKey a' p' b' \<longleftrightarrow> a = a' \<and> p = p' \<and> itoa b = itoa b'"
  using assms by (simp add: chargeKey_def sep_split)

lemma creditKey_eq:
  assumes "CHR ''|'' \<notin> set a" "CHR ''|'' \<notin> set a'" "CHR ''|'' \<notin> set s" "CHR ''|'' \<notin> set s'"
  shows "creditKey a t s = creditKey a' t' s' \<longleftrightarrow> a = a' \<and> s = s' \<and> t = t'"
  using assms by (auto simp: creditKey_def sep_split)

lemma creditKey_neq_chargeKey:
  assumes "CHR ''|'' \<notin> set a" "CHR ''|'' \<notin> set a'" "CHR ''|'' \<notin> set s" "CHR ''|'' \<notin> set p" "s \<noteq> p"
  shows "creditKey a t s \<noteq> chargeKey a' p b"
  using assms by (auto simp: creditKey_def chargeKey_def sep_split)

section \<open>The ledger interface of the session service\<close>

text \<open>
  The laws the service relies on.  A rejected charge leaves the ledger alone; an accepted one
  reports the balance it leaves and takes either nothing (the bucket was already charged, or the
  amount is 0) or exactly its amount, which the balance covered.
\<close>

locale prepaid_ledger =
  fixes bal :: "'l \<Rightarrow> string \<Rightarrow> int"
    and credit :: "'l \<Rightarrow> string \<Rightarrow> int \<Rightarrow> string \<Rightarrow> string \<Rightarrow> 'l \<times> err option"
    and afford :: "'l \<Rightarrow> string \<Rightarrow> int \<Rightarrow> bool \<times> int"
    and charge :: "'l \<Rightarrow> string \<Rightarrow> string \<Rightarrow> int \<Rightarrow> int \<Rightarrow> 'l \<times> int \<times> err option"
  assumes afford_eq: "afford l a m = (m \<le> bal l a, bal l a)"
    and credit_rejected: "credit l a n t s = (l', Some e) \<Longrightarrow> l' = l"
    and credit_accepted:
      "credit l a n t s = (l', None) \<Longrightarrow> 0 < n \<and> (bal l' a = bal l a \<or> bal l' a = add64 (bal l a) n)"
    and credit_frame: "a' \<noteq> a \<Longrightarrow> bal (fst (credit l a n t s)) a' = bal l a'"
    and charge_rejected: "charge l a p n b = (l', r, Some e) \<Longrightarrow> l' = l"
    and charge_accepted:
      "charge l a p n b = (l', r, None) \<Longrightarrow>
         r = bal l' a \<and> (bal l' a = bal l a \<or> bal l' a = bal l a - n \<and> 0 < n \<and> n \<le> bal l a)"
    and charge_frame: "a' \<noteq> a \<Longrightarrow> bal (fst (charge l a p n b)) a' = bal l a'"
begin

lemma charge_le: "bal (fst (charge l a p n b)) a' \<le> bal l a'"
proof (cases "a' = a")
  case True
  obtain l' r e where c: "charge l a p n b = (l', r, e)" by (cases "charge l a p n b")
  then show ?thesis
    using True charge_rejected charge_accepted by (cases e) fastforce+
next
  case False
  then show ?thesis by (simp add: charge_frame)
qed

lemma charge_nonneg:
  assumes "0 \<le> bal l a'"
  shows "0 \<le> bal (fst (charge l a p n b)) a'"
proof (cases "a' = a")
  case True
  obtain l' r e where c: "charge l a p n b = (l', r, e)" by (cases "charge l a p n b")
  then show ?thesis
    using True assms charge_rejected charge_accepted by (cases e) fastforce+
next
  case False
  with assms show ?thesis by (simp add: charge_frame)
qed

lemma charge_cost:
  "charge l a p n b = (l', r, None) \<Longrightarrow> 0 \<le> n \<Longrightarrow> 0 \<le> bal l a - bal l' a \<and> bal l a - bal l' a \<le> n"
  using charge_accepted by fastforce

lemma afford_covers: "afford l a m = (True, b) \<Longrightarrow> b = bal l a \<and> m \<le> b"
  by (simp add: afford_eq)

end

interpretation ml: prepaid_ledger GetBalance Credit CanAfford ChargeUsage
  by unfold_locales
     (auto simp: GetBalance_def Credit_def CanAfford_def ChargeUsage_def Let_def split: if_splits)

section \<open>Requests to the ledger\<close>

text \<open>
  A request is a top-up (agent, amount, reference, source) or a charge (agent, pipeline, amount,
  bucket); a step makes the call and keeps the ledger it leaves.
\<close>

datatype ledger_op = OpCredit string int string string | OpCharge string string int int

fun ledger_step :: "MemoryLedger \<Rightarrow> ledger_op \<Rightarrow> MemoryLedger" where
  "ledger_step l (OpCredit a n t s) = fst (Credit l a n t s)"
| "ledger_step l (OpCharge a p n b) = fst (ChargeUsage l a p n b)"

text \<open>
  Top-ups that carry a reference (a Hedera transaction id or an idempotency key) are keyed effects.
  Top-ups without one are credited at every delivery, and a refused charge may be accepted later:
  neither has a key in this sense.
\<close>

fun keyed_top_up :: "ledger_op \<Rightarrow> bool" where
  "keyed_top_up (OpCredit a n t s) \<longleftrightarrow> t \<noteq> []"
| "keyed_top_up (OpCharge a p n b) \<longleftrightarrow> False"

fun top_up_ok :: "ledger_op \<Rightarrow> bool" where
  "top_up_ok (OpCredit a n t s) \<longleftrightarrow> a \<noteq> [] \<and> 0 < n"
| "top_up_ok (OpCharge a p n b) \<longleftrightarrow> False"

fun top_up_key :: "ledger_op \<Rightarrow> string" where
  "top_up_key (OpCredit a n t s) = creditKey a t s"
| "top_up_key (OpCharge a p n b) = chargeKey a p b"

lemma ledger_step_keeps_keys: "credited l \<subseteq> credited (ledger_step l q)"
  by (cases q) (auto simp: Credit_def ChargeUsage_def Let_def)

lemma keyed_top_upE:
  assumes "keyed_top_up q"
  obtains a n t s where "q = OpCredit a n t s" "t \<noteq> []"
  using assms by (cases q) auto

interpretation topup: keyed_effects credited keyed_top_up "\<lambda>_. top_up_ok" top_up_key ledger_step
  by unfold_locales (auto simp: Credit_def Let_def ledger_step_keeps_keys [THEN subsetD] elim!: keyed_top_upE)

section \<open>Specification: the journal of accepted requests\<close>

text \<open>
  The abstract ledger keeps the requests it accepted and computes everything from them; its keys
  are the tuples themselves, not strings.
\<close>

fun posting :: "ledger_op \<Rightarrow> string \<Rightarrow> int" where
  "posting (OpCredit a n t s) x = (if x = a then n else 0)"
| "posting (OpCharge a p n b) x = (if x = a then - n else 0)"

definition journal_balance :: "ledger_op list \<Rightarrow> string \<Rightarrow> int" where
  "journal_balance j x = sum_list (map (\<lambda>q. posting q x) j)"

fun journal_accepts :: "ledger_op list \<Rightarrow> ledger_op \<Rightarrow> bool" where
  "journal_accepts j (OpCredit a n t s) \<longleftrightarrow>
     a \<noteq> [] \<and> 0 < n \<and> (t = [] \<or> (\<forall>q \<in> set j. \<forall>m. q \<noteq> OpCredit a m t s))"
| "journal_accepts j (OpCharge a p n b) \<longleftrightarrow>
     a \<noteq> [] \<and> p \<noteq> [] \<and> 0 < n \<and> n \<le> journal_balance j a \<and> (\<forall>q \<in> set j. \<forall>m. q \<noteq> OpCharge a p m b)"

definition journal_step :: "ledger_op list \<Rightarrow> ledger_op \<Rightarrow> ledger_op list" where
  "journal_step j q = (if journal_accepts j q then j @ [q] else j)"

definition bar_free :: "string \<Rightarrow> bool" where
  "bar_free s \<longleftrightarrow> CHR ''|'' \<notin> set s"

text \<open>
  The requests the service makes: no identifier contains the separator, the top-up sources are
  taken from \<open>srcs\<close>, which no pipeline id belongs to, and bucket numbers are counters.
\<close>

fun op_ok :: "string set \<Rightarrow> ledger_op \<Rightarrow> bool" where
  "op_ok srcs (OpCredit a n t s) \<longleftrightarrow> bar_free a \<and> bar_free s \<and> s \<in> srcs"
| "op_ok srcs (OpCharge a p n b) \<longleftrightarrow> bar_free a \<and> bar_free p \<and> p \<notin> srcs \<and> 0 \<le> b \<and> i64 b"

fun credit_amount :: "ledger_op \<Rightarrow> int" where
  "credit_amount (OpCredit a n t s) = max 0 n"
| "credit_amount (OpCharge a p n b) = 0"

fun op_key :: "ledger_op \<Rightarrow> string set" where
  "op_key (OpCredit a n t s) = (if t = [] then {} else {creditKey a t s})"
| "op_key (OpCharge a p n b) = {chargeKey a p b}"

definition journal_keys :: "ledger_op list \<Rightarrow> string set" where
  "journal_keys j = (\<Union>q \<in> set j. op_key q)"

definition represents :: "MemoryLedger \<Rightarrow> ledger_op list \<Rightarrow> bool" where
  "represents l j \<longleftrightarrow> (\<forall>x. balances l x = journal_balance j x) \<and> credited l = journal_keys j"

lemma journal_balance_Nil [simp]: "journal_balance [] x = 0"
  by (simp add: journal_balance_def)

lemma journal_balance_snoc [simp]:
  "journal_balance (j @ [q]) x = journal_balance j x + posting q x"
  by (simp add: journal_balance_def)

lemma journal_keys_snoc [simp]: "journal_keys (j @ [q]) = op_key q \<union> journal_keys j"
  by (auto simp: journal_keys_def)

lemma mem_journal_keys_credit:
  assumes "\<forall>q \<in> set j. op_ok srcs q" "bar_free a" "bar_free s" "s \<in> srcs" "t \<noteq> []"
  shows "creditKey a t s \<in> journal_keys j \<longleftrightarrow> (\<exists>m. OpCredit a m t s \<in> set j)"
proof -
  have "creditKey a t s \<in> op_key q \<longleftrightarrow> (\<exists>m. q = OpCredit a m t s)" if "q \<in> set j" for q
  proof -
    from that assms(1) have "op_ok srcs q" by blast
    then show ?thesis
      using assms(2-)
      by (cases q) (auto simp: creditKey_eq bar_free_def dest!: creditKey_neq_chargeKey [THEN notE, rotated 5])
  qed
  then show ?thesis by (auto simp: journal_keys_def)
qed

lemma mem_journal_keys_charge:
  assumes "\<forall>q \<in> set j. op_ok srcs q" "op_ok srcs (OpCharge a p n b)"
  shows "chargeKey a p b \<in> journal_keys j \<longleftrightarrow> (\<exists>m. OpCharge a p m b \<in> set j)"
proof -
  have "chargeKey a p b \<in> op_key q \<longleftrightarrow> (\<exists>m. q = OpCharge a p m b)" if "q \<in> set j" for q
  proof (cases q)
    case (OpCredit a' n' t s)
    with that assms have "bar_free a'" "bar_free s" "s \<noteq> p" by force+
    then have "chargeKey a p b \<noteq> creditKey a' t s"
      using creditKey_neq_chargeKey [of a' a s p t b] assms(2) by (auto simp: bar_free_def)
    then show ?thesis using OpCredit by simp
  next
    case (OpCharge a' p' n' b')
    with that assms have "bar_free a'" "bar_free p'" "0 \<le> b'" "i64 b'" by force+
    moreover have "itoa b = itoa b' \<longleftrightarrow> b = b'"
      using calculation assms(2) by (intro itoa_inject) auto
    ultimately show ?thesis
      using OpCharge assms(2) by (auto simp: chargeKey_eq bar_free_def)
  qed
  then show ?thesis by (auto simp: journal_keys_def)
qed

lemma Credit_cases:
  "Credit l a n t s =
     (if a = [] \<or> n \<le> 0 then (l, Some (ErrOther ''invalid credit''))
      else if t \<noteq> [] \<and> creditKey a t s \<in> credited l then (l, None)
      else (l\<lparr>balances := (balances l)(a := add64 (balances l a) n),
              credited := op_key (OpCredit a n t s) \<union> credited l\<rparr>, None))"
  by (simp add: Credit_def Let_def)

lemma represents_credit:
  assumes R: "represents l j" and ok: "\<forall>q \<in> set j. op_ok srcs q" "op_ok srcs (OpCredit a n t s)"
    and room: "0 \<le> journal_balance j a" "0 < n \<Longrightarrow> journal_balance j a + n < 2 ^ 63"
  shows "represents (ledger_step l (OpCredit a n t s)) (journal_step j (OpCredit a n t s))"
proof -
  have dup: "t \<noteq> [] \<Longrightarrow> creditKey a t s \<in> credited l \<longleftrightarrow> (\<exists>m. OpCredit a m t s \<in> set j)"
    using R mem_journal_keys_credit [OF ok(1)] ok(2) by (simp add: represents_def)
  show ?thesis
  proof (cases "journal_accepts j (OpCredit a n t s)")
    case True
    with dup have step: "ledger_step l (OpCredit a n t s) =
        l\<lparr>balances := (balances l)(a := add64 (balances l a) n),
          credited := op_key (OpCredit a n t s) \<union> credited l\<rparr>"
      by (auto simp: Credit_cases)
    have "add64 (balances l a) n = balances l a + n"
      using True R room by (intro add64_id) (auto simp: represents_def i64_def)
    with R True step show ?thesis by (auto simp: represents_def journal_step_def)
  next
    case False
    with dup have "ledger_step l (OpCredit a n t s) = l" by (auto simp: Credit_cases)
    then show ?thesis using R False by (simp add: journal_step_def del: journal_accepts.simps ledger_step.simps)
  qed
qed

lemma represents_charge:
  assumes R: "represents l j" and ok: "\<forall>q \<in> set j. op_ok srcs q" "op_ok srcs (OpCharge a p n b)"
  shows "represents (ledger_step l (OpCharge a p n b)) (journal_step j (OpCharge a p n b))"
proof -
  have dup: "chargeKey a p b \<in> credited l \<longleftrightarrow> (\<exists>m. OpCharge a p m b \<in> set j)"
    using R mem_journal_keys_charge [OF ok] by (simp add: represents_def)
  have bal: "balances l a = journal_balance j a" using R by (simp add: represents_def)
  show ?thesis
    using R dup bal
    by (auto simp: represents_def journal_step_def ChargeUsage_def Let_def split: if_splits)
qed

lemma journal_step_bounds:
  assumes "\<forall>x. 0 \<le> journal_balance j x \<and> journal_balance j x \<le> c"
  shows "0 \<le> journal_balance (journal_step j q) x \<and> journal_balance (journal_step j q) x \<le> c + credit_amount q"
  using assms [rule_format, of x] by (cases q) (auto simp: journal_step_def)

lemma credit_amount_nonneg: "0 \<le> credit_amount q"
  by (cases q) auto

lemma run_represents:
  assumes "represents l j" "\<forall>q \<in> set j. op_ok srcs q" "\<forall>q \<in> set qs. op_ok srcs q"
    and "\<forall>x. 0 \<le> journal_balance j x \<and> journal_balance j x \<le> c"
    and "c + sum_list (map credit_amount qs) < 2 ^ 63"
  shows "represents (foldl ledger_step l qs) (foldl journal_step j qs) \<and>
    (\<forall>x. 0 \<le> journal_balance (foldl journal_step j qs) x)"
  using assms
proof (induction qs arbitrary: l j c)
  case Nil
  then show ?case by simp
next
  case (Cons q qs)
  have nonneg: "0 \<le> sum_list (map credit_amount qs)"
    by (rule sum_list_nonneg) (auto simp: credit_amount_nonneg)
  have ok: "\<forall>q' \<in> set (journal_step j q). op_ok srcs q'"
    using Cons.prems(2,3) by (auto simp: journal_step_def)
  have "represents (ledger_step l q) (journal_step j q)"
  proof (cases q)
    case (OpCredit a n t s)
    have "journal_balance j a + n < 2 ^ 63" if "0 < n"
      using that Cons.prems(4) [rule_format, of a] Cons.prems(5) nonneg OpCredit by auto
    then show ?thesis
      using Cons.prems OpCredit by (auto intro!: represents_credit simp del: ledger_step.simps)
  next
    case (OpCharge a p n b)
    then show ?thesis
      using Cons.prems by (auto intro!: represents_charge simp del: ledger_step.simps)
  qed
  moreover have "\<forall>x. 0 \<le> journal_balance (journal_step j q) x \<and>
      journal_balance (journal_step j q) x \<le> c + credit_amount q"
    using journal_step_bounds [OF Cons.prems(4)] by blast
  ultimately have "represents (foldl ledger_step (ledger_step l q) qs) (foldl journal_step (journal_step j q) qs) \<and>
      (\<forall>x. 0 \<le> journal_balance (foldl journal_step (journal_step j q) qs) x)"
    using Cons.prems(3,5) by (intro Cons.IH [OF _ ok, of _ "c + credit_amount q"]) (simp_all add: add.assoc)
  then show ?case by simp
qed

lemma represents_New: "represents NewMemoryLedger []"
  by (simp add: represents_def NewMemoryLedger_def journal_keys_def)

section \<open>Properties\<close>

text \<open>
  C1: the ledger refines the journal.  Driven by any sequence of top-ups and charges whose
  identifiers do not contain the key separator, and whose top-ups sum to less than \<open>2 ^ 63\<close>, the
  balances are exactly the journal's credits minus its debits, and no agent is ever overdrawn.
\<close>

theorem ledger_refines_journal:
  assumes "\<forall>q \<in> set qs. op_ok srcs q" and "sum_list (map credit_amount qs) < 2 ^ 63"
  shows "represents (foldl ledger_step NewMemoryLedger qs) (foldl journal_step [] qs) \<and>
    0 \<le> balances (foldl ledger_step NewMemoryLedger qs) x"
  using run_represents [OF represents_New, of srcs qs 0] assms by (auto simp: represents_def)

theorem ledger_refines_journal_witness:
  "let qs = [OpCredit ''a1'' 100 ''tx1'' ''dep'', OpCredit ''a1'' 100 ''tx1'' ''dep'',
             OpCharge ''a1'' ''p1'' 40 1, OpCharge ''a1'' ''p1'' 40 1, OpCharge ''a1'' ''p1'' 70 2]
   in represents (foldl ledger_step NewMemoryLedger qs) (foldl journal_step [] qs) \<and>
      balances (foldl ledger_step NewMemoryLedger qs) ''a1'' = 60"
proof -
  let ?qs = "[OpCredit ''a1'' 100 ''tx1'' ''dep'', OpCredit ''a1'' 100 ''tx1'' ''dep'',
    OpCharge ''a1'' ''p1'' 40 1, OpCharge ''a1'' ''p1'' 40 1, OpCharge ''a1'' ''p1'' 70 2]"
  have "\<forall>q \<in> set ?qs. op_ok {''dep''} q" by (simp add: bar_free_def i64_def)
  moreover have "sum_list (map credit_amount ?qs) < 2 ^ 63" by simp
  ultimately have "represents (foldl ledger_step NewMemoryLedger ?qs) (foldl journal_step [] ?qs)"
    by (rule ledger_refines_journal [THEN conjunct1])
  moreover have "journal_balance (foldl journal_step [] ?qs) ''a1'' = 60"
    by (simp add: journal_step_def journal_balance_def)
  ultimately show ?thesis by (simp add: represents_def del: foldl_Cons)
qed

text \<open>
  C17: a top-up that carries a reference is credited once.  After any requests to the ledger, top-ups
  with and without reference and charges in any order, redelivering any of the top-ups with a reference
  among them, in any order and number, leaves the ledger unchanged.  A top-up without a reference (an
  x402 request without idempotency key) is credited at every delivery.
\<close>

theorem topup_redelivery:
  assumes "set again \<subseteq> set requests" "\<forall>q \<in> set again. keyed_top_up q"
  shows "foldl ledger_step (foldl ledger_step l requests) again = foldl ledger_step l requests \<and>
    (\<forall>l a n s. a \<noteq> [] \<and> 0 < n \<longrightarrow>
       ledger_step l (OpCredit a n [] s) = l\<lparr>balances := (balances l)(a := add64 (balances l a) n)\<rparr>)"
  using topup.redelivery [OF assms] by (simp add: Credit_def Let_def)

theorem topup_redelivery_witness:
  "balances (foldl ledger_step NewMemoryLedger
     ([OpCredit ''a1'' 100 ''tx1'' ''dep'', OpCredit ''a1'' 5 [] ''x402'', OpCharge ''a1'' ''p1'' 40 1]
      @ [OpCredit ''a1'' 100 ''tx1'' ''dep'', OpCredit ''a1'' 100 ''tx1'' ''dep''])) ''a1'' = 65"
proof -
  let ?r = "[OpCredit ''a1'' 100 ''tx1'' ''dep'', OpCredit ''a1'' 5 [] ''x402'', OpCharge ''a1'' ''p1'' 40 1]"
  let ?again = "[OpCredit ''a1'' 100 ''tx1'' ''dep'', OpCredit ''a1'' 100 ''tx1'' ''dep'']"
  have "set ?again \<subseteq> set ?r" "\<forall>q \<in> set ?again. keyed_top_up q" by simp_all
  then have "foldl ledger_step NewMemoryLedger (?r @ ?again) = foldl ledger_step NewMemoryLedger ?r"
    unfolding foldl_append by (rule topup_redelivery [THEN conjunct1])
  moreover have "balances (foldl ledger_step NewMemoryLedger ?r) ''a1'' = 65"
    by (simp add: Credit_def ChargeUsage_def NewMemoryLedger_def creditKey_def chargeKey_def Let_def add64_id i64_def)
  ultimately show ?thesis by (simp only: append.simps)
qed

text \<open>
  C19: \<open>itoa\<close> prints every bucket number so that it parses back to the same number, and the digits
  fit the 32-byte buffer; the least \<open>int64\<close> is the one value it does not print.
\<close>

theorem itoa_roundtrip:
  assumes "i64 v"
  shows "length (itoa v) \<le> 32 \<and> (ParseInt (itoa v) = Some v \<longleftrightarrow> v \<noteq> - (2 ^ 63))"
proof (cases "v = - (2 ^ 63)")
  case True
  have "itoa (- (2 ^ 63)) = ''-''"
    by (simp add: itoa_def wrap64_def itoa_loop.simps)
  with True show ?thesis by (simp add: ParseInt_def)
next
  case False
  then show ?thesis
    using assms length_dec_int [OF assms] by (simp add: itoa_dec ParseInt_dec_int)
qed

theorem itoa_roundtrip_witness:
  "length (itoa 100) \<le> 32 \<and> ParseInt (itoa 100) = Some 100 \<and> itoa 100 = ''100''"
proof -
  have "i64 100" by (simp add: i64_def)
  from itoa_roundtrip [OF this] have "length (itoa 100) \<le> 32 \<and> ParseInt (itoa 100) = Some 100"
    by simp
  moreover have "itoa 100 = ''100''" by (simp add: itoa_def itoa_loop.simps)
  ultimately show ?thesis by simp
qed

text \<open>
  C18: the keys of credits and charges share one set and are built by concatenation, so identifiers
  that contain the separator collide.  A top-up by one agent under a chosen idempotency key makes
  the ledger skip a charge of another agent's pipeline: the charge is reported as accepted and
  nothing is taken.
\<close>

theorem topup_key_cancels_charge:
  assumes "a \<noteq> []" "p \<noteq> []" "0 < n" "0 < amount"
  shows "let victim = a @ ''|x402|'' @ z;
             l' = fst (Credit l a n (z @ ''|'' @ p @ ''|charge|'' @ itoa b) ''x402'')
         in ChargeUsage l' victim p amount b = (l', balances l' victim, None)"
proof -
  let ?t = "z @ ''|'' @ p @ ''|charge|'' @ itoa b"
  have "creditKey a ?t ''x402'' = chargeKey (a @ ''|x402|'' @ z) p b"
    by (simp add: creditKey_def chargeKey_def)
  moreover have "creditKey a ?t ''x402'' \<in> credited (fst (Credit l a n ?t ''x402''))"
    using assms by (auto simp: Credit_cases)
  ultimately show ?thesis using assms by (simp add: ChargeUsage_def Let_def)
qed

theorem topup_key_cancels_charge_witness:
  "let l = fst (Credit (fst (Credit NewMemoryLedger ''m|x402|v'' 500 ''t'' ''x402''))
                  ''m'' 1 ''v|p1|charge|1'' ''x402'')
   in ChargeUsage l ''m|x402|v'' ''p1'' 500 1 = (l, 500, None)"
proof -
  let ?l0 = "fst (Credit NewMemoryLedger ''m|x402|v'' 500 ''t'' ''x402'')"
  have "''m'' \<noteq> ([] :: string)" "''p1'' \<noteq> ([] :: string)" "(0 :: int) < 1" "(0 :: int) < 500"
    by simp_all
  from topup_key_cancels_charge [OF this, where l = ?l0 and z = "''v''" and b = 1]
  have "let l = fst (Credit ?l0 ''m'' 1 ''v|p1|charge|1'' ''x402'')
    in ChargeUsage l ''m|x402|v'' ''p1'' 500 1 = (l, balances l ''m|x402|v'', None)"
    by (simp add: itoa_def itoa_loop.simps Let_def)
  moreover have "balances (fst (Credit ?l0 ''m'' 1 ''v|p1|charge|1'' ''x402'')) ''m|x402|v'' = 500"
    by (simp add: Credit_cases NewMemoryLedger_def add64_id i64_def)
  ultimately show ?thesis by (simp add: Let_def)
qed

end
