(* ===== verification/Activity.thy ===== *)
theory Activity
  imports Go_Values
begin

text \<open>
  The activity feed of the dashboards: \<^verbatim>\<open>internal/pipeline/activity.go\<close>.
\<close>

record ActivityEntry =
  ae_Time :: gotime
  ae_Type :: string
  ae_SessionID :: string
  ae_Data :: obj

record ActivityLog =
  al_max :: nat
  al_entries :: "ActivityEntry list"

definition NewActivityLog :: "int \<Rightarrow> ActivityLog" where
  "NewActivityLog m = \<lparr>al_max = (if m < 16 then 16 else nat m), al_entries = []\<rparr>"

text \<open>
  \<open>copy(a.entries, a.entries[1:])\<close> moves every entry down by one and leaves the last one in place
  twice; cutting the slice by one then drops that duplicate.  A nil \<open>Data\<close> and the empty map are
  both \<open>[]\<close>; \<open>now\<close> is the wall clock.
\<close>

definition shift_down :: "'a list \<Rightarrow> 'a list" where
  "shift_down xs = tl xs @ [last xs]"

definition Record :: "ActivityLog \<Rightarrow> gotime \<Rightarrow> ActivityEntry \<Rightarrow> ActivityLog" where
  "Record a now e =
     (let e' = (if IsZero (ae_Time e) then e\<lparr>ae_Time := now\<rparr> else e);
          entries = al_entries a;
          entries' = (if al_max a \<le> length entries then butlast (shift_down entries) else entries)
      in a\<lparr>al_entries := entries' @ [e']\<rparr>)"

text \<open>The loop writes \<open>out[limit-1-i] = entries[start+i]\<close> for every \<open>i\<close> below the limit.\<close>

fun snapshot_loop :: "ActivityEntry list \<Rightarrow> nat \<Rightarrow> nat \<Rightarrow> nat \<Rightarrow> ActivityEntry list \<Rightarrow> ActivityEntry list" where
  "snapshot_loop entries start lim 0 out = out"
| "snapshot_loop entries start lim (Suc n) out =
     snapshot_loop entries start lim n
       (out[lim - 1 - (lim - Suc n) := entries ! (start + (lim - Suc n))])"

definition Snapshot :: "ActivityLog \<Rightarrow> int \<Rightarrow> ActivityEntry list" where
  "Snapshot a lim =
     (let es = al_entries a;
          l = (if lim \<le> 0 \<or> int (length es) < lim then length es else nat lim);
          start = length es - l
      in snapshot_loop es start l l
           (replicate l \<lparr>ae_Time = 0, ae_Type = [], ae_SessionID = [], ae_Data = []\<rparr>))"

section \<open>Lemmas\<close>

lemma butlast_shift_down [simp]: "butlast (shift_down xs) = tl xs"
  by (simp add: shift_down_def)

lemma length_snapshot_loop [simp]: "length (snapshot_loop es st l n out) = length out"
  by (induction es st l n out rule: snapshot_loop.induct) auto

text \<open>With \<open>n\<close> iterations to go, the \<open>n\<close> first cells are the ones not yet written.\<close>

lemma snapshot_loop_nth:
  "n \<le> l \<Longrightarrow> length out = l \<Longrightarrow> k < l \<Longrightarrow>
     snapshot_loop es st l n out ! k = (if k < n then es ! (st + (l - 1 - k)) else out ! k)"
proof (induction n arbitrary: out)
  case (Suc n)
  let ?out = "out[n := es ! (st + (l - Suc n))]"
  have "l - 1 - (l - Suc n) = n" using Suc.prems by simp
  then have "snapshot_loop es st l (Suc n) out = snapshot_loop es st l n ?out" by simp
  moreover have "snapshot_loop es st l n ?out ! k =
      (if k < n then es ! (st + (l - 1 - k)) else ?out ! k)"
    using Suc.prems by (intro Suc.IH) simp_all
  ultimately show ?case using Suc.prems by (auto simp: nth_list_update less_Suc_eq)
qed simp

lemma Snapshot_eq:
  "Snapshot a lim =
     (let es = al_entries a; l = (if lim \<le> 0 \<or> int (length es) < lim then length es else nat lim)
      in rev (lastn l es))"
proof -
  have loop: "snapshot_loop es (length es - l) l l out = rev (lastn l es)"
    if "l \<le> length es" "length out = l" for es l out
    using that by (intro nth_equalityI) (auto simp: snapshot_loop_nth rev_nth lastn_def Suc_diff_Suc)
  define l where "l = (if lim \<le> 0 \<or> int (length (al_entries a)) < lim then length (al_entries a) else nat lim)"
  have "l \<le> length (al_entries a)" by (auto simp: l_def)
  with loop show ?thesis by (simp add: Snapshot_def Let_def flip: l_def)
qed

text \<open>
  The abstract feed is the list of all entries ever recorded; the ring holds its last \<open>al_max\<close>.
\<close>

definition feed_of :: "ActivityLog \<Rightarrow> ActivityEntry list \<Rightarrow> bool" where
  "feed_of a h \<longleftrightarrow> 0 < al_max a \<and> al_entries a = lastn (al_max a) h"

definition stamped :: "gotime \<Rightarrow> ActivityEntry \<Rightarrow> ActivityEntry" where
  "stamped now e = (if IsZero (ae_Time e) then e\<lparr>ae_Time := now\<rparr> else e)"

lemma feed_New: "feed_of (NewActivityLog m) []"
  by (simp add: feed_of_def NewActivityLog_def)

lemma feed_Record:
  assumes "feed_of a h"
  shows "feed_of (Record a now e) (h @ [stamped now e])"
proof -
  have "lastn (al_max a) (h @ [x]) =
      (if al_max a \<le> length (lastn (al_max a) h) then tl (lastn (al_max a) h) else lastn (al_max a) h) @ [x]" for x
    using assms by (auto simp: feed_of_def lastn_def Suc_diff_le drop_Suc tl_drop)
  with assms show ?thesis
    by (simp add: feed_of_def Record_def stamped_def Let_def)
qed

definition feed_limit :: "nat \<Rightarrow> int \<Rightarrow> nat \<Rightarrow> nat" where
  "feed_limit m lim n = (if lim \<le> 0 \<or> int (min m n) < lim then min m n else nat lim)"

section \<open>Properties\<close>

text \<open>
  C22: the ring buffer refines the unbounded feed.  After any number of recordings a snapshot is
  the newest entries first, as many as asked for and retained: never a lost, reordered or stale
  entry within the capacity.
\<close>

theorem Snapshot_refines_feed:
  "Snapshot (foldl (\<lambda>a (now, e). Record a now e) (NewActivityLog m) es) lim =
     take (feed_limit (al_max (NewActivityLog m)) lim (length es)) (rev (map (\<lambda>(now, e). stamped now e) es))"
proof -
  let ?run = "foldl (\<lambda>a (now, e). Record a now e) (NewActivityLog m) es"
  let ?h = "map (\<lambda>(now, e). stamped now e) es"
  have "feed_of (foldl (\<lambda>a (now, e). Record a now e) a es) (h @ ?h) \<and>
      al_max (foldl (\<lambda>a (now, e). Record a now e) a es) = al_max a" if "feed_of a h" for a h
    using that
  proof (induction es arbitrary: a h)
    case (Cons x es)
    obtain now e where x: "x = (now, e)" by (cases x)
    show ?case using Cons.IH [OF feed_Record [OF Cons.prems, of now e]] x by (simp add: Record_def Let_def)
  qed simp
  from this [OF feed_New [of m]] have "feed_of ?run ?h" "al_max ?run = al_max (NewActivityLog m)" by simp_all
  then have es: "al_entries ?run = lastn (al_max (NewActivityLog m)) ?h" by (simp add: feed_of_def)
  define l where "l = feed_limit (al_max (NewActivityLog m)) lim (length es)"
  have "Snapshot ?run lim = rev (lastn l (al_entries ?run))"
    by (simp add: Snapshot_eq es l_def feed_limit_def Let_def)
  also have "\<dots> = rev (lastn l ?h)"
    unfolding es by (subst lastn_lastn) (auto simp: l_def feed_limit_def)
  finally show ?thesis by (simp add: rev_lastn l_def)
qed

end
