(* ===== verification/Naryo_Client.thy ===== *)
theory Naryo_Client
  imports Go_Values
begin

text \<open>
  The Naryo client as the session service sees it: the Go interface \<open>Client\<close>
  (\<^verbatim>\<open>internal/naryo/client.go\<close>, \<^verbatim>\<open>ensure_args.go\<close>) and its in-process implementation
  \<open>RecordingClient\<close> (\<^verbatim>\<open>recording_client.go\<close>).
\<close>

section \<open>The interface\<close>

text \<open>
  The methods the service calls, over the client's own state \<open>'n\<close>.  \<open>None\<close> means that the call does
  not return (it waits for a lock or for an answer that never comes).
\<close>

record 'n naryo_client =
  EnsurePipeline :: "'n \<Rightarrow> string \<Rightarrow> obj \<Rightarrow> ('n \<times> (err + string)) option"
  PauseEgress :: "'n \<Rightarrow> string \<Rightarrow> ('n \<times> err option) option"
  ResumeEgress :: "'n \<Rightarrow> string \<Rightarrow> obj \<Rightarrow> ('n \<times> err option) option"
  StopPipeline :: "'n \<Rightarrow> string \<Rightarrow> ('n \<times> err option) option"

text \<open>A client all of whose calls return.\<close>

locale returning_client =
  fixes nc :: "'n naryo_client"
  assumes ensure_returns: "returns (EnsurePipeline nc n sid cfg)"
    and pause_returns: "returns (PauseEgress nc n sid)"
    and resume_returns: "returns (ResumeEgress nc n sid cfg)"
    and stop_returns: "returns (StopPipeline nc n sid)"

section \<open>The recording client\<close>

record RecordingClient =
  EnsureCalls :: int
  PauseCalls :: int
  ResumeCalls :: int
  StopCalls :: int
  opSeq :: int

definition NewRecordingClient :: RecordingClient where
  "NewRecordingClient = \<lparr>EnsureCalls = 0, PauseCalls = 0, ResumeCalls = 0, StopCalls = 0, opSeq = 0\<rparr>"

definition recording_EnsurePipeline ::
  "RecordingClient \<Rightarrow> string \<Rightarrow> obj \<Rightarrow> (RecordingClient \<times> (err + string)) option" where
  "recording_EnsurePipeline m sid cfg =
     (let seq = add64 (opSeq m) 1
      in Some (m\<lparr>EnsureCalls := add32 (EnsureCalls m) 1, opSeq := seq\<rparr>,
               Inr (''recording-op-ensure-'' @ dec_int seq)))"

definition recording_PauseEgress :: "RecordingClient \<Rightarrow> string \<Rightarrow> (RecordingClient \<times> err option) option" where
  "recording_PauseEgress m sid = Some (m\<lparr>PauseCalls := add32 (PauseCalls m) 1\<rparr>, None)"

definition recording_ResumeEgress ::
  "RecordingClient \<Rightarrow> string \<Rightarrow> obj \<Rightarrow> (RecordingClient \<times> err option) option" where
  "recording_ResumeEgress m sid cfg = Some (m\<lparr>ResumeCalls := add32 (ResumeCalls m) 1\<rparr>, None)"

definition recording_StopPipeline :: "RecordingClient \<Rightarrow> string \<Rightarrow> (RecordingClient \<times> err option) option" where
  "recording_StopPipeline m sid = Some (m\<lparr>StopCalls := add32 (StopCalls m) 1\<rparr>, None)"

definition recording_client :: "RecordingClient naryo_client" where
  "recording_client = \<lparr>EnsurePipeline = recording_EnsurePipeline, PauseEgress = recording_PauseEgress,
     ResumeEgress = recording_ResumeEgress, StopPipeline = recording_StopPipeline\<rparr>"

lemmas recording_defs = recording_client_def recording_EnsurePipeline_def recording_PauseEgress_def
  recording_ResumeEgress_def recording_StopPipeline_def

interpretation rec_client: returning_client recording_client
  by unfold_locales (simp_all add: recording_defs Let_def)

end
