(* ===== verification/Service.thy ===== *)
theory Service
  imports Session_Store Ledger Activity Naryo_Client
begin

text \<open>
  The session service, \<^verbatim>\<open>internal/pipeline/service.go\<close> without the billing loop: its state, its
  options and the operations behind the REST and MCP surfaces.
\<close>

section \<open>Notifications\<close>

record BillingSummaryArgs =
  bs_AgentID :: string
  bs_RuntimeSeconds :: int
  bs_AmountChargedUnits :: int
  bs_RemainingBalanceUnits :: int
  bs_SummaryWindowMinutes :: int
  bs_ConfigHash :: string

record AgentTopUpArgs =
  tu_AgentID :: string
  tu_AmountUnits :: int
  tu_Source :: string
  tu_SourceTxID :: string
  tu_Asset :: string

text \<open>The methods of \<open>HCSLogger\<close>; a logger is represented by the calls it received.\<close>

datatype hcs_call =
    PipelineCreated string string
  | PipelineStarted string string string
  | PipelinePaused string string int
  | PipelineResumed string
  | PipelineStopped string
  | PipelineReconfigured string int
  | BillingTickCall string int int
  | BillingSummary string BillingSummaryArgs
  | AgentTopUp AgentTopUpArgs
  | StartRejectedInsufficientPrepaid string string int int
  | PaymentStreamStarted string
  | PaymentStreamStalled string
  | PaymentStreamTerminated string

section \<open>State\<close>

text \<open>
  \<open>now_clock\<close> is the clock injected by \<open>WithClock\<close>, by its current reading; without one the
  service reads \<open>wall\<close>, the time of day at which the operation runs.  An optional field is a
  pointer or interface that may be nil.
\<close>

record 'n service =
  store :: MemoryStore
  naryo :: 'n
  hcs :: "hcs_call list option"
  activity :: "ActivityLog option"
  rate :: int
  ledger :: "MemoryLedger option"
  rateUnitsPerMinute :: int
  debitIntervalSeconds :: int
  minStartMinutes :: int
  summaryWindowMinutes :: int
  now_clock :: "gotime option"
  wall :: gotime

type_synonym 'n service_option = "'n service \<Rightarrow> 'n service"

definition WithPrepaidLedger :: "MemoryLedger option \<Rightarrow> 'n service_option" where
  "WithPrepaidLedger l s = s\<lparr>ledger := l\<rparr>"

definition WithRateUnitsPerMinute :: "int \<Rightarrow> 'n service_option" where
  "WithRateUnitsPerMinute n s = s\<lparr>rateUnitsPerMinute := n\<rparr>"

definition WithDebitIntervalSeconds :: "int \<Rightarrow> 'n service_option" where
  "WithDebitIntervalSeconds n s = s\<lparr>debitIntervalSeconds := n\<rparr>"

definition WithMinStartMinutes :: "int \<Rightarrow> 'n service_option" where
  "WithMinStartMinutes n s = s\<lparr>minStartMinutes := n\<rparr>"

definition WithSummaryWindowMinutes :: "int \<Rightarrow> 'n service_option" where
  "WithSummaryWindowMinutes n s = s\<lparr>summaryWindowMinutes := n\<rparr>"

definition WithClock :: "gotime \<Rightarrow> 'n service_option" where
  "WithClock t s = s\<lparr>now_clock := Some t\<rparr>"

definition clampSummaryWin :: "int \<Rightarrow> int" where
  "clampSummaryWin n = (if n < 5 then 5 else if 15 < n then 15 else n)"

definition NewService ::
  "MemoryStore \<Rightarrow> 'n \<Rightarrow> hcs_call list option \<Rightarrow> int \<Rightarrow> ActivityLog option \<Rightarrow> gotime \<Rightarrow>
   'n service_option list \<Rightarrow> 'n service" where
  "NewService st client log rateCentsPerSecond act t opts =
     (let s0 = \<lparr>store = st, naryo = client, hcs = log, activity = act,
                rate = (if rateCentsPerSecond \<le> 0 then 1 else rateCentsPerSecond), ledger = None,
                rateUnitsPerMinute = 1, debitIntervalSeconds = 300, minStartMinutes = 10,
                summaryWindowMinutes = 10, now_clock = None, wall = t\<rparr>;
          s1 = foldl (\<lambda>s opt. opt s) s0 opts;
          s2 = s1\<lparr>summaryWindowMinutes := clampSummaryWin (summaryWindowMinutes s1)\<rparr>;
          s3 = (if rateUnitsPerMinute s2 \<le> 0 then s2\<lparr>rateUnitsPerMinute := 1\<rparr> else s2);
          s4 = (if debitIntervalSeconds s3 \<le> 0 then s3\<lparr>debitIntervalSeconds := 300\<rparr> else s3)
      in if minStartMinutes s4 \<le> 0 then s4\<lparr>minStartMinutes := 10\<rparr> else s4)"

definition nowTime :: "'n service \<Rightarrow> gotime" where
  "nowTime s = (case now_clock s of Some t \<Rightarrow> t | None \<Rightarrow> wall s)"

definition emit :: "'n service \<Rightarrow> hcs_call \<Rightarrow> 'n service" where
  "emit s call = s\<lparr>hcs := map_option (\<lambda>calls. calls @ [call]) (hcs s)\<rparr>"

definition recordActivity :: "'n service \<Rightarrow> string \<Rightarrow> string \<Rightarrow> obj \<Rightarrow> 'n service" where
  "recordActivity s typ sid data =
     (case activity s of
        None \<Rightarrow> s
      | Some a \<Rightarrow> s\<lparr>activity := Some (Record a (wall s)
          \<lparr>ae_Time = 0, ae_Type = typ, ae_SessionID = sid, ae_Data = data\<rparr>)\<rparr>)"

section \<open>Prepaid checks and top-ups\<close>

definition PrepaidBalance :: "'n service \<Rightarrow> string \<Rightarrow> int" where
  "PrepaidBalance s agentID =
     (case ledger s of
        None \<Rightarrow> 0
      | Some l \<Rightarrow> (if agentID = [] then 0 else GetBalance l agentID))"

definition CheckStatusPrepaid :: "'n service \<Rightarrow> session \<Rightarrow> err option" where
  "CheckStatusPrepaid s sess =
     (case ledger s of
        None \<Rightarrow> None
      | Some l \<Rightarrow>
          if AgentID sess = [] then None
          else if State sess \<noteq> StateRunning \<and> State sess \<noteq> StatePaused then None
          else let bal = GetBalance l (AgentID sess)
               in if bal \<le> 0 then Some (InsufficientPrepaidError bal 1) else None)"

definition CreditTopUp :: "'n service \<Rightarrow> AgentTopUpArgs \<Rightarrow> 'n service \<times> err option" where
  "CreditTopUp s args =
     (case ledger s of
        None \<Rightarrow> (s, Some (ErrOther ''prepaid ledger not configured''))
      | Some l \<Rightarrow>
          if tu_AgentID args = [] \<or> tu_AmountUnits args \<le> 0
          then (s, Some (ErrOther ''invalid top-up''))
          else (case Credit l (tu_AgentID args) (tu_AmountUnits args) (tu_SourceTxID args) (tu_Source args) of
              (l', Some e) \<Rightarrow> (s\<lparr>ledger := Some l'\<rparr>, Some e)
            | (l', None) \<Rightarrow>
                (recordActivity (emit (s\<lparr>ledger := Some l'\<rparr>) (AgentTopUp args)) ''agent_top_up'' []
                   [(''agentId'', AStr (tu_AgentID args)), (''amountUnits'', AInt (tu_AmountUnits args)),
                    (''source'', AStr (tu_Source args))], None)))"

definition prepaidMinUnits :: "'n service \<Rightarrow> int" where
  "prepaidMinUnits s =
     mul64 (if rateUnitsPerMinute s \<le> 0 then 1 else rateUnitsPerMinute s)
           (if minStartMinutes s \<le> 0 then 10 else minStartMinutes s)"

definition checkPrepaid :: "'n service \<Rightarrow> string \<Rightarrow> err option" where
  "checkPrepaid s agentID =
     (case ledger s of
        None \<Rightarrow> None
      | Some l \<Rightarrow>
          if agentID = [] then None
          else let min = prepaidMinUnits s; (ok, bal) = CanAfford l agentID min
               in if ok then None else Some (InsufficientPrepaidError bal min))"

section \<open>Lifecycle operations\<close>

text \<open>The 8 random bytes of a session id are an input; \<open>None\<close> is a failing random source.\<close>

definition newSessionID :: "string option \<Rightarrow> err + string" where
  "newSessionID rnd = (case rnd of None \<Rightarrow> Inl (ErrOther ''rand'') | Some bs \<Rightarrow> Inr (hex bs))"

definition Create :: "'n service \<Rightarrow> string option \<Rightarrow> string \<Rightarrow> 'n service \<times> (err + session)" where
  "Create s rnd agentID =
     (case checkPrepaid s agentID of
        Some e \<Rightarrow> (s, Inl e)
      | None \<Rightarrow>
          (case newSessionID rnd of
             Inl e \<Rightarrow> (s, Inl e)
           | Inr sid \<Rightarrow>
               let sess = \<lparr>ID = sid, AgentID = agentID, State = StateCreated,
                     PaymentStreamActive = False, BilledSeconds = 0, RateCentsPerSecond = rate s,
                     LastNaryoOpID = [], Config = [],
                     RateUnitsPerMinute = (if rateUnitsPerMinute s \<le> 0 then 1 else rateUnitsPerMinute s),
                     ChargedUnits = 0, BillingNumerator = 0, SecondsInDebitWindow = 0,
                     CommittedDebitSeq = 0, FundsChargeRetryPending = False, FundsRetryAtUnix = 0,
                     SummaryPendingUnits = 0, SummaryPendingRuntimeSeconds = 0, LastSummaryEmittedAt = 0,
                     SummaryWindowMinutes = (if summaryWindowMinutes s \<le> 0 then 10 else summaryWindowMinutes s),
                     AutoPausedForFunds = False\<rparr>;
                   s1 = s\<lparr>store := Put (store s) sess\<rparr>;
                   s2 = recordActivity s1 ''pipeline_created'' sid [(''agentId'', AStr agentID)]
               in (emit s2 (PipelineCreated sid agentID), Inr sess)))"

text \<open>\<open>Start\<close> and \<open>Resume\<close> report a rejection for lack of funds before returning it.\<close>

definition rejectStart :: "'n service \<Rightarrow> string \<Rightarrow> string \<Rightarrow> err \<Rightarrow> 'n service" where
  "rejectStart s sid agentID e =
     (if is_insufficient_prepaid e
      then emit s (StartRejectedInsufficientPrepaid sid agentID (prepaidMinUnits s)
             (case ledger s of None \<Rightarrow> 0 | Some l \<Rightarrow> GetBalance l agentID))
      else s)"

text \<open>The callback of \<open>Start\<close>, over the variables it captures: the client, \<open>opID\<close> and \<open>agentID\<close>.\<close>

definition start_session :: "'n naryo_client \<Rightarrow> string \<Rightarrow> ('n \<times> string \<times> string) callback" where
  "start_session nc sid v c =
     (case c of (n, opID, _) \<Rightarrow>
        if State v \<noteq> StateCreated \<and> State v \<noteq> StatePaused
        then Some (v, (n, opID, AgentID v), Inl (ErrInvalidTransition ''start from'' (State v)))
        else (case EnsurePipeline nc n sid (Config v) of
            None \<Rightarrow> None
          | Some (n', Inl e) \<Rightarrow> Some (v, (n', opID, AgentID v), Inl e)
          | Some (n', Inr op) \<Rightarrow>
              Some (v\<lparr>State := StateRunning, PaymentStreamActive := True, LastNaryoOpID := op,
                      BillingNumerator := 0, SecondsInDebitWindow := 0, CommittedDebitSeq := 0,
                      FundsChargeRetryPending := False, FundsRetryAtUnix := 0, AutoPausedForFunds := False\<rparr>,
                    (n', op, AgentID v), Inr True)))"

definition Start :: "'n naryo_client \<Rightarrow> 'n service \<Rightarrow> string \<Rightarrow> ('n service \<times> err option) option" where
  "Start nc s sid =
     (case Get (store s) sid of
        Inl e \<Rightarrow> Some (s, Some e)
      | Inr sess \<Rightarrow>
          (case checkPrepaid s (AgentID sess) of
             Some e \<Rightarrow> Some (rejectStart s sid (AgentID sess) e, Some e)
           | None \<Rightarrow> do {
               (st', (n', opID, agentID), r) \<leftarrow> Update (store s) sid (start_session nc sid) (naryo s, [], []);
               let s' = s\<lparr>store := st', naryo := n'\<rparr>;
               Some (case r of
                   Some e \<Rightarrow> (s', Some e)
                 | None \<Rightarrow> (emit (recordActivity s' ''pipeline_started'' sid
                                [(''naryoOpId'', AStr opID), (''agentId'', AStr agentID)])
                              (PipelineStarted sid agentID opID), None)) }))"

definition stop_session :: "unit callback" where
  "stop_session v c =
     Some (if State v = StateStopped then (v, c, Inr False)
           else (v\<lparr>State := StateStopped, PaymentStreamActive := False\<rparr>, c, Inr True))"

definition Stop :: "'n naryo_client \<Rightarrow> 'n service \<Rightarrow> string \<Rightarrow> ('n service \<times> err option) option" where
  "Stop nc s sid =
     (case Get (store s) sid of
        Inl e \<Rightarrow> Some (s, Some e)
      | Inr sess \<Rightarrow> do {
          (n', e) \<leftarrow> StopPipeline nc (naryo s) sid;
          let s1 = s\<lparr>naryo := n'\<rparr>;
          case e of
            Some e \<Rightarrow> Some (s1, Some e)
          | None \<Rightarrow> do {
              (st', _, r) \<leftarrow> Update (store s1) sid stop_session ();
              let s2 = s1\<lparr>store := st'\<rparr>;
              Some (case r of
                  Some e \<Rightarrow> (s2, Some e)
                | None \<Rightarrow>
                    let s3 = (if PaymentStreamActive sess then emit s2 (PaymentStreamTerminated sid) else s2);
                        s4 = recordActivity s3 ''pipeline_stopped'' sid []
                    in (emit s4 (PipelineStopped sid), None)) } })"

definition pause_session :: "unit callback" where
  "pause_session v c =
     Some (if State v \<noteq> StateRunning
           then (v, c, Inl (ErrInvalidTransition ''pause from'' (State v)))
           else (v\<lparr>State := StatePaused, PaymentStreamActive := False\<rparr>, c, Inr True))"

definition Pause :: "'n naryo_client \<Rightarrow> 'n service \<Rightarrow> string \<Rightarrow> ('n service \<times> err option) option" where
  "Pause nc s sid = do {
     (n', e) \<leftarrow> PauseEgress nc (naryo s) sid;
     let s1 = s\<lparr>naryo := n'\<rparr>;
     case e of
       Some e \<Rightarrow> Some (s1, Some e)
     | None \<Rightarrow> do {
         (st', _, r) \<leftarrow> Update (store s1) sid pause_session ();
         let s2 = s1\<lparr>store := st'\<rparr>;
         Some (case r of
             Some e \<Rightarrow> (s2, Some e)
           | None \<Rightarrow> (emit (recordActivity s2 ''pipeline_paused'' sid []) (PipelinePaused sid [] 0), None)) } }"

definition resume_session :: "unit callback" where
  "resume_session v c =
     Some (if State v \<noteq> StatePaused
           then (v, c, Inl (ErrInvalidTransition ''resume from'' (State v)))
           else (v\<lparr>State := StateRunning, PaymentStreamActive := True, FundsChargeRetryPending := False,
                   FundsRetryAtUnix := 0, AutoPausedForFunds := False\<rparr>, c, Inr True))"

definition Resume :: "'n naryo_client \<Rightarrow> 'n service \<Rightarrow> string \<Rightarrow> ('n service \<times> err option) option" where
  "Resume nc s sid =
     (case Get (store s) sid of
        Inl e \<Rightarrow> Some (s, Some e)
      | Inr sess \<Rightarrow>
          (case checkPrepaid s (AgentID sess) of
             Some e \<Rightarrow> Some (rejectStart s sid (AgentID sess) e, Some e)
           | None \<Rightarrow> do {
               (n', e) \<leftarrow> ResumeEgress nc (naryo s) sid (Config sess);
               let s1 = s\<lparr>naryo := n'\<rparr>;
               case e of
                 Some e \<Rightarrow> Some (s1, Some e)
               | None \<Rightarrow> do {
                   (st', _, r) \<leftarrow> Update (store s1) sid resume_session ();
                   let s2 = s1\<lparr>store := st'\<rparr>;
                   Some (case r of
                       Some e \<Rightarrow> (s2, Some e)
                     | None \<Rightarrow> (emit (recordActivity s2 ''pipeline_resumed'' sid []) (PipelineResumed sid), None)) } }))"

text \<open>The loop over the patch assigns key by key; an empty patch only checks that the session exists.\<close>

definition merge_config :: "obj \<Rightarrow> obj \<Rightarrow> obj" where
  "merge_config cfg patch = foldl (\<lambda>c (k, v). AList.update k v c) cfg patch"

definition reconfigure_session :: "obj \<Rightarrow> unit callback" where
  "reconfigure_session patch v c = Some (v\<lparr>Config := merge_config (Config v) patch\<rparr>, c, Inr True)"

definition Reconfigure :: "'n service \<Rightarrow> string \<Rightarrow> obj \<Rightarrow> ('n service \<times> err option) option" where
  "Reconfigure s sid patch = do {
     (s1, r) \<leftarrow> (if patch = []
                 then Some (s, (case Get (store s) sid of Inl e \<Rightarrow> Some e | Inr _ \<Rightarrow> None))
                 else do { (st', _, r) \<leftarrow> Update (store s) sid (reconfigure_session patch) ();
                           Some (s\<lparr>store := st'\<rparr>, r) });
     Some (case r of
         Some e \<Rightarrow> (s1, Some e)
       | None \<Rightarrow> (emit (recordActivity s1 ''pipeline_reconfigured'' sid
                       [(''phase'', AInt 1), (''naryoTouched'', ABool False)])
                     (PipelineReconfigured sid 1), None)) }"

definition stream_session :: "bool \<Rightarrow> unit callback" where
  "stream_session active v c =
     Some (if State v \<noteq> StateRunning
           then (v, c, Inl (ErrInvalidTransition ''stream toggle in state'' (State v)))
           else if PaymentStreamActive v = active then (v, c, Inr False)
           else (v\<lparr>PaymentStreamActive := active\<rparr>, c, Inr True))"

definition SetPaymentStreamActive :: "'n service \<Rightarrow> string \<Rightarrow> bool \<Rightarrow> ('n service \<times> err option) option" where
  "SetPaymentStreamActive s sid active = do {
     (st', _, r) \<leftarrow> Update (store s) sid (stream_session active) ();
     let s1 = s\<lparr>store := st'\<rparr>;
     Some (case r of
         Some e \<Rightarrow> (s1, Some e)
       | None \<Rightarrow> (emit (recordActivity s1 ''payment_stream'' sid [(''active'', ABool active)])
                     (if active then PaymentStreamStarted sid else PaymentStreamStalled sid), None)) }"

section \<open>Queries and webhook events\<close>

definition Status :: "'n service \<Rightarrow> string \<Rightarrow> err + session" where
  "Status s sid = Get (store s) sid"

definition ServiceSessions :: "'n service \<Rightarrow> string list \<Rightarrow> session list" where
  "ServiceSessions s order = ListSessions (store s) order"

definition ActivityFeed :: "'n service \<Rightarrow> int \<Rightarrow> ActivityEntry list" where
  "ActivityFeed s lim = (case activity s of None \<Rightarrow> [] | Some a \<Rightarrow> Snapshot a lim)"

fun select_session :: "string \<Rightarrow> nat \<Rightarrow> ActivityEntry list \<Rightarrow> ActivityEntry list \<Rightarrow> ActivityEntry list" where
  "select_session sid lim out [] = out"
| "select_session sid lim out (e # es) =
     (if ae_SessionID e = sid
      then let out' = out @ [e]
           in if lim \<le> length out' then out' else select_session sid lim out' es
      else select_session sid lim out es)"

definition ActivityForSession :: "'n service \<Rightarrow> string \<Rightarrow> int \<Rightarrow> ActivityEntry list" where
  "ActivityForSession s sid lim =
     (case activity s of
        None \<Rightarrow> []
      | Some a \<Rightarrow>
          if sid = [] then []
          else select_session sid (nat (if lim \<le> 0 then 50 else lim)) [] (Snapshot a 512))"

definition IngestNaryoEvent ::
  "'n service \<Rightarrow> string \<Rightarrow> string \<Rightarrow> obj \<Rightarrow> 'n service \<times> bool \<times> err option" where
  "IngestNaryoEvent s sid eid payload =
     (case AppendNaryoEvent (store s) (wall s) sid eid payload of
        (st', dup, Some e) \<Rightarrow> (s\<lparr>store := st'\<rparr>, False, Some e)
      | (st', dup, None) \<Rightarrow>
          let s1 = s\<lparr>store := st'\<rparr>
          in (if dup then s1 else recordActivity s1 ''naryo_event'' sid [(''eventId'', AStr eid)], dup, None))"

definition NaryoEventsForSession :: "'n service \<Rightarrow> string \<Rightarrow> int \<Rightarrow> err + NaryoInboundEvent list" where
  "NaryoEventsForSession s sid lim = NaryoEvents (store s) sid lim"

end
