(* ===== verification/Billing.thy ===== *)
theory Billing
  imports Service
begin

text \<open>
  The billing loop of the session service (\<open>runBillingTick\<close>, \<open>RunBillingLoop\<close> in
  \<^verbatim>\<open>internal/pipeline/service.go\<close>) and the ticker that drives it
  (\<^verbatim>\<open>internal/billing/ticker.go\<close>).
\<close>

section \<open>One session in one tick\<close>

text \<open>
  The variables the callback captures: the shared ledger, the notifications it requests for this
  session, and the list of sessions to pause in Naryo, which accumulates over the tick.
\<close>

record tick_env =
  te_ledger :: "MemoryLedger option"
  needPause :: bool
  pauseRemainingBal :: int
  summary :: "BillingSummaryArgs option"
  pauseIDs :: "string list"

definition effective_rate :: "'n service \<Rightarrow> session \<Rightarrow> int" where
  "effective_rate s v =
     (let r = RateUnitsPerMinute v;
          r = (if r \<le> 0 then rateUnitsPerMinute s else r)
      in if r \<le> 0 then 1 else r)"

text \<open>The end of a debit window that is worth less than one unit: nothing is charged.\<close>

definition close_empty_window :: "session \<Rightarrow> session" where
  "close_empty_window v = v\<lparr>BillingNumerator := BillingNumerator v smod 60, SecondsInDebitWindow := 0,
     FundsChargeRetryPending := False, FundsRetryAtUnix := 0\<rparr>"

text \<open>A charge refused for lack of funds: one retry after 60 seconds, then the session is paused.\<close>

definition insufficient_funds :: "string \<Rightarrow> int \<Rightarrow> int \<Rightarrow> session \<Rightarrow> tick_env \<Rightarrow> session \<times> tick_env" where
  "insufficient_funds sid nowUnix rem v env =
     (if FundsChargeRetryPending v
      then (v\<lparr>State := StatePaused, PaymentStreamActive := False, AutoPausedForFunds := True,
              FundsChargeRetryPending := False, FundsRetryAtUnix := 0\<rparr>,
            env\<lparr>needPause := True, pauseRemainingBal := rem, pauseIDs := pauseIDs env @ [sid]\<rparr>)
      else (v\<lparr>FundsChargeRetryPending := True, FundsRetryAtUnix := add64 nowUnix 60\<rparr>, env))"

text \<open>A successful charge closes the window; the remainder below one unit is carried over.\<close>

definition commit_charge :: "int \<Rightarrow> int \<Rightarrow> session \<Rightarrow> session" where
  "commit_charge chargeUnits windowSecs v =
     v\<lparr>FundsChargeRetryPending := False, FundsRetryAtUnix := 0,
       BillingNumerator := BillingNumerator v smod 60, SecondsInDebitWindow := 0,
       CommittedDebitSeq := add64 (CommittedDebitSeq v) 1,
       ChargedUnits := add64 (ChargedUnits v) chargeUnits,
       SummaryPendingUnits := add64 (SummaryPendingUnits v) chargeUnits,
       SummaryPendingRuntimeSeconds := add64 (SummaryPendingRuntimeSeconds v) windowSecs\<rparr>"

definition summary_window :: "'n service \<Rightarrow> session \<Rightarrow> int" where
  "summary_window s v =
     clampSummaryWin (if SummaryWindowMinutes v < 5 then summaryWindowMinutes s else SummaryWindowMinutes v)"

definition summarize :: "'n service \<Rightarrow> gotime \<Rightarrow> session \<Rightarrow> tick_env \<Rightarrow> session \<times> tick_env" where
  "summarize s now v env =
     (let win = summary_window s v;
          v1 = (if IsZero (LastSummaryEmittedAt v) then v\<lparr>LastSummaryEmittedAt := now\<rparr> else v)
      in if win * Minute \<le> Sub now (LastSummaryEmittedAt v1) \<and> 0 < SummaryPendingUnits v1
         then (v1\<lparr>LastSummaryEmittedAt := now, SummaryPendingUnits := 0, SummaryPendingRuntimeSeconds := 0\<rparr>,
               env\<lparr>summary := Some \<lparr>bs_AgentID = AgentID v1,
                 bs_RuntimeSeconds = SummaryPendingRuntimeSeconds v1,
                 bs_AmountChargedUnits = SummaryPendingUnits v1,
                 bs_RemainingBalanceUnits =
                   (case te_ledger env of None \<Rightarrow> 0 | Some l \<Rightarrow> GetBalance l (AgentID v1)),
                 bs_SummaryWindowMinutes = win, bs_ConfigHash = []\<rparr>\<rparr>)
         else (v1, env))"

definition settle_window ::
  "'n service \<Rightarrow> string \<Rightarrow> gotime \<Rightarrow> MemoryLedger \<Rightarrow> session \<Rightarrow> tick_env \<Rightarrow>
   session \<times> tick_env \<times> (err + bool)" where
  "settle_window s sid now l v env =
     (let windowSecs = SecondsInDebitWindow v; chargeUnits = BillingNumerator v sdiv 60
      in if chargeUnits \<le> 0 then (close_empty_window v, env, Inr True)
         else let bucket = add64 (CommittedDebitSeq v) 1;
                  (l', rem, e) = ChargeUsage l (AgentID v) sid chargeUnits bucket;
                  env' = env\<lparr>te_ledger := Some l'\<rparr>
              in case e of
                   Some ErrInsufficientFunds \<Rightarrow>
                     (case insufficient_funds sid (Unix now) rem v env' of (v', env'') \<Rightarrow> (v', env'', Inr True))
                 | Some e \<Rightarrow> (v, env', Inl e)
                 | None \<Rightarrow>
                     (case summarize s now (commit_charge chargeUnits windowSecs v) env' of
                        (v', env'') \<Rightarrow> (v', env'', Inr True)))"

text \<open>Whether the session is waiting for the retry of a refused charge.\<close>

definition awaiting_retry :: "gotime \<Rightarrow> session \<Rightarrow> bool" where
  "awaiting_retry now v \<longleftrightarrow> FundsChargeRetryPending v \<and> Unix now < FundsRetryAtUnix v"

definition count_second :: "session \<Rightarrow> session" where
  "count_second v = v\<lparr>BilledSeconds := add64 (BilledSeconds v) 1\<rparr>"

definition accrue :: "'n service \<Rightarrow> session \<Rightarrow> session" where
  "accrue s v = v\<lparr>BillingNumerator := add64 (BillingNumerator v) (effective_rate s v),
     SecondsInDebitWindow := add64 (SecondsInDebitWindow v) 1\<rparr>"

definition tick_session :: "'n service \<Rightarrow> string \<Rightarrow> gotime \<Rightarrow> int \<Rightarrow> tick_env callback" where
  "tick_session s sid now interval v env =
     Some (if State v \<noteq> StateRunning \<or> \<not> PaymentStreamActive v then (v, env, Inr False)
           else let v1 = count_second v
                in case te_ledger env of
                     None \<Rightarrow> (v1, env, Inr True)
                   | Some l \<Rightarrow>
                       if AgentID v1 = [] then (v1, env, Inr True)
                       else if awaiting_retry now v1 then (v1, env, Inr True)
                       else let v2 = accrue s v1
                            in if SecondsInDebitWindow v2 < interval then (v2, env, Inr True)
                               else settle_window s sid now l v2 env)"

lemma tick_sessionE:
  assumes "tick_session s sid now i v env = Some (v', env', r)"
  obtains (idle) "State v \<noteq> StateRunning \<or> \<not> PaymentStreamActive v" "v' = v" "env' = env" "r = Inr False"
  | (counted) "State v = StateRunning" "PaymentStreamActive v"
      "te_ledger env = None \<or> AgentID v = [] \<or> awaiting_retry now v"
      "v' = count_second v" "env' = env" "r = Inr True"
  | (accrued) l where "State v = StateRunning" "PaymentStreamActive v" "te_ledger env = Some l" "AgentID v \<noteq> []"
      "\<not> awaiting_retry now v" "add64 (SecondsInDebitWindow v) 1 < i"
      "v' = accrue s (count_second v)" "env' = env" "r = Inr True"
  | (settled) l where "State v = StateRunning" "PaymentStreamActive v" "te_ledger env = Some l" "AgentID v \<noteq> []"
      "\<not> awaiting_retry now v" "i \<le> add64 (SecondsInDebitWindow v) 1"
      "settle_window s sid now l (accrue s (count_second v)) env = (v', env', r)"
proof -
  have "awaiting_retry now (count_second v) = awaiting_retry now v"
    by (simp add: awaiting_retry_def count_second_def)
  moreover have "SecondsInDebitWindow (accrue s (count_second v)) = add64 (SecondsInDebitWindow v) 1"
    "AgentID (count_second v) = AgentID v"
    by (simp_all add: accrue_def count_second_def)
  ultimately show ?thesis
    using assms that unfolding tick_session_def Let_def by (auto split: if_splits option.splits)
qed

text \<open>The outcomes of a settled window.\<close>

lemma settle_windowE:
  assumes "settle_window s sid now l v env = (v', env', r)"
  obtains (empty) "BillingNumerator v sdiv 60 \<le> 0" "v' = close_empty_window v" "env' = env" "r = Inr True"
  | (refused) l' rem where "0 < BillingNumerator v sdiv 60"
      "ChargeUsage l (AgentID v) sid (BillingNumerator v sdiv 60) (add64 (CommittedDebitSeq v) 1) =
         (l', rem, Some ErrInsufficientFunds)"
      "(v', env') = insufficient_funds sid (Unix now) rem v (env\<lparr>te_ledger := Some l'\<rparr>)" "r = Inr True"
  | (failed) l' rem e where "0 < BillingNumerator v sdiv 60" "e \<noteq> ErrInsufficientFunds"
      "ChargeUsage l (AgentID v) sid (BillingNumerator v sdiv 60) (add64 (CommittedDebitSeq v) 1) =
         (l', rem, Some e)" "v' = v" "env' = env\<lparr>te_ledger := Some l'\<rparr>" "r = Inl e"
  | (charged) l' rem where "0 < BillingNumerator v sdiv 60"
      "ChargeUsage l (AgentID v) sid (BillingNumerator v sdiv 60) (add64 (CommittedDebitSeq v) 1) =
         (l', rem, None)"
      "(v', env') = summarize s now (commit_charge (BillingNumerator v sdiv 60) (SecondsInDebitWindow v) v)
         (env\<lparr>te_ledger := Some l'\<rparr>)" "r = Inr True"
proof (cases "BillingNumerator v sdiv 60 \<le> 0")
  case True
  with assms that(1) show ?thesis by (simp add: settle_window_def Let_def)
next
  case False
  obtain l' rem e where c: "ChargeUsage l (AgentID v) sid (BillingNumerator v sdiv 60)
      (add64 (CommittedDebitSeq v) 1) = (l', rem, e)" by (metis prod_cases3)
  show ?thesis
  proof (cases e)
    case None
    with assms c False have "(v', env') = summarize s now
        (commit_charge (BillingNumerator v sdiv 60) (SecondsInDebitWindow v) v) (env\<lparr>te_ledger := Some l'\<rparr>)"
      "r = Inr True"
      by (simp_all add: settle_window_def Let_def split: prod.splits)
    then show ?thesis using c False None by (intro that(4)) auto
  next
    case (Some err)
    show ?thesis
    proof (cases "err = ErrInsufficientFunds")
      case True
      with assms c False Some have "(v', env') = insufficient_funds sid (Unix now) rem v (env\<lparr>te_ledger := Some l'\<rparr>)"
        "r = Inr True"
        by (simp_all add: settle_window_def Let_def split: prod.splits)
      then show ?thesis using c False Some True by (intro that(2)) auto
    next
      case other: False
      with assms c False Some have "v' = v \<and> env' = env\<lparr>te_ledger := Some l'\<rparr> \<and> r = Inl err"
        by (cases err) (simp_all add: settle_window_def Let_def)
      then show ?thesis using c False Some other by (intro that(3)) auto
    qed
  qed
qed

section \<open>The tick\<close>

definition debit_interval :: "'n service \<Rightarrow> int" where
  "debit_interval s = (if debitIntervalSeconds s \<le> 0 then 300 else debitIntervalSeconds s)"

definition tick_one :: "gotime \<Rightarrow> 'n service \<Rightarrow> string list \<Rightarrow> string \<Rightarrow> ('n service \<times> string list) option" where
  "tick_one now s pids sid = do {
     (st', env, _) \<leftarrow> Update (store s) sid (tick_session s sid now (debit_interval s))
        \<lparr>te_ledger = ledger s, needPause = False, pauseRemainingBal = 0, summary = None, pauseIDs = pids\<rparr>;
     let s1 = s\<lparr>store := st', ledger := te_ledger env\<rparr>;
     let s2 = (if needPause env then emit s1 (PipelinePaused sid ''insufficient_balance'' (pauseRemainingBal env))
               else s1);
     Some (case summary env of None \<Rightarrow> s2 | Some args \<Rightarrow> emit s2 (BillingSummary sid args), pauseIDs env) }"

fun tick_sessions :: "gotime \<Rightarrow> 'n service \<Rightarrow> string list \<Rightarrow> string list \<Rightarrow> ('n service \<times> string list) option" where
  "tick_sessions now s pids [] = Some (s, pids)"
| "tick_sessions now s pids (sid # sids) = do {
     (s', pids') \<leftarrow> tick_one now s pids sid;
     tick_sessions now s' pids' sids }"

fun pause_sessions :: "'n naryo_client \<Rightarrow> 'n service \<Rightarrow> string list \<Rightarrow> 'n service option" where
  "pause_sessions nc s [] = Some s"
| "pause_sessions nc s (sid # sids) = do {
     (n', e) \<leftarrow> PauseEgress nc (naryo s) sid;
     let s1 = s\<lparr>naryo := n'\<rparr>;
     pause_sessions nc
       (if e = None then recordActivity s1 ''pipeline_paused'' sid [(''reason'', AStr ''insufficient_balance'')] else s1)
       sids }"

text \<open>\<open>order\<close> is the order in which the runtime lists the session ids (\<open>iteration\<close>).\<close>

definition runBillingTick :: "'n naryo_client \<Rightarrow> string list \<Rightarrow> 'n service \<Rightarrow> 'n service option" where
  "runBillingTick nc order s = do {
     (s', pids) \<leftarrow> tick_sessions (nowTime s) s [] order;
     pause_sessions nc s' pids }"

text \<open>\<open>BillingTick\<close> is the exported name of the same pass.\<close>

definition BillingTick :: "'n naryo_client \<Rightarrow> string list \<Rightarrow> 'n service \<Rightarrow> 'n service option" where
  "BillingTick nc order s = runBillingTick nc order s"

section \<open>The ticker loops\<close>

text \<open>
  What the \<open>select\<close> of the loops receives, in the order it receives it: the end of the context or a
  tick.  The result is the state and whether the loop has returned; it runs on when the sequence
  ends without the end of the context.
\<close>

datatype 'a loop_event = CtxDone | Tick 'a

fun RunEach :: "('a \<Rightarrow> 's \<Rightarrow> 's option) \<Rightarrow> 'a loop_event list \<Rightarrow> 's \<Rightarrow> ('s \<times> bool) option" where
  "RunEach fn [] s = Some (s, False)"
| "RunEach fn (CtxDone # es) s = Some (s, True)"
| "RunEach fn (Tick x # es) s = do { s' \<leftarrow> fn x s; RunEach fn es s' }"

text \<open>Each tick carries the time at which it fires and the iteration order of the store.\<close>

definition at_time :: "gotime \<Rightarrow> 'n service \<Rightarrow> 'n service" where
  "at_time t s = s\<lparr>wall := t\<rparr>"

definition RunBillingLoop ::
  "'n naryo_client \<Rightarrow> (gotime \<times> string list) loop_event list \<Rightarrow> 'n service \<Rightarrow> ('n service \<times> bool) option" where
  "RunBillingLoop nc = RunEach (\<lambda>(t, order) s. runBillingTick nc order (at_time t s))"

end
