(* ===== verification/Lifecycle.thy ===== *)
theory Lifecycle
  imports Billing
begin

text \<open>
  The session state machine.  What each operation of the service does to a session, the invariants
  every operation and every billing tick keeps, and their consequences for all reachable states.
\<close>

section \<open>The state machine\<close>

inductive transition :: "lifecycle_state \<Rightarrow> lifecycle_state \<Rightarrow> bool" where
  start_created: "transition StateCreated StateRunning"
| start_paused: "transition StatePaused StateRunning"
| pause_running: "transition StateRunning StatePaused"
| stop_any: "s \<noteq> StateStopped \<Longrightarrow> transition s StateStopped"

inductive_simps transition_from [simp]:
  "transition StateCreated t" "transition StateRunning t" "transition StatePaused t"
inductive_cases from_stopped [elim!]: "transition StateStopped t"

text \<open>The payment stream is only on while the session runs; an automatic pause leaves it paused.\<close>

definition session_ok :: "session \<Rightarrow> bool" where
  "session_ok v \<longleftrightarrow>
     (PaymentStreamActive v \<longrightarrow> State v = StateRunning) \<and>
     (AutoPausedForFunds v \<longrightarrow> State v = StatePaused \<or> State v = StateStopped) \<and>
     (FundsChargeRetryPending v \<longrightarrow> State v \<noteq> StateCreated) \<and>
     (State v = StateCreated \<longrightarrow> BilledSeconds v = 0 \<and> ChargedUnits v = 0 \<and> CommittedDebitSeq v = 0)"

text \<open>
  What one operation may do to one session: time and charges are only counted while the session
  runs with an active payment stream.
\<close>

definition change_ok :: "session \<Rightarrow> session \<Rightarrow> bool" where
  "change_ok v v' \<longleftrightarrow>
     (State v' = State v \<or> transition (State v) (State v')) \<and>
     ID v' = ID v \<and> AgentID v' = AgentID v \<and> RateUnitsPerMinute v' = RateUnitsPerMinute v \<and>
     SummaryWindowMinutes v' = SummaryWindowMinutes v \<and>
     (State v = StateRunning \<and> PaymentStreamActive v \<or>
      BilledSeconds v' = BilledSeconds v \<and> ChargedUnits v' = ChargedUnits v) \<and>
     (session_ok v \<longrightarrow> session_ok v')"

lemma change_refl [simp]: "change_ok v v"
  by (simp add: change_ok_def)

named_theorems change_intros \<open>the effect of each callback on its session\<close>

lemma change_start [change_intros]:
  "start_session nc sid v c = Some (v', c', r) \<Longrightarrow> change_ok v v'"
  by (auto simp: start_session_def change_ok_def session_ok_def split: prod.splits if_splits option.splits sum.splits)

lemma change_stop [change_intros]: "stop_session v c = Some (v', c', r) \<Longrightarrow> change_ok v v'"
  by (auto simp: stop_session_def change_ok_def session_ok_def stop_any split: if_splits)

lemma change_pause [change_intros]: "pause_session v c = Some (v', c', r) \<Longrightarrow> change_ok v v'"
  by (auto simp: pause_session_def change_ok_def session_ok_def pause_running split: if_splits)

lemma change_resume [change_intros]: "resume_session v c = Some (v', c', r) \<Longrightarrow> change_ok v v'"
  by (auto simp: resume_session_def change_ok_def session_ok_def start_paused split: if_splits)

lemma change_reconfigure [change_intros]:
  "reconfigure_session patch v c = Some (v', c', r) \<Longrightarrow> change_ok v v'"
  by (auto simp: reconfigure_session_def change_ok_def session_ok_def)

lemma change_stream [change_intros]: "stream_session b v c = Some (v', c', r) \<Longrightarrow> change_ok v v'"
  by (auto simp: stream_session_def change_ok_def session_ok_def split: if_splits)

text \<open>A tick changes nothing of a session but its counters, unless it pauses it.\<close>

lemma change_settle:
  assumes "settle_window s sid now l v env = (v', env', r)" "State v = StateRunning"
  shows "(State v' = StateRunning \<and> PaymentStreamActive v' = PaymentStreamActive v \<and>
      AutoPausedForFunds v' = AutoPausedForFunds v \<or> State v' = StatePaused \<and> \<not> PaymentStreamActive v') \<and>
    ID v' = ID v \<and> AgentID v' = AgentID v \<and> RateUnitsPerMinute v' = RateUnitsPerMinute v \<and>
    SummaryWindowMinutes v' = SummaryWindowMinutes v"
  using assms
  by (elim settle_windowE)
     (auto simp: close_empty_window_def insufficient_funds_def summarize_def commit_charge_def Let_def
       split: if_splits)

lemma change_tick [change_intros]:
  "tick_session s sid now i v env = Some (v', env', r) \<Longrightarrow> change_ok v v'"
proof (erule tick_sessionE)
  fix l
  assume "State v = StateRunning" "PaymentStreamActive v"
    "settle_window s sid now l (accrue s (count_second v)) env = (v', env', r)"
  then show "change_ok v v'"
    using change_settle [of s sid now l "accrue s (count_second v)" env v' env' r]
    by (auto simp: change_ok_def session_ok_def accrue_def count_second_def)
qed (auto simp: change_ok_def session_ok_def accrue_def count_second_def)

section \<open>The store under each operation\<close>

text \<open>Every session stays, and changes as one operation may change it.\<close>

definition table_change :: "MemoryStore \<Rightarrow> MemoryStore \<Rightarrow> bool" where
  "table_change s s' \<longleftrightarrow>
     (\<forall>sid v. sessions s sid = Some v \<longrightarrow> (\<exists>v'. sessions s' sid = Some v' \<and> change_ok v v'))"

lemma table_refl [simp]: "table_change s s"
  by (simp add: table_change_def)

lemma Update_change:
  assumes "Update s sid fn c = Some (s', c', r)"
    and "\<And>v v' c' res. fn v c = Some (v', c', res) \<Longrightarrow> change_ok v v'"
  shows "table_change s s'"
  using st.update_lookup [OF assms(1)] assms(2) by (auto simp: table_change_def split: if_splits)

lemma store_emit [simp]: "store (emit s call) = store s"
  by (simp add: emit_def)

lemma store_recordActivity [simp]: "store (recordActivity s typ sid data) = store s"
  by (simp add: recordActivity_def split: option.split)

lemma store_rejectStart [simp]: "store (rejectStart s sid a e) = store s"
  by (simp add: rejectStart_def)

lemma store_CreditTopUp [simp]: "store (fst (CreditTopUp s args)) = store s"
  by (auto simp: CreditTopUp_def split: option.split prod.split)

text \<open>The store after an operation is the one before, or the result of one callback.\<close>

definition updated :: "MemoryStore \<Rightarrow> string \<Rightarrow> 'c callback \<Rightarrow> MemoryStore \<Rightarrow> bool" where
  "updated s sid fn s' \<longleftrightarrow> s' = s \<or> (\<exists>c c' r. Update s sid fn c = Some (s', c', r))"

lemma updated_change:
  "updated s sid fn s' \<Longrightarrow> (\<And>v v' c c' res. fn v c = Some (v', c', res) \<Longrightarrow> change_ok v v') \<Longrightarrow>
     table_change s s'"
  by (auto simp: updated_def intro: Update_change)

lemma updated_Start: "Start nc s sid = Some (s', r) \<Longrightarrow> updated (store s) sid (start_session nc sid) (store s')"
  by (auto simp: Start_def updated_def bind_eq_Some_conv Let_def split: sum.splits option.splits prod.splits)

lemma updated_Stop: "Stop nc s sid = Some (s', r) \<Longrightarrow> updated (store s) sid stop_session (store s')"
  by (auto simp: Stop_def updated_def bind_eq_Some_conv Let_def split: sum.splits option.splits prod.splits)

lemma updated_Pause: "Pause nc s sid = Some (s', r) \<Longrightarrow> updated (store s) sid pause_session (store s')"
  by (auto simp: Pause_def updated_def bind_eq_Some_conv Let_def split: option.splits prod.splits)

lemma updated_Resume: "Resume nc s sid = Some (s', r) \<Longrightarrow> updated (store s) sid resume_session (store s')"
  by (auto simp: Resume_def updated_def bind_eq_Some_conv Let_def split: sum.splits option.splits prod.splits)

lemma updated_Reconfigure:
  "Reconfigure s sid patch = Some (s', r) \<Longrightarrow> updated (store s) sid (reconfigure_session patch) (store s')"
  by (auto simp: Reconfigure_def updated_def bind_eq_Some_conv Let_def
      split: sum.splits option.splits prod.splits if_splits)

lemma updated_Stream:
  "SetPaymentStreamActive s sid b = Some (s', r) \<Longrightarrow> updated (store s) sid (stream_session b) (store s')"
  by (auto simp: SetPaymentStreamActive_def updated_def bind_eq_Some_conv Let_def split: option.splits prod.splits)

section \<open>The store under a billing tick\<close>

lemma updated_tick_one:
  "tick_one now s pids sid = Some (s', pids') \<Longrightarrow>
     updated (store s) sid (tick_session s sid now (debit_interval s)) (store s')"
  by (auto simp: tick_one_def updated_def bind_eq_Some_conv Let_def split: if_splits option.splits)

lemma updated_other: "updated s sid fn s' \<Longrightarrow> x \<noteq> sid \<Longrightarrow> sessions s' x = sessions s x"
  by (auto simp: updated_def dest: st.update_other)

lemma tick_sessions_table:
  assumes "tick_sessions now s pids sids = Some (s', pids')" "distinct sids"
  shows "table_change (store s) (store s') \<and>
    (\<forall>x. x \<notin> set sids \<longrightarrow> sessions (store s') x = sessions (store s) x)"
  using assms
proof (induction sids arbitrary: s pids)
  case (Cons sid sids)
  then obtain s1 p1 where one: "tick_one now s pids sid = Some (s1, p1)"
    and rest: "tick_sessions now s1 p1 sids = Some (s', pids')"
    by (auto simp: bind_eq_Some_conv)
  note upd = updated_tick_one [OF one]
  have "table_change (store s) (store s1)"
    using upd by (rule updated_change) (rule change_intros)
  moreover have "table_change (store s1) (store s')"
    and keep: "\<forall>x. x \<notin> set sids \<longrightarrow> sessions (store s') x = sessions (store s1) x"
    using Cons.IH [OF rest] Cons.prems(2) by auto
  moreover have "sessions (store s1) x = sessions (store s) x" if "x \<noteq> sid" for x
    using updated_other [OF upd that] .
  ultimately show ?case
    using Cons.prems(2) by (auto simp: table_change_def) (metis option.inject)
qed simp

lemma store_pause_sessions: "pause_sessions nc s sids = Some s' \<Longrightarrow> store s' = store s"
  by (induction sids arbitrary: s) (fastforce simp: bind_eq_Some_conv Let_def split: if_splits)+

lemma table_tick:
  "runBillingTick nc order s = Some s' \<Longrightarrow> distinct order \<Longrightarrow> table_change (store s) (store s')"
  by (auto simp: runBillingTick_def bind_eq_Some_conv dest!: store_pause_sessions tick_sessions_table)

section \<open>Runs of the service\<close>

text \<open>
  One step of the service: an operation, a webhook event, a billing tick over the store in any
  order, or the passing of time.  A new session id is one that is not in use (it is drawn from 64
  random bits).
\<close>

inductive svc_step :: "'n naryo_client \<Rightarrow> 'n service \<Rightarrow> 'n service \<Rightarrow> bool" for nc where
  create: "newSessionID rnd = Inr sid \<Longrightarrow> sessions (store s) sid = None \<Longrightarrow>
    svc_step nc s (fst (Create s rnd agent))"
| start: "Start nc s sid = Some (s', r) \<Longrightarrow> svc_step nc s s'"
| stop: "Stop nc s sid = Some (s', r) \<Longrightarrow> svc_step nc s s'"
| pause: "Pause nc s sid = Some (s', r) \<Longrightarrow> svc_step nc s s'"
| resume: "Resume nc s sid = Some (s', r) \<Longrightarrow> svc_step nc s s'"
| reconfigure: "Reconfigure s sid patch = Some (s', r) \<Longrightarrow> svc_step nc s s'"
| stream: "SetPaymentStreamActive s sid b = Some (s', r) \<Longrightarrow> svc_step nc s s'"
| topup: "svc_step nc s (fst (CreditTopUp s args))"
| event: "svc_step nc s (fst (IngestNaryoEvent s sid eid payload))"
| tick: "iteration (store s) order \<Longrightarrow> runBillingTick nc order s = Some s' \<Longrightarrow> svc_step nc s s'"
| clock: "wall s \<le> t \<Longrightarrow> svc_step nc s (at_time t s)"

lemma store_IngestNaryoEvent [simp]:
  "sessions (store (fst (IngestNaryoEvent s sid eid payload))) = sessions (store s)"
proof -
  obtain st' dup r where a: "AppendNaryoEvent (store s) (wall s) sid eid payload = (st', dup, r)"
    by (metis prod_cases3)
  then have "sessions st' = sessions (store s)"
    by (metis fst_conv sessions_AppendNaryoEvent)
  with a show ?thesis by (simp add: IngestNaryoEvent_def Let_def split: option.split)
qed

lemma sessions_Create:
  "Create s rnd agent = (s', r) \<Longrightarrow>
     (case r of Inl e \<Rightarrow> s' = s
      | Inr v \<Rightarrow> newSessionID rnd = Inr (ID v) \<and> sessions (store s') = (sessions (store s))(ID v \<mapsto> v) \<and>
          session_ok v \<and> State v = StateCreated)"
  by (auto simp: Create_def Put_def Let_def session_ok_def split: option.splits sum.splits)

lemma svc_step_table: "svc_step nc s s' \<Longrightarrow> table_change (store s) (store s')"
proof (induction rule: svc_step.induct)
  case (create rnd sid s agent)
  obtain s' r where c: "Create s rnd agent = (s', r)" by (cases "Create s rnd agent")
  with sessions_Create [OF c] create show ?case
    by (cases r) (auto simp: table_change_def)
next
  case (tick s order s')
  then show ?case by (auto simp: iteration_def intro: table_tick)
qed (auto simp: table_change_def at_time_def
      dest!: updated_Start updated_Stop updated_Pause updated_Resume updated_Reconfigure updated_Stream
             updated_change [unfolded table_change_def] intro: change_intros)

section \<open>Invariants of every reachable state\<close>

definition table_ok :: "MemoryStore \<Rightarrow> bool" where
  "table_ok s \<longleftrightarrow> (\<forall>sid v. sessions s sid = Some v \<longrightarrow> session_ok v \<and> ID v = sid)"

lemma table_change_ok:
  assumes "table_change s s'" "table_ok s"
    and new: "\<And>sid v'. sessions s sid = None \<Longrightarrow> sessions s' sid = Some v' \<Longrightarrow> session_ok v' \<and> ID v' = sid"
  shows "table_ok s'"
  unfolding table_ok_def
proof (intro allI impI)
  fix sid v'
  assume v': "sessions s' sid = Some v'"
  show "session_ok v' \<and> ID v' = sid"
  proof (cases "sessions s sid")
    case None
    with v' new show ?thesis by blast
  next
    case (Some v)
    with assms(1) v' have "change_ok v v'" by (fastforce simp: table_change_def)
    with Some assms(2) show ?thesis by (auto simp: change_ok_def table_ok_def)
  qed
qed

lemma updated_dom: "updated s sid fn s' \<Longrightarrow> dom (sessions s') = dom (sessions s)"
  unfolding updated_def by (elim disjE exE) (simp, erule st.update_dom)

lemma tick_sessions_dom:
  "tick_sessions now s pids sids = Some (s', pids') \<Longrightarrow> dom (sessions (store s')) = dom (sessions (store s))"
proof (induction sids arbitrary: s pids)
  case (Cons sid sids)
  then obtain s1 p1 where "tick_one now s pids sid = Some (s1, p1)" "tick_sessions now s1 p1 sids = Some (s', pids')"
    by (auto simp: bind_eq_Some_conv)
  then show ?case using Cons.IH updated_dom [OF updated_tick_one] by metis
qed simp

lemma tick_dom: "runBillingTick nc order s = Some s' \<Longrightarrow> dom (sessions (store s')) = dom (sessions (store s))"
  by (clarsimp simp: runBillingTick_def bind_eq_Some_conv simp del: split_paired_Ex)
     (metis store_pause_sessions tick_sessions_dom)

lemma svc_step_new:
  assumes "svc_step nc s s'" "sessions (store s) sid = None" "sessions (store s') sid = Some v"
  shows "session_ok v \<and> ID v = sid \<and> State v = StateCreated"
  using assms
proof (induction rule: svc_step.induct)
  case (create rnd sid' s agent)
  obtain s' r where c: "Create s rnd agent = (s', r)" by (cases "Create s rnd agent")
  with sessions_Create [OF c] create show ?case by (cases r) (auto split: if_splits)
qed (auto simp: at_time_def dest!: updated_Start updated_Stop updated_Pause updated_Resume updated_Reconfigure
      updated_Stream tick_dom updated_dom simp: dom_def set_eq_iff)

lemma svc_step_ok: "svc_step nc s s' \<Longrightarrow> table_ok (store s) \<Longrightarrow> table_ok (store s')"
  by (rule table_change_ok [OF svc_step_table]) (auto dest: svc_step_new)

lemma run_ok: "(svc_step nc)\<^sup>*\<^sup>* s s' \<Longrightarrow> table_ok (store s) \<Longrightarrow> table_ok (store s')"
  by (induction rule: rtranclp_induct) (auto intro: svc_step_ok)

lemma stopped_change:
  "change_ok v v' \<Longrightarrow> State v = StateStopped \<Longrightarrow>
     State v' = StateStopped \<and> BilledSeconds v' = BilledSeconds v \<and> ChargedUnits v' = ChargedUnits v"
  by (auto simp: change_ok_def)

lemma run_stopped:
  assumes "(svc_step nc)\<^sup>*\<^sup>* s s'" "sessions (store s) sid = Some v" "State v = StateStopped"
  shows "\<exists>v'. sessions (store s') sid = Some v' \<and> State v' = StateStopped \<and>
    BilledSeconds v' = BilledSeconds v \<and> ChargedUnits v' = ChargedUnits v"
  using assms(1)
proof (induction rule: rtranclp_induct)
  case base
  with assms(2,3) show ?case by auto
next
  case (step s1 s2)
  then obtain v1 where v1: "sessions (store s1) sid = Some v1" "State v1 = StateStopped"
    "BilledSeconds v1 = BilledSeconds v" "ChargedUnits v1 = ChargedUnits v" by blast
  with svc_step_table [OF step(2)] obtain v2 where "sessions (store s2) sid = Some v2" "change_ok v1 v2"
    by (auto simp: table_change_def)
  with stopped_change [OF this(2)] v1 show ?case by auto
qed

lemma table_ok_New: "table_ok NewMemoryStore"
  by (simp add: table_ok_def NewMemoryStore_def)

section \<open>Operations return\<close>

lemma returns_Update: "(\<And>v c. returns (fn v c)) \<Longrightarrow> returns (Update st sid fn c)"
  by (cases "sessions st sid") (auto simp: Update_def Let_def intro!: returns_case)

context returning_client
begin

lemmas call_returns = ensure_returns pause_returns resume_returns stop_returns

lemma Start_returns: "returns (Start nc s sid)"
proof -
  have "returns (start_session nc sid v c)" for v c
    by (auto simp: start_session_def call_returns intro!: returns_case split: prod.split sum.split)
  then show ?thesis
    by (auto simp: Start_def Let_def intro!: returns_bind returns_Update split: sum.split option.split)
qed

lemma Stop_returns: "returns (Stop nc s sid)"
  by (auto simp: Stop_def stop_session_def call_returns Let_def
      intro!: returns_bind returns_Update split: sum.split option.split)

lemma Pause_returns: "returns (Pause nc s sid)"
  by (auto simp: Pause_def pause_session_def call_returns Let_def
      intro!: returns_bind returns_Update split: option.split)

lemma Resume_returns: "returns (Resume nc s sid)"
  by (auto simp: Resume_def resume_session_def call_returns Let_def
      intro!: returns_bind returns_Update split: sum.split option.split)

lemma pause_sessions_returns: "returns (pause_sessions nc s sids)"
  by (induction sids arbitrary: s)
     (auto simp: call_returns Let_def intro!: returns_bind)

lemma tick_sessions_returns: "returns (tick_sessions now s pids sids)"
  by (induction sids arbitrary: s pids)
     (auto simp: tick_one_def tick_session_def Let_def
       intro!: returns_bind returns_Update split: option.split)

lemma tick_returns: "returns (runBillingTick nc order s)"
  by (auto simp: runBillingTick_def
      intro!: returns_bind tick_sessions_returns pause_sessions_returns)

end

section \<open>Rejected operations\<close>

lemma Update_failed:
  assumes "Update s sid fn c = Some (s', c', Some e)"
    and "\<And>v v' c' e. fn v c = Some (v', c', Inl e) \<Longrightarrow> v' = v"
  shows "sessions s' = sessions s"
  using assms(1)
proof (cases rule: UpdateE)
  case (found v v' res)
  with assms(2) show ?thesis by (cases res) (auto simp: fun_upd_idem_iff)
qed simp

definition failed :: "MemoryStore \<Rightarrow> string \<Rightarrow> 'c callback \<Rightarrow> MemoryStore \<Rightarrow> bool" where
  "failed s sid fn s' \<longleftrightarrow> s' = s \<or> (\<exists>c c' e. Update s sid fn c = Some (s', c', Some e))"

lemma failed_keeps:
  assumes "failed s sid fn s'" "\<And>v v' c c' e. fn v c = Some (v', c', Inl e) \<Longrightarrow> v' = v"
  shows "sessions s' = sessions s"
  using assms Update_failed unfolding failed_def by metis

named_theorems reject_intros \<open>a callback that returns an error has not touched its session\<close>

lemma reject_start [reject_intros]: "start_session nc sid v c = Some (v', c', Inl e) \<Longrightarrow> v' = v"
  by (auto simp: start_session_def split: prod.splits if_splits option.splits sum.splits)

lemma reject_stop [reject_intros]: "stop_session v c = Some (v', c', Inl e) \<Longrightarrow> v' = v"
  by (auto simp: stop_session_def split: if_splits)

lemma reject_pause [reject_intros]: "pause_session v c = Some (v', c', Inl e) \<Longrightarrow> v' = v"
  by (auto simp: pause_session_def split: if_splits)

lemma reject_resume [reject_intros]: "resume_session v c = Some (v', c', Inl e) \<Longrightarrow> v' = v"
  by (auto simp: resume_session_def split: if_splits)

lemma reject_reconfigure [reject_intros]: "reconfigure_session patch v c = Some (v', c', Inl e) \<Longrightarrow> v' = v"
  by (auto simp: reconfigure_session_def)

lemma reject_stream [reject_intros]: "stream_session b v c = Some (v', c', Inl e) \<Longrightarrow> v' = v"
  by (auto simp: stream_session_def split: if_splits)

lemma failed_Start: "Start nc s sid = Some (s', Some e) \<Longrightarrow> failed (store s) sid (start_session nc sid) (store s')"
  by (auto simp: Start_def failed_def bind_eq_Some_conv Let_def
      split: sum.splits option.splits prod.splits if_splits)

lemma failed_Stop: "Stop nc s sid = Some (s', Some e) \<Longrightarrow> failed (store s) sid stop_session (store s')"
  by (auto simp: Stop_def failed_def bind_eq_Some_conv Let_def
      split: sum.splits option.splits prod.splits if_splits)

lemma failed_Pause: "Pause nc s sid = Some (s', Some e) \<Longrightarrow> failed (store s) sid pause_session (store s')"
  by (auto simp: Pause_def failed_def bind_eq_Some_conv Let_def
      split: sum.splits option.splits prod.splits if_splits)

lemma failed_Resume: "Resume nc s sid = Some (s', Some e) \<Longrightarrow> failed (store s) sid resume_session (store s')"
  by (auto simp: Resume_def failed_def bind_eq_Some_conv Let_def
      split: sum.splits option.splits prod.splits if_splits)

lemma failed_Reconfigure: "Reconfigure s sid patch = Some (s', Some e) \<Longrightarrow> failed (store s) sid (reconfigure_session patch) (store s')"
  by (auto simp: Reconfigure_def failed_def bind_eq_Some_conv Let_def
      split: sum.splits option.splits prod.splits if_splits)

lemma failed_Stream: "SetPaymentStreamActive s sid b = Some (s', Some e) \<Longrightarrow> failed (store s) sid (stream_session b) (store s')"
  by (auto simp: SetPaymentStreamActive_def failed_def bind_eq_Some_conv Let_def
      split: sum.splits option.splits prod.splits if_splits)

section \<open>The contract of Start\<close>

lemma checkPrepaid_None:
  "checkPrepaid s a = None \<longleftrightarrow>
     (case ledger s of None \<Rightarrow> True | Some l \<Rightarrow> a = [] \<or> prepaidMinUnits s \<le> GetBalance l a)"
  by (auto simp: checkPrepaid_def ml.afford_eq CanAfford_def Let_def split: option.splits)

text \<open>
  When \<open>Start\<close> is accepted: the session is created or paused, its agent's balance covers the
  minimum, and the Naryo client provisions the pipeline.
\<close>

definition startable :: "'n naryo_client \<Rightarrow> 'n service \<Rightarrow> string \<Rightarrow> session \<Rightarrow> 'n \<Rightarrow> string \<Rightarrow> bool" where
  "startable nc s sid v n' op \<longleftrightarrow>
     sessions (store s) sid = Some v \<and> (State v = StateCreated \<or> State v = StatePaused) \<and>
     (case ledger s of None \<Rightarrow> True
      | Some l \<Rightarrow> AgentID v = [] \<or> prepaidMinUnits s \<le> GetBalance l (AgentID v)) \<and>
     EnsurePipeline nc (naryo s) sid (Config v) = Some (n', Inr op)"

lemma naryo_emit [simp]: "naryo (emit s call) = naryo s" "ledger (emit s call) = ledger s"
  by (simp_all add: emit_def)

lemma naryo_recordActivity [simp]:
  "naryo (recordActivity s typ sid data) = naryo s" "ledger (recordActivity s typ sid data) = ledger s"
  by (simp_all add: recordActivity_def split: option.split)

lemma Start_startable:
  assumes "startable nc s sid v n' op"
  shows "\<exists>s'. Start nc s sid = Some (s', None) \<and> naryo s' = n' \<and> ledger s' = ledger s \<and>
    sessions (store s') = (sessions (store s))(sid \<mapsto>
      v\<lparr>State := StateRunning, PaymentStreamActive := True, LastNaryoOpID := op, BillingNumerator := 0,
        SecondsInDebitWindow := 0, CommittedDebitSeq := 0, FundsChargeRetryPending := False,
        FundsRetryAtUnix := 0, AutoPausedForFunds := False\<rparr>)"
proof -
  from assms have "checkPrepaid s (AgentID v) = None" by (simp add: startable_def checkPrepaid_None)
  moreover from assms have "start_session nc sid v (naryo s, [], []) =
     Some (v\<lparr>State := StateRunning, PaymentStreamActive := True, LastNaryoOpID := op, BillingNumerator := 0,
        SecondsInDebitWindow := 0, CommittedDebitSeq := 0, FundsChargeRetryPending := False,
        FundsRetryAtUnix := 0, AutoPausedForFunds := False\<rparr>, (n', op, AgentID v), Inr True)"
    by (auto simp: startable_def start_session_def)
  ultimately show ?thesis
    using assms by (simp add: startable_def Start_def Get_def Update_found)
qed

lemma Start_success:
  assumes "Start nc s sid = Some (s', None)"
  shows "\<exists>v n' op. startable nc s sid v n' op"
proof -
  from assms obtain v where v: "sessions (store s) sid = Some v" "checkPrepaid s (AgentID v) = None"
    by (auto simp: Start_def Get_def split: option.splits)
  from assms v obtain st' n' op a where
    "Update (store s) sid (start_session nc sid) (naryo s, [], []) = Some (st', (n', op, a), None)"
    by (auto simp: Start_def Get_def bind_eq_Some_conv Let_def split: option.splits)
  then show ?thesis
  proof (cases rule: UpdateE)
    case (found v0 v' res)
    with v show ?thesis
      by (fastforce simp: startable_def checkPrepaid_None start_session_def split: if_splits option.splits sum.splits)
  qed (simp add: v)
qed

section \<open>Stopped and reconfigured sessions\<close>

lemma naryo_rejectStart [simp]: "naryo (rejectStart s sid a e) = naryo s"
  by (simp add: rejectStart_def)

lemma Start_stopped:
  assumes "Start nc s sid = Some (s', r)" "sessions (store s) sid = Some v" "State v = StateStopped"
  shows "r \<noteq> None \<and> naryo s' = naryo s"
  using assms by (cases "checkPrepaid s (AgentID v)"; cases r) (auto simp: Start_def Get_def Update_def start_session_def Let_def)

lemma Resume_stopped:
  assumes "Resume nc s sid = Some (s', r)" "sessions (store s) sid = Some v" "State v = StateStopped"
  shows "r \<noteq> None"
  using assms
  by (cases "checkPrepaid s (AgentID v)"; cases r)
     (auto simp: Resume_def Get_def Update_def resume_session_def Let_def bind_eq_Some_conv split: option.splits)






section \<open>A concrete run\<close>

text \<open>An agent with 100 prepaid units creates, starts and stops one session.\<close>

definition demo_service :: "RecordingClient service" where
  "demo_service = NewService NewMemoryStore NewRecordingClient (Some []) 0 None 0
     [WithPrepaidLedger (Some (TestingSetBalance NewMemoryLedger ''a1'' 100))]"

definition demo_sid :: string where
  "demo_sid = ''3132333435363738''"

definition demo_created :: "RecordingClient service" where
  "demo_created = fst (Create demo_service (Some ''12345678'') ''a1'')"

definition demo_started :: "RecordingClient service" where
  "demo_started = fst (the (Start recording_client demo_created demo_sid))"

definition demo_stopped :: "RecordingClient service" where
  "demo_stopped = fst (the (Stop recording_client demo_started demo_sid))"

definition session_at :: "'n service \<Rightarrow> session" where
  "session_at s = the (sessions (store s) demo_sid)"

lemma demo_step_create: "svc_step recording_client demo_service demo_created"
proof -
  have "newSessionID (Some ''12345678'') = Inr demo_sid" "sessions (store demo_service) demo_sid = None"
    by code_simp+
  then show ?thesis unfolding demo_created_def by (rule svc_step.create)
qed

lemma demo_step_start: "svc_step recording_client demo_created demo_started"
proof -
  obtain s' r where "Start recording_client demo_created demo_sid = Some (s', r)"
    using rec_client.Start_returns by (metis returnsE surj_pair)
  then show ?thesis by (auto simp: demo_started_def intro: svc_step.start)
qed

lemma demo_step_stop: "svc_step recording_client demo_started demo_stopped"
proof -
  obtain s' r where "Stop recording_client demo_started demo_sid = Some (s', r)"
    using rec_client.Stop_returns by (metis returnsE surj_pair)
  then show ?thesis by (auto simp: demo_stopped_def intro: svc_step.stop)
qed

lemma demo_sessions:
  "sessions (store demo_created) demo_sid \<noteq> None \<and> sessions (store demo_started) demo_sid \<noteq> None \<and>
   sessions (store demo_stopped) demo_sid \<noteq> None"
  by code_simp

lemma demo_states:
  "State (session_at demo_created) = StateCreated \<and> State (session_at demo_started) = StateRunning \<and>
   State (session_at demo_stopped) = StateStopped"
  by code_simp

lemma demo_session_at:
  "sessions (store demo_created) demo_sid = Some (session_at demo_created)"
  "sessions (store demo_started) demo_sid = Some (session_at demo_started)"
  "sessions (store demo_stopped) demo_sid = Some (session_at demo_stopped)"
  using demo_sessions by (simp_all add: session_at_def)

section \<open>Properties\<close>

text \<open>
  C2: no operation, webhook event or billing tick ever removes a session, makes a transition outside
  the state machine, changes the session's identity, agent or rate, or counts time or charges units
  unless the session was running with an active payment stream.
\<close>

theorem lifecycle_safe:
  assumes "svc_step nc s s'" "sessions (store s) sid = Some v"
  shows "\<exists>v'. sessions (store s') sid = Some v' \<and>
     (State v' = State v \<or> transition (State v) (State v')) \<and>
     ID v' = ID v \<and> AgentID v' = AgentID v \<and> RateUnitsPerMinute v' = RateUnitsPerMinute v \<and>
     (State v = StateRunning \<and> PaymentStreamActive v \<or>
      BilledSeconds v' = BilledSeconds v \<and> ChargedUnits v' = ChargedUnits v)"
  using svc_step_table [OF assms(1)] assms(2) by (auto simp: table_change_def change_ok_def)

theorem lifecycle_safe_witness:
  "\<exists>v'. sessions (store demo_stopped) demo_sid = Some v' \<and> AgentID v' = AgentID (session_at demo_started) \<and>
     transition StateRunning (State v')"
  using lifecycle_safe [OF demo_step_stop demo_session_at(2)] demo_states demo_session_at(3) by auto

text \<open>
  C11: in every state reachable from an empty store, each session is stored under its own id, its
  payment stream is active only while it runs, it is marked as paused for lack of funds only when
  it is not running, and a session that was never started has been charged nothing.
\<close>

theorem reachable_sessions_ok:
  assumes "store s = NewMemoryStore" "(svc_step nc)\<^sup>*\<^sup>* s s'" "sessions (store s') sid = Some v"
  shows "ID v = sid \<and> (PaymentStreamActive v \<longrightarrow> State v = StateRunning) \<and>
    (AutoPausedForFunds v \<longrightarrow> State v = StatePaused \<or> State v = StateStopped) \<and>
    (State v = StateCreated \<longrightarrow> BilledSeconds v = 0 \<and> ChargedUnits v = 0)"
proof -
  have "table_ok (store s')"
    using run_ok [OF assms(2)] table_ok_New by (simp only: assms(1))
  then have "session_ok v \<and> ID v = sid"
    using assms(3) unfolding table_ok_def by blast
  then show ?thesis by (simp add: session_ok_def)
qed

theorem reachable_sessions_ok_witness:
  "ID (session_at demo_stopped) = demo_sid \<and> \<not> PaymentStreamActive (session_at demo_stopped)"
proof -
  have "store demo_service = NewMemoryStore"
    by (simp add: demo_service_def NewService_def Let_def WithPrepaidLedger_def)
  moreover have "(svc_step recording_client)\<^sup>*\<^sup>* demo_service demo_stopped"
    by (rule converse_rtranclp_into_rtranclp, rule demo_step_create,
        rule converse_rtranclp_into_rtranclp, rule demo_step_start, rule r_into_rtranclp, rule demo_step_stop)
  ultimately have "ID (session_at demo_stopped) = demo_sid \<and>
      (PaymentStreamActive (session_at demo_stopped) \<longrightarrow> State (session_at demo_stopped) = StateRunning)"
    using reachable_sessions_ok [OF _ _ demo_session_at(3)] by blast
  with demo_states show ?thesis by simp
qed

text \<open>
  C12: a stopped session is final.  Whatever happens later, it stays in the store and stopped,
  neither its billed seconds nor its charged units change, every start and resume of it fails, and a
  start does not reach the Naryo client.  (\<^verbatim>\<open>docs/PIPELINE_EVENT_ROUTING.md\<close> names stopping and
  starting again as a way to apply a new configuration; it is not one.)
\<close>

theorem stopped_is_final:
  assumes "(svc_step nc)\<^sup>*\<^sup>* s s'" "sessions (store s) sid = Some v" "State v = StateStopped"
  shows "(\<exists>v'. sessions (store s') sid = Some v' \<and> State v' = StateStopped \<and>
      BilledSeconds v' = BilledSeconds v \<and> ChargedUnits v' = ChargedUnits v) \<and>
    (\<forall>s2 r. Start nc s' sid = Some (s2, r) \<longrightarrow> r \<noteq> None \<and> naryo s2 = naryo s') \<and>
    (\<forall>s2 r. Resume nc s' sid = Some (s2, r) \<longrightarrow> r \<noteq> None)"
  using run_stopped [OF assms] Start_stopped Resume_stopped by blast

theorem stopped_is_final_witness:
  "\<exists>s' v'. svc_step recording_client demo_stopped s' \<and> sessions (store s') demo_sid = Some v' \<and>
     State v' = StateStopped"
proof -
  obtain s' r where "Resume recording_client demo_stopped demo_sid = Some (s', r)"
    using rec_client.Resume_returns by (metis returnsE surj_pair)
  then have "svc_step recording_client demo_stopped s'" by (rule svc_step.resume)
  then show ?thesis
    using stopped_is_final [OF r_into_rtranclp demo_session_at(3)] demo_states by blast
qed

text \<open>
  C13: an operation that returns an error has not changed any session: a rejected or failed start,
  stop, pause, resume, reconfiguration or stream toggle leaves the table of sessions as it was.
\<close>

theorem failed_operation_keeps_sessions:
  assumes "Start nc s sid = Some (s', Some e) \<or> Stop nc s sid = Some (s', Some e) \<or>
    Pause nc s sid = Some (s', Some e) \<or> Resume nc s sid = Some (s', Some e) \<or>
    Reconfigure s sid patch = Some (s', Some e) \<or> SetPaymentStreamActive s sid b = Some (s', Some e)"
  shows "sessions (store s') = sessions (store s)"
  using assms by (elim disjE) (erule failed_Start [THEN failed_keeps] failed_Stop [THEN failed_keeps]
    failed_Pause [THEN failed_keeps] failed_Resume [THEN failed_keeps] failed_Reconfigure [THEN failed_keeps]
    failed_Stream [THEN failed_keeps], erule reject_intros)+

theorem failed_operation_keeps_sessions_witness:
  "\<exists>s'. Start recording_client demo_stopped demo_sid =
       Some (s', Some (ErrInvalidTransition ''start from'' StateStopped)) \<and>
     sessions (store s') = sessions (store demo_stopped)"
proof -
  obtain s' r where r: "Start recording_client demo_stopped demo_sid = Some (s', r)"
    using rec_client.Start_returns by (metis returnsE surj_pair)
  have "map_option snd (Start recording_client demo_stopped demo_sid) =
      Some (Some (ErrInvalidTransition ''start from'' StateStopped))" by code_simp
  with r have "r = Some (ErrInvalidTransition ''start from'' StateStopped)" by simp
  with r show ?thesis using failed_operation_keeps_sessions by blast
qed

text \<open>
  C9: \<open>Start\<close> succeeds exactly when the session exists and is created or paused, its agent's
  balance covers the minimum run time at the current rate (if a ledger is configured and the session
  has an agent), and the Naryo client provisions the pipeline.
\<close>

theorem Start_accepts:
  "(\<exists>s'. Start nc s sid = Some (s', None)) \<longleftrightarrow> (\<exists>v n' op. startable nc s sid v n' op)"
  using Start_success Start_startable by metis

text \<open>
  C10: a successful \<open>Start\<close> changes only the session it names: the session runs with an active
  payment stream and a fresh debit window under the operation id Naryo returned, its accumulated
  seconds and charges are kept, and nothing is taken from the ledger.
\<close>

theorem Start_effect:
  assumes "Start nc s sid = Some (s', None)"
  shows "\<exists>v n' op. startable nc s sid v n' op \<and> naryo s' = n' \<and> ledger s' = ledger s \<and>
    sessions (store s') = (sessions (store s))(sid \<mapsto>
      v\<lparr>State := StateRunning, PaymentStreamActive := True, LastNaryoOpID := op, BillingNumerator := 0,
        SecondsInDebitWindow := 0, CommittedDebitSeq := 0, FundsChargeRetryPending := False,
        FundsRetryAtUnix := 0, AutoPausedForFunds := False\<rparr>)"
  using Start_success [OF assms] Start_startable assms by fastforce

theorem Start_effect_witness:
  "\<exists>s'. Start recording_client demo_created demo_sid = Some (s', None) \<and> ledger s' = ledger demo_created"
proof -
  obtain s' r where r: "Start recording_client demo_created demo_sid = Some (s', r)"
    using rec_client.Start_returns by (metis returnsE surj_pair)
  have "map_option snd (Start recording_client demo_created demo_sid) = Some None" by code_simp
  with r have "Start recording_client demo_created demo_sid = Some (s', None)" by simp
  with Start_effect [OF this] show ?thesis by blast
qed




text \<open>
  C16: \<open>Resume\<close> asks Naryo to resume the egress before it looks at the state of the session, so for
  a stopped session whose agent has funds the egress is provisioned again and the operation then
  fails, which leaves a stopped session with a live pipeline.
\<close>

theorem resume_stopped_provisions:
  assumes "sessions (store s) sid = Some v" "State v = StateStopped"
    and "checkPrepaid s (AgentID v) = None"
    and "ResumeEgress nc (naryo s) sid (Config v) = Some (n', None)"
  shows "Resume nc s sid =
    Some (s\<lparr>naryo := n'\<rparr>, Some (ErrInvalidTransition ''resume from'' StateStopped))"
proof -
  have "resume_session v () = Some (v, (), Inl (ErrInvalidTransition ''resume from'' StateStopped))"
    using assms(2) by (simp add: resume_session_def)
  moreover have "store s\<lparr>sessions := (sessions (store s))(sid \<mapsto> v)\<rparr> = store s"
    using assms(1) by (simp add: fun_upd_idem)
  ultimately show ?thesis
    using assms by (simp add: Resume_def Get_def Update_found)
qed

theorem resume_stopped_provisions_witness:
  "\<exists>s'. Resume recording_client demo_stopped demo_sid =
      Some (s', Some (ErrInvalidTransition ''resume from'' StateStopped)) \<and> ResumeCalls (naryo s') = 1"
proof -
  let ?n = "fst (the (ResumeEgress recording_client (naryo demo_stopped) demo_sid []))"
  have "checkPrepaid demo_stopped (AgentID (session_at demo_stopped)) = None" by code_simp
  moreover have "ResumeEgress recording_client (naryo demo_stopped) demo_sid (Config (session_at demo_stopped)) =
      Some (?n, None)"
    by (simp add: recording_defs)
  moreover have "ResumeCalls ?n = 1" by code_simp
  ultimately show ?thesis
    using resume_stopped_provisions [OF demo_session_at(3)] demo_states by auto
qed

end
