(* ===== verification/Metering.thy ===== *)
theory Metering
  imports Lifecycle
begin

text \<open>
  What the billing loop charges: the arithmetic of debit windows, the ledger under a tick, and the price
  of any number of seconds for one session in the loop.
\<close>

section \<open>One session\<close>

text \<open>The value of the service delivered so far, in sixtieths of a unit.\<close>

definition worth :: "session \<Rightarrow> int" where
  "worth v = 60 * ChargedUnits v + BillingNumerator v"

text \<open>Whether this tick counts towards the debit window.\<close>

definition accrues :: "gotime \<Rightarrow> session \<Rightarrow> tick_env \<Rightarrow> bool" where
  "accrues now v env \<longleftrightarrow> State v = StateRunning \<and> PaymentStreamActive v \<and> te_ledger env \<noteq> None \<and>
     AgentID v \<noteq> [] \<and> \<not> awaiting_retry now v"

text \<open>The counters are in a range in which one more second does not overflow.\<close>

definition counters_ok :: "'n service \<Rightarrow> session \<Rightarrow> bool" where
  "counters_ok s v \<longleftrightarrow> 0 \<le> BillingNumerator v \<and> 0 \<le> ChargedUnits v \<and> 0 \<le> effective_rate s v \<and>
     worth v + effective_rate s v < 2 ^ 63"

lemma count_second_fields [simp]:
  "State (count_second v) = State v" "PaymentStreamActive (count_second v) = PaymentStreamActive v"
  "AgentID (count_second v) = AgentID v" "ID (count_second v) = ID v"
  "ChargedUnits (count_second v) = ChargedUnits v" "BillingNumerator (count_second v) = BillingNumerator v"
  "SecondsInDebitWindow (count_second v) = SecondsInDebitWindow v"
  "CommittedDebitSeq (count_second v) = CommittedDebitSeq v"
  "FundsChargeRetryPending (count_second v) = FundsChargeRetryPending v"
  "FundsRetryAtUnix (count_second v) = FundsRetryAtUnix v"
  "SummaryPendingUnits (count_second v) = SummaryPendingUnits v"
  "RateUnitsPerMinute (count_second v) = RateUnitsPerMinute v"
  "BilledSeconds (count_second v) = add64 (BilledSeconds v) 1"
  by (simp_all add: count_second_def)

lemma accrue_fields [simp]:
  "State (accrue s v) = State v" "PaymentStreamActive (accrue s v) = PaymentStreamActive v"
  "AgentID (accrue s v) = AgentID v" "ID (accrue s v) = ID v" "ChargedUnits (accrue s v) = ChargedUnits v"
  "SecondsInDebitWindow (accrue s v) = add64 (SecondsInDebitWindow v) 1"
  "CommittedDebitSeq (accrue s v) = CommittedDebitSeq v"
  "FundsChargeRetryPending (accrue s v) = FundsChargeRetryPending v"
  "FundsRetryAtUnix (accrue s v) = FundsRetryAtUnix v"
  "SummaryPendingUnits (accrue s v) = SummaryPendingUnits v"
  "RateUnitsPerMinute (accrue s v) = RateUnitsPerMinute v"
  "BilledSeconds (accrue s v) = BilledSeconds v"
  by (simp_all add: accrue_def)

lemma effective_rate_pos: "0 < effective_rate s v"
  by (simp add: effective_rate_def Let_def)

lemma counters_ok_rate:
  "rateUnitsPerMinute s' = rateUnitsPerMinute s \<Longrightarrow> counters_ok s' v = counters_ok s v"
  by (simp add: counters_ok_def effective_rate_def Let_def)

lemma accrue_worth:
  assumes "counters_ok s v"
  shows "BillingNumerator (accrue s (count_second v)) = BillingNumerator v + effective_rate s v"
proof -
  have "effective_rate s (count_second v) = effective_rate s v"
    by (simp add: effective_rate_def count_second_def)
  moreover have "add64 (BillingNumerator v) (effective_rate s v) = BillingNumerator v + effective_rate s v"
    using assms effective_rate_pos [of s v] by (intro add64_id) (auto simp: counters_ok_def worth_def i64_def)
  ultimately show ?thesis by (simp add: accrue_def count_second_def)
qed

lemma settle_worth:
  assumes "settle_window s sid now l v env = (v', env', r)" "0 \<le> BillingNumerator v" "0 \<le> ChargedUnits v"
    and "worth v < 2 ^ 63"
  shows "worth v' = worth v"
  using assms(1)
proof (cases rule: settle_windowE)
  case empty
  then have "BillingNumerator v smod 60 = BillingNumerator v"
    using assms(2) pos_imp_zdiv_pos_iff [of 60 "BillingNumerator v"]
    by (simp add: sdiv_nonneg smod_nonneg not_less)
  with empty show ?thesis by (simp add: worth_def close_empty_window_def)
next
  case (refused l' rem)
  then show ?thesis by (auto simp: insufficient_funds_def worth_def split: if_splits)
next
  case (failed l' rem e)
  then show ?thesis by simp
next
  case (charged l' rem)
  let ?c = "BillingNumerator v sdiv 60"
  have c: "60 * ?c + BillingNumerator v smod 60 = BillingNumerator v" "0 \<le> BillingNumerator v smod 60"
    using assms(2) by (simp_all add: sdiv_nonneg smod_nonneg)
  then have "add64 (ChargedUnits v) ?c = ChargedUnits v + ?c"
    using charged(1) assms(2-4) by (intro add64_id) (auto simp: i64_def worth_def)
  with c charged(3) show ?thesis
    by (auto simp: summarize_def commit_charge_def worth_def Let_def split: if_splits)
qed

lemma tick_worth:
  assumes "tick_session s sid now i v env = Some (v', env', r)" "counters_ok s v"
  shows "worth v' = worth v + (if accrues now v env then effective_rate s v else 0)"
  using assms(1)
proof (cases rule: tick_sessionE)
  case (accrued l)
  then show ?thesis
    using accrue_worth [OF assms(2)] by (simp add: worth_def accrues_def)
next
  case (settled l)
  let ?w = "accrue s (count_second v)"
  have "worth ?w = worth v + effective_rate s v"
    using accrue_worth [OF assms(2)] by (simp add: worth_def)
  moreover have "worth v' = worth ?w"
    using accrue_worth [OF assms(2)] effective_rate_pos [of s v] assms(2) calculation
    by (intro settle_worth [OF settled(7)]) (auto simp: counters_ok_def)
  ultimately show ?thesis using settled by (simp add: accrues_def)
qed (auto simp: worth_def accrues_def count_second_def)

section \<open>The ledger under a tick\<close>

text \<open>A tick only ever takes units, and never more than there are.\<close>

definition ledger_le :: "MemoryLedger option \<Rightarrow> MemoryLedger option \<Rightarrow> bool" where
  "ledger_le lo lo' \<longleftrightarrow> (case lo of
       None \<Rightarrow> lo' = None
     | Some l \<Rightarrow> (\<exists>l'. lo' = Some l' \<and>
         (\<forall>a. GetBalance l' a \<le> GetBalance l a \<and> (0 \<le> GetBalance l a \<longrightarrow> 0 \<le> GetBalance l' a))))"

lemma ledger_le_refl [simp]: "ledger_le lo lo"
  by (simp add: ledger_le_def split: option.split)

lemma ledger_le_trans: "ledger_le a b \<Longrightarrow> ledger_le b c \<Longrightarrow> ledger_le a c"
  by (cases a; cases b; auto simp: ledger_le_def) (meson order_trans)+

lemma summarize_ledger [simp]: "te_ledger (snd (summarize s now v env)) = te_ledger env"
  by (simp add: summarize_def Let_def)

lemma settle_ledger:
  assumes "settle_window s sid now l v env = (v', env', r)" "te_ledger env = Some l"
  shows "ledger_le (te_ledger env) (te_ledger env')"
proof -
  have charge: "ledger_le (Some l) (Some l')"
    if "ChargeUsage l (AgentID v) sid n b = (l', rem, e)" for l' rem e n b
    using ml.charge_le [of l "AgentID v" sid n b] ml.charge_nonneg [of l _ "AgentID v" sid n b] that
    by (simp add: ledger_le_def)
  from assms(1) show ?thesis
  proof (cases rule: settle_windowE)
    case (charged l' rem)
    then have "te_ledger env' = Some l'"
      by (metis summarize_ledger snd_conv tick_env.select_convs(1) tick_env.surjective tick_env.update_convs(1))
    with charge [OF charged(2)] assms(2) show ?thesis by simp
  next
    case (refused l' rem)
    with charge [OF refused(2)] assms(2) show ?thesis by (auto simp: insufficient_funds_def split: if_splits)
  next
    case (failed l' rem e)
    with charge [OF failed(3)] assms(2) show ?thesis by simp
  qed simp
qed

lemma tick_session_ledger:
  assumes "tick_session s sid now i v env = Some (v', env', r)"
  shows "ledger_le (te_ledger env) (te_ledger env')"
  using assms
proof (cases rule: tick_sessionE)
  case (settled l)
  then show ?thesis using settle_ledger by blast
qed simp_all

lemma tick_one_ledger:
  assumes "tick_one now s pids sid = Some (s', pids')"
  shows "ledger_le (ledger s) (ledger s')"
proof -
  let ?env = "\<lparr>te_ledger = ledger s, needPause = False, pauseRemainingBal = 0, summary = None, pauseIDs = pids\<rparr>"
  from assms obtain st' env r where u: "Update (store s) sid (tick_session s sid now (debit_interval s)) ?env =
      Some (st', env, r)" and l: "ledger s' = te_ledger env"
    by (auto simp: tick_one_def bind_eq_Some_conv Let_def split: option.splits if_splits)
  from u have "ledger_le (te_ledger ?env) (te_ledger env)"
    by (cases rule: UpdateE) (auto dest: tick_session_ledger)
  with l show ?thesis by simp
qed

lemma tick_sessions_ledger:
  "tick_sessions now s pids sids = Some (s', pids') \<Longrightarrow> ledger_le (ledger s) (ledger s')"
  by (induction sids arbitrary: s pids)
     (auto simp: bind_eq_Some_conv dest!: tick_one_ledger elim: ledger_le_trans)

lemma ledger_pause_sessions: "pause_sessions nc s sids = Some s' \<Longrightarrow> ledger s' = ledger s"
  by (induction sids arbitrary: s) (fastforce simp: bind_eq_Some_conv Let_def split: if_splits)+

lemma tick_ledger: "runBillingTick nc order s = Some s' \<Longrightarrow> ledger_le (ledger s) (ledger s')"
  by (auto simp: runBillingTick_def bind_eq_Some_conv dest!: tick_sessions_ledger ledger_pause_sessions)

section \<open>Exact debits\<close>

text \<open>
  The debit buckets a session has yet to use have not been charged.  Starting a new session
  establishes this, and every tick keeps it.
\<close>

definition fresh_from :: "MemoryLedger \<Rightarrow> string \<Rightarrow> string \<Rightarrow> int \<Rightarrow> bool" where
  "fresh_from l a sid n \<longleftrightarrow> (\<forall>b. n < b \<and> b < 2 ^ 63 \<longrightarrow> chargeKey a sid b \<notin> credited l)"

definition debit_ok :: "MemoryLedger \<Rightarrow> string \<Rightarrow> session \<Rightarrow> bool" where
  "debit_ok l sid v \<longleftrightarrow> bar_free (AgentID v) \<and> bar_free sid \<and>
     0 \<le> CommittedDebitSeq v \<and> CommittedDebitSeq v < 2 ^ 63 - 1 \<and>
     fresh_from l (AgentID v) sid (CommittedDebitSeq v)"

text \<open>What one tick of one session does to the ledger.\<close>

definition debit_step :: "MemoryLedger \<Rightarrow> MemoryLedger \<Rightarrow> string \<Rightarrow> session \<Rightarrow> session \<Rightarrow> bool" where
  "debit_step l l' sid v v' \<longleftrightarrow>
     (\<forall>a. GetBalance l a - GetBalance l' a = (if a = AgentID v then ChargedUnits v' - ChargedUnits v else 0)) \<and>
     credited l' \<subseteq> insert (chargeKey (AgentID v) sid (CommittedDebitSeq v + 1)) (credited l) \<and>
     fresh_from l' (AgentID v) sid (CommittedDebitSeq v')"

lemma chargeKey_next:
  assumes "bar_free a" "bar_free sid" "0 \<le> n" "n + 1 < b" "b < 2 ^ 63"
  shows "chargeKey a sid b \<noteq> chargeKey a sid (n + 1)"
  using assms itoa_inject [of "n + 1" b] by (auto simp: chargeKey_eq bar_free_def i64_def)

lemma settle_debit:
  assumes "settle_window s sid now l v env = (v', env', r)" "te_ledger env = Some l" "debit_ok l sid v"
    and "0 \<le> BillingNumerator v" "0 \<le> ChargedUnits v" "worth v < 2 ^ 63"
  shows "\<exists>l'. te_ledger env' = Some l' \<and> debit_step l l' sid v v'"
proof -
  have same: "debit_step l l sid v w"
    if "ChargedUnits w = ChargedUnits v" "CommittedDebitSeq w = CommittedDebitSeq v" for w
    using assms(3) that by (auto simp: debit_step_def debit_ok_def)
  have seq: "add64 (CommittedDebitSeq v) 1 = CommittedDebitSeq v + 1"
    using assms(3) by (intro add64_id) (auto simp: debit_ok_def i64_def)
  from assms(1) show ?thesis
  proof (cases rule: settle_windowE)
    case empty
    with assms(2) show ?thesis by (auto simp: close_empty_window_def intro!: same)
  next
    case (refused l' rem)
    then have "l' = l" by (metis ml.charge_rejected)
    with refused show ?thesis by (auto simp: insufficient_funds_def intro!: same split: if_splits)
  next
    case (failed l' rem e)
    then have "l' = l" by (metis ml.charge_rejected)
    with failed show ?thesis by (auto intro!: same)
  next
    case (charged l' rem)
    let ?n = "CommittedDebitSeq v" and ?c = "BillingNumerator v sdiv 60" and ?a = "AgentID v"
    have "chargeKey ?a sid (?n + 1) \<notin> credited l"
      using assms(3) by (auto simp: debit_ok_def fresh_from_def)
    then have l': "l' = l\<lparr>balances := (balances l)(?a := balances l ?a - ?c),
        credited := insert (chargeKey ?a sid (?n + 1)) (credited l)\<rparr>"
      using charged(1,2) seq by (auto simp: ChargeUsage_def Let_def split: if_splits)
    have "60 * ?c \<le> BillingNumerator v"
      using assms(4) by (simp add: sdiv_nonneg)
    then have "add64 (ChargedUnits v) ?c = ChargedUnits v + ?c"
      using charged(1) assms(4-6) by (intro add64_id) (auto simp: worth_def i64_def)
    then have v': "ChargedUnits v' = ChargedUnits v + ?c" "CommittedDebitSeq v' = ?n + 1" "te_ledger env' = Some l'"
      using charged(3) seq by (auto simp: summarize_def commit_charge_def Let_def split: if_splits)
    have "fresh_from l' ?a sid (?n + 1)"
      using assms(3) chargeKey_next [of ?a sid ?n] by (auto simp: fresh_from_def debit_ok_def l')
    with v' show ?thesis by (auto simp: debit_step_def l' GetBalance_def)
  qed
qed

lemma counters_ok_accrued: "counters_ok s v \<Longrightarrow> 0 \<le> ChargedUnits (accrue s (count_second v)) \<and>
    0 \<le> BillingNumerator (accrue s (count_second v)) \<and> worth (accrue s (count_second v)) < 2 ^ 63"
  using accrue_worth [of s v] effective_rate_pos [of s v] by (auto simp: counters_ok_def worth_def)

lemma debit_step_accrued:
  "debit_step l l' sid (accrue s (count_second v)) v' = debit_step l l' sid v v'"
  by (simp add: debit_step_def)

lemma tick_debit:
  assumes "tick_session s sid now i v env = Some (v', env', r)" "te_ledger env = Some l"
    and "debit_ok l sid v" "counters_ok s v"
  shows "\<exists>l'. te_ledger env' = Some l' \<and> debit_step l l' sid v v'"
  using assms(1)
proof (cases rule: tick_sessionE)
  case (settled l0)
  let ?w = "accrue s (count_second v)"
  have "debit_ok l sid ?w" using assms(3) by (simp add: debit_ok_def)
  then show ?thesis
    using settle_debit [OF settled(7)] settled(3) assms(2) counters_ok_accrued [OF assms(4)]
    by (simp add: debit_step_accrued)
qed (use assms(2,3) in \<open>auto simp: debit_step_def debit_ok_def\<close>)

text \<open>The debit a tick makes for one session leaves the buckets of the others fresh.\<close>

lemma fresh_from_other:
  assumes "debit_step l l' sid v v'" "bar_free (AgentID v)" "bar_free sid" "bar_free a" "bar_free sid'"
    and "sid \<noteq> sid'" "fresh_from l a sid' n"
  shows "fresh_from l' a sid' n"
proof -
  have "chargeKey a sid' b \<noteq> chargeKey (AgentID v) sid c" for b c
    using assms(2-6) by (simp add: chargeKey_eq bar_free_def)
  then show ?thesis
    using assms(1,7) unfolding fresh_from_def debit_step_def by blast
qed

lemma fresh_other:
  "debit_step l l' sid v v' \<Longrightarrow> debit_ok l sid v \<Longrightarrow> debit_ok l sid' w \<Longrightarrow> sid \<noteq> sid' \<Longrightarrow> debit_ok l' sid' w"
  unfolding debit_ok_def using fresh_from_other by blast

definition charged_to :: "'n service \<Rightarrow> string \<Rightarrow> string \<Rightarrow> int" where
  "charged_to s a sid =
     (case sessions (store s) sid of Some v \<Rightarrow> (if AgentID v = a then ChargedUnits v else 0) | None \<Rightarrow> 0)"

definition debits_ok :: "'n service \<Rightarrow> string \<Rightarrow> bool" where
  "debits_ok s sid \<longleftrightarrow> (\<forall>l v. ledger s = Some l \<longrightarrow> sessions (store s) sid = Some v \<longrightarrow>
     debit_ok l sid v \<and> counters_ok s v)"

text \<open>Buckets stay fresh even where the next second may overflow a counter.\<close>

definition fresh_session :: "'n service \<Rightarrow> string \<Rightarrow> bool" where
  "fresh_session s sid \<longleftrightarrow> (\<forall>l v. ledger s = Some l \<longrightarrow> sessions (store s) sid = Some v \<longrightarrow>
     bar_free (AgentID v) \<and> bar_free sid \<and> fresh_from l (AgentID v) sid (CommittedDebitSeq v))"

lemma debits_fresh: "debits_ok s sid \<Longrightarrow> fresh_session s sid"
  by (auto simp: debits_ok_def fresh_session_def debit_ok_def)

lemma tick_one_debit:
  assumes "tick_one now s pids sid = Some (s', pids')" "ledger s = Some l" "debits_ok s sid"
  shows "\<exists>l'. ledger s' = Some l' \<and> rateUnitsPerMinute s' = rateUnitsPerMinute s \<and>
    (\<forall>x. x \<noteq> sid \<longrightarrow> sessions (store s') x = sessions (store s) x) \<and>
    (\<forall>a. GetBalance l a - GetBalance l' a = charged_to s' a sid - charged_to s a sid) \<and>
    fresh_session s' sid \<and> (\<forall>x. x \<noteq> sid \<longrightarrow> debits_ok s x \<longrightarrow> debits_ok s' x) \<and>
    (\<forall>x. x \<noteq> sid \<longrightarrow> fresh_session s x \<longrightarrow> fresh_session s' x)"
proof -
  let ?env = "\<lparr>te_ledger = ledger s, needPause = False, pauseRemainingBal = 0, summary = None, pauseIDs = pids\<rparr>"
  from assms(1) obtain st' env r where u: "Update (store s) sid (tick_session s sid now (debit_interval s)) ?env =
      Some (st', env, r)" and s': "ledger s' = te_ledger env" "store s' = st'"
      "rateUnitsPerMinute s' = rateUnitsPerMinute s"
    by (auto simp: tick_one_def bind_eq_Some_conv Let_def emit_def split: option.splits if_splits)
  from u show ?thesis
  proof (cases rule: UpdateE)
    case missing
    with s' assms(2) show ?thesis
      by (auto simp: charged_to_def fresh_session_def debits_ok_def counters_ok_rate [OF s'(3)])
  next
    case (found v v' res)
    have v: "debit_ok l sid v" "counters_ok s v"
      using assms(2,3) found by (auto simp: debits_ok_def)
    obtain l' where l': "te_ledger env = Some l'" "debit_step l l' sid v v'"
      using tick_debit [OF found(2) _ v] assms(2) by auto
    have ag: "AgentID v' = AgentID v"
      using change_tick [OF found(2)] by (simp add: change_ok_def)
    have at: "sessions (store s') x = (if x = sid then Some v' else sessions (store s) x)" for x
      using found(3) s' by simp
    have led: "ledger s' = Some l'" using s' l' by simp
    have free: "bar_free (AgentID v)" "bar_free sid" using v(1) by (simp_all add: debit_ok_def)
    have "debits_ok s' x" if "x \<noteq> sid" "debits_ok s x" for x
      using that fresh_other [OF l'(2) v(1)] assms(2)
      by (simp add: debits_ok_def counters_ok_rate [OF s'(3)] at led)
    moreover have "fresh_session s' x" if "x \<noteq> sid" "fresh_session s x" for x
      using that fresh_from_other [OF l'(2) free] assms(2) by (simp add: fresh_session_def at led)
    moreover have "fresh_session s' sid"
      using l'(2) free by (simp add: fresh_session_def at led ag debit_step_def)
    moreover have "GetBalance l a - GetBalance l' a = charged_to s' a sid - charged_to s a sid" for a
      using l'(2) found(1) by (simp add: charged_to_def at ag debit_step_def)
    ultimately show ?thesis using led s'(3) at by simp
  qed
qed

lemma tick_sessions_debit:
  assumes "tick_sessions now s pids sids = Some (s', pids')" "ledger s = Some l" "distinct sids"
    and "\<forall>sid \<in> set sids. debits_ok s sid"
  shows "\<exists>l'. ledger s' = Some l' \<and>
    (\<forall>x. x \<notin> set sids \<longrightarrow> sessions (store s') x = sessions (store s) x) \<and>
    (\<forall>a. GetBalance l a - GetBalance l' a = (\<Sum>sid\<leftarrow>sids. charged_to s' a sid - charged_to s a sid)) \<and>
    (\<forall>x. fresh_session s x \<longrightarrow> fresh_session s' x)"
  using assms
proof (induction sids arbitrary: s pids l)
  case (Cons sid sids)
  then obtain s1 p1 where one: "tick_one now s pids sid = Some (s1, p1)"
    and rest: "tick_sessions now s1 p1 sids = Some (s', pids')"
    by (auto simp: bind_eq_Some_conv)
  from Cons.prems tick_one_debit [OF one, of l] obtain l1 where l1': "ledger s1 = Some l1"
    "\<forall>x. x \<noteq> sid \<longrightarrow> sessions (store s1) x = sessions (store s) x"
    "\<forall>a. GetBalance l a - GetBalance l1 a = charged_to s1 a sid - charged_to s a sid"
    "fresh_session s1 sid" "\<forall>x. x \<noteq> sid \<longrightarrow> fresh_session s x \<longrightarrow> fresh_session s1 x"
    "\<forall>x. x \<noteq> sid \<longrightarrow> debits_ok s x \<longrightarrow> debits_ok s1 x"
    by auto
  then have fresh1: "fresh_session s x \<Longrightarrow> fresh_session s1 x" for x by (cases "x = sid") auto
  note l1 = l1'(1) l1'(2,3) [rule_format]
  from Cons.prems l1'(6) have "\<forall>x \<in> set sids. debits_ok s1 x" by auto
  from Cons.IH [OF rest l1(1) _ this] Cons.prems(3) obtain l' where l': "ledger s' = Some l'"
    "\<And>x. x \<notin> set sids \<Longrightarrow> sessions (store s') x = sessions (store s1) x"
    "\<And>a. GetBalance l1 a - GetBalance l' a = (\<Sum>sid\<leftarrow>sids. charged_to s' a sid - charged_to s1 a sid)"
    "\<And>x. fresh_session s1 x \<Longrightarrow> fresh_session s' x"
    by auto
  have ne: "x \<noteq> sid" if "x \<in> set sids" for x using that Cons.prems(3) by auto
  have "charged_to s' a sid = charged_to s1 a sid" for a
    using l'(2) Cons.prems(3) by (simp add: charged_to_def)
  moreover have "(\<Sum>x\<leftarrow>sids. charged_to s' a x - charged_to s1 a x) =
      (\<Sum>x\<leftarrow>sids. charged_to s' a x - charged_to s a x)" for a
    using l1(2) ne by (intro arg_cong [where f = sum_list] map_cong) (simp_all add: charged_to_def)
  ultimately have "GetBalance l a - GetBalance l' a =
      (\<Sum>x\<leftarrow>sid # sids. charged_to s' a x - charged_to s a x)" for a
    using l1(3) [of a] l'(3) [of a] by simp
  then show ?case using l1(2) l' fresh1 Cons.prems(3) by auto
qed simp

lemma tick_debits:
  assumes "runBillingTick nc order s = Some s'" "ledger s = Some l" "distinct order"
    and "\<forall>sid \<in> set order. debits_ok s sid"
  shows "\<exists>l'. ledger s' = Some l' \<and>
    (\<forall>a. GetBalance l a - GetBalance l' a = (\<Sum>sid\<leftarrow>order. charged_to s' a sid - charged_to s a sid)) \<and>
    (\<forall>x. fresh_session s x \<longrightarrow> fresh_session s' x)"
proof -
  from assms(1) obtain s1 pids where "tick_sessions (nowTime s) s [] order = Some (s1, pids)"
    and p: "pause_sessions nc s1 pids = Some s'"
    by (auto simp: runBillingTick_def bind_eq_Some_conv)
  from tick_sessions_debit [OF this(1) assms(2-4)] store_pause_sessions [OF p] ledger_pause_sessions [OF p]
  show ?thesis by (auto simp: charged_to_def fresh_session_def)
qed

section \<open>A funded session\<close>

text \<open>
  The state of a session \<open>n\<close> seconds after a start, while its agent can pay: \<open>c\<close> units had been
  charged before, \<open>b\<close> were available, the rate is \<open>r\<close> per minute and the debit interval \<open>i\<close>
  seconds.
\<close>

definition window_units :: "int \<Rightarrow> int \<Rightarrow> int \<Rightarrow> int" where
  "window_units r i n = (r * i * (n div i)) div 60"

definition metered_session :: "int \<Rightarrow> int \<Rightarrow> int \<Rightarrow> string \<Rightarrow> int \<Rightarrow> session \<Rightarrow> bool" where
  "metered_session r i c a n v \<longleftrightarrow>
     State v = StateRunning \<and> PaymentStreamActive v \<and> AgentID v = a \<and> \<not> FundsChargeRetryPending v \<and>
     RateUnitsPerMinute v = r \<and> SecondsInDebitWindow v = n mod i \<and>
     BillingNumerator v = (r * i * (n div i)) mod 60 + r * (n mod i) \<and>
     ChargedUnits v = c + window_units r i n \<and> 0 \<le> CommittedDebitSeq v"

definition metered ::
  "int \<Rightarrow> int \<Rightarrow> int \<Rightarrow> int \<Rightarrow> string \<Rightarrow> string \<Rightarrow> int \<Rightarrow> session \<Rightarrow> MemoryLedger option \<Rightarrow> bool" where
  "metered r i c b a sid n v lo \<longleftrightarrow> metered_session r i c a n v \<and>
     (\<exists>l. lo = Some l \<and> GetBalance l a = b - window_units r i n \<and> fresh_from l a sid (CommittedDebitSeq v))"

lemma same_window:
  fixes n i :: int
  assumes "0 < i" "n mod i + 1 < i"
  shows "(n + 1) div i = n div i" "(n + 1) mod i = n mod i + 1"
proof -
  have "n + 1 = (n mod i + 1) + i * (n div i)" using mult_div_mod_eq [of i n] by linarith
  moreover have "(n mod i + 1) div i = 0" "(n mod i + 1) mod i = n mod i + 1"
    using assms pos_mod_sign [of i n] by (auto intro: div_pos_pos_trivial mod_pos_pos_trivial)
  ultimately show "(n + 1) div i = n div i" "(n + 1) mod i = n mod i + 1"
    using assms(1) by (metis add.right_neutral div_mult_self2 less_irrefl, metis mod_mult_self2)
qed

lemma next_window:
  fixes n i :: int
  assumes "0 < i" "i \<le> n mod i + 1"
  shows "(n + 1) div i = n div i + 1" "(n + 1) mod i = 0" "n mod i + 1 = i"
proof -
  have m: "n mod i + 1 = i" using assms pos_mod_bound [of i n] by linarith
  have "i * (n div i + 1) = i * (n div i) + i" by (simp add: distrib_left)
  then have "n + 1 = i * (n div i + 1)" using mult_div_mod_eq [of i n] m by linarith
  then show "(n + 1) div i = n div i + 1" "(n + 1) mod i = 0" "n mod i + 1 = i"
    using assms(1) m by simp_all
qed

lemma window_split:
  fixes x y :: int
  shows "(x + y) div 60 = x div 60 + (x mod 60 + y) div 60" "(x + y) mod 60 = (x mod 60 + y) mod 60"
proof -
  have "x + y = (x mod 60 + y) + 60 * (x div 60)" using mult_div_mod_eq [of 60 x] by linarith
  then show "(x + y) div 60 = x div 60 + (x mod 60 + y) div 60"
    by (metis add.commute div_mult_self2 zero_neq_numeral)
qed (simp add: mod_add_left_eq)

lemma window_units_nonneg: "0 < r \<Longrightarrow> 0 < i \<Longrightarrow> 0 \<le> n \<Longrightarrow> 0 \<le> window_units r i n"
  by (simp add: window_units_def pos_imp_zdiv_nonneg_iff)

lemma split_seconds: "r * i * (n div i) + r * (n mod i) = r * (n :: int)"
  by (metis distrib_left mult.assoc mult_div_mod_eq)

lemma units_and_rest:
  fixes x y :: int
  shows "x + y - (x mod 60 + y) = 60 * (x div 60)"
  by presburger

lemma metered_worth:
  assumes "metered_session r i c a n v"
  shows "worth v = 60 * c + r * n"
proof -
  have "worth v = 60 * c + 60 * (r * i * (n div i) div 60) + (r * i * (n div i) mod 60 + r * (n mod i))"
    using assms by (simp only: metered_session_def worth_def window_units_def distrib_left)
  also have "\<dots> = 60 * c + (r * i * (n div i) + r * (n mod i))"
    unfolding units_and_rest [symmetric, of _ "r * (n mod i)"] by simp
  finally show ?thesis by (simp only: split_seconds)
qed

lemma metered_counters:
  assumes "metered_session r i c a n v" "0 < r" "0 < i" "0 \<le> n" "0 \<le> c" "60 * c + r * (n + 1) < 2 ^ 63"
  shows "counters_ok s v \<and> effective_rate s v = r"
proof -
  have eff: "effective_rate s v = r"
    using assms(1,2) by (simp add: effective_rate_def metered_session_def Let_def)
  have "0 \<le> r * (n mod i)" using assms(2,3) by simp
  then have "0 \<le> BillingNumerator v" using assms(1) by (simp add: metered_session_def)
  moreover have "0 \<le> ChargedUnits v"
    using assms(1,5) window_units_nonneg [OF assms(2-4)] by (simp add: metered_session_def)
  moreover have "worth v + r = 60 * c + r * (n + 1)"
    by (simp add: metered_worth [OF assms(1)] distrib_left)
  ultimately show ?thesis using assms(2,6) by (simp add: counters_ok_def eff)
qed

text \<open>The charge of a full window is the growth of \<open>window_units\<close>.\<close>

lemma window_units_next:
  assumes "0 < i" "i \<le> n mod i + 1"
  shows "window_units r i (n + 1) = window_units r i n + ((r * i * (n div i)) mod 60 + r * i) div 60"
    and "(r * i * ((n + 1) div i)) mod 60 = ((r * i * (n div i)) mod 60 + r * i) mod 60"
proof -
  have "r * i * ((n + 1) div i) = r * i * (n div i) + r * i"
    by (simp only: next_window(1) [OF assms] distrib_left mult_1_right)
  then show "window_units r i (n + 1) = window_units r i n + ((r * i * (n div i)) mod 60 + r * i) div 60"
    and "(r * i * ((n + 1) div i)) mod 60 = ((r * i * (n div i)) mod 60 + r * i) mod 60"
    unfolding window_units_def by (simp_all only: window_split [symmetric])
qed

lemma window_units_same:
  "0 < i \<Longrightarrow> n mod i + 1 < i \<Longrightarrow> window_units r i (n + 1) = window_units r i n"
  by (simp add: window_units_def same_window)

text \<open>The counters other than \<open>ChargedUnits\<close> after a settled window whose charge, if any, is accepted.\<close>

lemma settle_paid:
  assumes "settle_window s sid now l v env = (v', env', r)" "0 \<le> BillingNumerator v"
    and paid: "0 < BillingNumerator v div 60 \<Longrightarrow>
      snd (snd (ChargeUsage l (AgentID v) sid (BillingNumerator v div 60) (CommittedDebitSeq v + 1))) = None"
    and seq: "0 \<le> CommittedDebitSeq v" "CommittedDebitSeq v < 2 ^ 63 - 1"
    and run: "State v = StateRunning" "PaymentStreamActive v" "\<not> FundsChargeRetryPending v"
  shows "BillingNumerator v' = BillingNumerator v mod 60 \<and> SecondsInDebitWindow v' = 0 \<and>
    State v' = StateRunning \<and> PaymentStreamActive v' \<and> \<not> FundsChargeRetryPending v' \<and>
    CommittedDebitSeq v \<le> CommittedDebitSeq v' \<and> CommittedDebitSeq v' \<le> CommittedDebitSeq v + 1 \<and>
    needPause env' = needPause env \<and> pauseIDs env' = pauseIDs env \<and> BilledSeconds v' = BilledSeconds v"
proof -
  have next_seq: "add64 (CommittedDebitSeq v) 1 = CommittedDebitSeq v + 1"
    using seq by (intro add64_id) (auto simp: i64_def)
  have div: "BillingNumerator v sdiv 60 = BillingNumerator v div 60" using assms(2) by (simp add: sdiv_nonneg)
  from assms(1) show ?thesis
    by (cases rule: settle_windowE)
       (use assms(2) paid seq run next_seq div in \<open>auto simp: close_empty_window_def summarize_def commit_charge_def
         smod_nonneg Let_def split: if_splits\<close>)
qed

text \<open>The session after one more second, when the ledger accepts what is due.\<close>

lemma session_step:
  assumes m: "metered_session r i c a n v" and l: "te_ledger env = Some l"
    and tick: "tick_session s sid now i v env = Some (v', env', res)"
    and pos: "0 < r" "0 < i" "i < 2 ^ 63" "0 \<le> n" "0 \<le> c" and ids: "a \<noteq> []"
    and room: "60 * c + r * (n + 1) < 2 ^ 63" "CommittedDebitSeq v < 2 ^ 63 - 1"
    and paid: "i \<le> n mod i + 1 \<Longrightarrow> 0 < ((r * i * (n div i)) mod 60 + r * i) div 60 \<Longrightarrow>
      snd (snd (ChargeUsage l a sid (((r * i * (n div i)) mod 60 + r * i) div 60) (CommittedDebitSeq v + 1))) = None"
  shows "metered_session r i c a (n + 1) v' \<and> needPause env' = needPause env \<and>
    pauseIDs env' = pauseIDs env \<and> CommittedDebitSeq v \<le> CommittedDebitSeq v' \<and>
    CommittedDebitSeq v' \<le> CommittedDebitSeq v + (if n mod i + 1 < i then 0 else 1) \<and>
    BilledSeconds v' = add64 (BilledSeconds v) 1 \<and> counters_ok s v"
proof -
  have v: "State v = StateRunning" "PaymentStreamActive v" "AgentID v = a" "\<not> FundsChargeRetryPending v"
    "SecondsInDebitWindow v = n mod i" "RateUnitsPerMinute v = r" "0 \<le> CommittedDebitSeq v"
    "BillingNumerator v = (r * i * (n div i)) mod 60 + r * (n mod i)" "ChargedUnits v = c + window_units r i n"
    using m by (auto simp: metered_session_def)
  note cnt = metered_counters [OF m pos(1,2,4,5) room(1), of s, THEN conjunct1]
    and rate = metered_counters [OF m pos(1,2,4,5) room(1), of s, THEN conjunct2]
  let ?w = "accrue s (count_second v)"
  have w: "BillingNumerator ?w = BillingNumerator v + r" using accrue_worth [OF cnt] rate by simp
  have sec: "add64 (SecondsInDebitWindow v) 1 = n mod i + 1"
    unfolding v(5) by (rule add64_id, unfold i64_def)
      (use pos pos_mod_bound [of i n] pos_mod_sign [of i n] in linarith)
  have worth': "worth v' = 60 * c + r * (n + 1)"
    using tick_worth [OF tick cnt] metered_worth [OF m] v l rate ids
    by (simp add: accrues_def awaiting_retry_def distrib_left)
  have keep: "AgentID v' = a" "RateUnitsPerMinute v' = r"
    using change_tick [OF tick] v by (auto simp: change_ok_def)
  have fields: "State v' = StateRunning \<and> PaymentStreamActive v' \<and> \<not> FundsChargeRetryPending v' \<and>
      SecondsInDebitWindow v' = (n + 1) mod i \<and>
      BillingNumerator v' = (r * i * ((n + 1) div i)) mod 60 + r * ((n + 1) mod i) \<and>
      CommittedDebitSeq v \<le> CommittedDebitSeq v' \<and>
      CommittedDebitSeq v' \<le> CommittedDebitSeq v + (if n mod i + 1 < i then 0 else 1) \<and>
      needPause env' = needPause env \<and> pauseIDs env' = pauseIDs env \<and> BilledSeconds v' = add64 (BilledSeconds v) 1"
    using tick
  proof (cases rule: tick_sessionE)
    case (accrued l0)
    then have win: "n mod i + 1 < i" using sec by simp
    from accrued show ?thesis
      using v(1,2,4,5,8) w sec win by (simp add: same_window [OF pos(2) win] distrib_left)
  next
    case (settled l0)
    have win: "i \<le> n mod i + 1" using settled(6) sec by simp
    then have bn: "BillingNumerator ?w = (r * i * (n div i)) mod 60 + r * i"
      using w v(8) next_window(3) [OF pos(2) win] by (metis add.assoc distrib_left mult.right_neutral)
    then have bn0: "0 \<le> BillingNumerator ?w" using pos by simp
    have "snd (snd (ChargeUsage l0 (AgentID ?w) sid (BillingNumerator ?w div 60) (CommittedDebitSeq ?w + 1))) = None"
      if "0 < BillingNumerator ?w div 60"
      using paid [OF win] that settled(3) l v(3) by (simp add: bn)
    then show ?thesis
      using settle_paid [OF settled(7) bn0] v(1-4,7) room(2) win
      by (simp add: window_units_next(2) [OF pos(2) win, of r] next_window(2) [OF pos(2) win] bn)
  qed (use v l ids in \<open>auto simp: awaiting_retry_def\<close>)
  then have "worth v' - BillingNumerator v' = 60 * (c + window_units r i (n + 1))"
    unfolding window_units_def distrib_left units_and_rest [symmetric, of _ "r * ((n + 1) mod i)"]
    using worth' by (simp only: split_seconds)
  then have "ChargedUnits v' = c + window_units r i (n + 1)" by (simp add: worth_def)
  then show ?thesis
    using fields keep cnt v(7) by (auto simp: metered_session_def)
qed

lemma metered_step:
  assumes m: "metered r i c b a sid n v (te_ledger env)"
    and tick: "tick_session s sid now i v env = Some (v', env', res)"
    and pos: "0 < r" "0 < i" "i < 2 ^ 63" "0 \<le> n" "0 \<le> c"
    and ids: "a \<noteq> []" "sid \<noteq> []" "bar_free a" "bar_free sid"
    and room: "60 * c + r * (n + 1) < 2 ^ 63" "CommittedDebitSeq v < 2 ^ 63 - 1"
    and funds: "window_units r i (n + 1) \<le> b"
  shows "metered r i c b a sid (n + 1) v' (te_ledger env') \<and> needPause env' = needPause env \<and>
    pauseIDs env' = pauseIDs env \<and> CommittedDebitSeq v' \<le> CommittedDebitSeq v + 1 \<and>
    BilledSeconds v' = add64 (BilledSeconds v) 1"
proof -
  obtain l where l: "te_ledger env = Some l" "GetBalance l a = b - window_units r i n"
    "fresh_from l a sid (CommittedDebitSeq v)" and ms: "metered_session r i c a n v" using m by (auto simp: metered_def)
  have v: "AgentID v = a" "0 \<le> CommittedDebitSeq v" "ChargedUnits v = c + window_units r i n"
    using ms by (auto simp: metered_session_def)
  let ?u = "((r * i * (n div i)) mod 60 + r * i) div 60"
  have "snd (snd (ChargeUsage l a sid ?u (CommittedDebitSeq v + 1))) = None" if "i \<le> n mod i + 1" "0 < ?u"
    using window_units_next(1) [OF pos(2) that(1), of r] that(2) funds l(2) ids
    by (simp add: ChargeUsage_def Let_def GetBalance_def)
  note step = session_step [OF ms l(1) tick pos ids(1) room this]
  have ok: "debit_ok l sid v" using v(1,2) l(3) ids(3,4) room(2) by (simp add: debit_ok_def)
  obtain l' where l': "te_ledger env' = Some l'" "debit_step l l' sid v v'"
    using tick_debit [OF tick l(1) ok] step by blast
  have "GetBalance l a - GetBalance l' a = ChargedUnits v' - ChargedUnits v"
    "fresh_from l' a sid (CommittedDebitSeq v')"
    using l'(2) v(1) by (simp_all add: debit_step_def)
  moreover have "ChargedUnits v' = c + window_units r i (n + 1)" using step by (simp add: metered_session_def)
  ultimately show ?thesis using step l'(1) l(2) v(3) by (auto simp: metered_def split: if_splits)
qed

lemma window_units_mono: "0 < r \<Longrightarrow> 0 < i \<Longrightarrow> n \<le> m \<Longrightarrow> window_units r i n \<le> window_units r i m"
  by (simp add: window_units_def zdiv_mono1 mult_left_mono)

section \<open>One session in the loop\<close>

definition only_session :: "'n service \<Rightarrow> string \<Rightarrow> session \<Rightarrow> bool" where
  "only_session s sid v \<longleftrightarrow> sessions (store s) = [sid \<mapsto> v]"

lemma debit_interval_at_time [simp]: "debit_interval (at_time t s) = debit_interval s"
  by (simp add: at_time_def debit_interval_def)

lemma debit_interval_frame [simp]:
  "debit_interval (emit s call) = debit_interval s" "debit_interval (s\<lparr>store := x\<rparr>) = debit_interval s"
  "debit_interval (s\<lparr>ledger := y\<rparr>) = debit_interval s"
  by (simp_all add: emit_def debit_interval_def)

text \<open>A tick that pauses nothing, over a store with one session.\<close>

lemma only_tick:
  assumes "only_session s sid v" "debit_interval s = i"
    and tick: "tick_session (at_time t s) sid (nowTime (at_time t s)) i v
      \<lparr>te_ledger = ledger s, needPause = False, pauseRemainingBal = 0, summary = None, pauseIDs = []\<rparr> =
      Some (v', env', res)" "\<not> needPause env'" "pauseIDs env' = []"
  shows "\<exists>s'. runBillingTick nc [sid] (at_time t s) = Some s' \<and> only_session s' sid v' \<and>
    ledger s' = te_ledger env' \<and> debit_interval s' = i"
proof -
  let ?s = "at_time t s"
  let ?env = "\<lparr>te_ledger = ledger s, needPause = False, pauseRemainingBal = 0, summary = None, pauseIDs = []\<rparr>"
  have at: "store ?s = store s" "ledger ?s = ledger s" "debit_interval ?s = i"
    by (simp_all add: assms(2)) (simp_all add: at_time_def)
  have "Update (store s) sid (tick_session ?s sid (nowTime ?s) i) ?env =
      Some (store s\<lparr>sessions := [sid \<mapsto> v']\<rparr>, env', (case res of Inl e \<Rightarrow> Some e | Inr _ \<Rightarrow> None))"
    using Update_found [of "store s" sid v] tick(1) assms(1) by (simp add: only_session_def)
  then show ?thesis
    using tick(2,3) assms(2)
    by (auto simp: runBillingTick_def tick_one_def at only_session_def Let_def split: option.split)
qed

lemma metered_tick:
  assumes "only_session s sid v" "metered r i c b a sid n v (ledger s)" "debit_interval s = i"
    and pos: "0 < r" "0 < i" "i < 2 ^ 63" "0 \<le> n" "0 \<le> c"
    and ids: "a \<noteq> []" "sid \<noteq> []" "bar_free a" "bar_free sid"
    and room: "60 * c + r * (n + 1) < 2 ^ 63" "CommittedDebitSeq v < 2 ^ 63 - 1"
    and funds: "window_units r i (n + 1) \<le> b"
  shows "\<exists>s' v'. runBillingTick nc [sid] (at_time t s) = Some s' \<and> only_session s' sid v' \<and>
    metered r i c b a sid (n + 1) v' (ledger s') \<and> debit_interval s' = i \<and>
    CommittedDebitSeq v' \<le> CommittedDebitSeq v + 1 \<and> BilledSeconds v' = add64 (BilledSeconds v) 1"
proof -
  let ?env = "\<lparr>te_ledger = ledger s, needPause = False, pauseRemainingBal = 0, summary = None, pauseIDs = []\<rparr>"
  obtain v' env' res where
    tick: "tick_session (at_time t s) sid (nowTime (at_time t s)) i v ?env = Some (v', env', res)"
    by (metis not_None_eq prod_cases3 tick_session_def option.distinct(1))
  from assms(2) have "metered r i c b a sid n v (te_ledger ?env)" by simp
  from metered_step [OF this tick pos ids room funds]
  have m: "metered r i c b a sid (n + 1) v' (te_ledger env')" "\<not> needPause env'" "pauseIDs env' = []"
    "CommittedDebitSeq v' \<le> CommittedDebitSeq v + 1" "BilledSeconds v' = add64 (BilledSeconds v) 1"
    by auto
  from only_tick [OF assms(1,3) tick m(2,3), of nc] m show ?thesis by auto
qed

lemma metered_loop:
  assumes "only_session s sid v" "metered r i c b a sid n v (ledger s)" "debit_interval s = i"
    and pos: "0 < r" "0 < i" "i < 2 ^ 63" "0 \<le> n" "0 \<le> c"
    and ids: "a \<noteq> []" "sid \<noteq> []" "bar_free a" "bar_free sid"
    and "60 * c + r * (n + int (length ts)) < 2 ^ 63" "CommittedDebitSeq v + int (length ts) < 2 ^ 63"
    and "window_units r i (n + int (length ts)) \<le> b"
  shows "\<exists>s' v'. RunBillingLoop nc (map (\<lambda>t. Tick (t, [sid])) ts) s = Some (s', False) \<and>
    only_session s' sid v' \<and> metered r i c b a sid (n + int (length ts)) v' (ledger s')"
  using assms
proof (induction ts arbitrary: s v n)
  case Nil
  then show ?case by (auto simp: RunBillingLoop_def)
next
  case (Cons t ts)
  have n: "n + int (length (t # ts)) = n + 1 + int (length ts)" by simp
  have len: "0 \<le> int (length ts)" by simp
  have "r * (n + 1) \<le> r * (n + 1 + int (length ts))" using pos(1) by (intro mult_left_mono) auto
  then have room: "60 * c + r * (n + 1) < 2 ^ 63" using Cons.prems(13) unfolding n by linarith
  have seq: "CommittedDebitSeq v < 2 ^ 63 - 1" using Cons.prems(14) by simp
  have "window_units r i (n + 1) \<le> window_units r i (n + 1 + int (length ts))"
    using pos by (intro window_units_mono) auto
  then have funds: "window_units r i (n + 1) \<le> b" using Cons.prems(15) unfolding n by linarith
  from metered_tick [OF Cons.prems(1-8) ids room seq funds, of nc t] obtain s1 v1 where
    s1: "runBillingTick nc [sid] (at_time t s) = Some s1" "only_session s1 sid v1"
      "metered r i c b a sid (n + 1) v1 (ledger s1)" "debit_interval s1 = i"
      "CommittedDebitSeq v1 \<le> CommittedDebitSeq v + 1"
    by blast
  have "0 \<le> n + 1" "CommittedDebitSeq v1 + int (length ts) < 2 ^ 63"
    using Cons.prems(7,14) s1(5) by auto
  from Cons.IH [OF s1(2-4) pos(1-3) this(1) pos(5) ids _ this(2)] Cons.prems(13,15)
  show ?case using s1(1) unfolding n by (simp add: RunBillingLoop_def)
qed

section \<open>A charged run\<close>

text \<open>One unit per second, debited every second, for an agent with 1000 units.\<close>

definition metro_service :: "RecordingClient service" where
  "metro_service = NewService NewMemoryStore NewRecordingClient (Some []) 0 None 0
     [WithPrepaidLedger (Some (TestingSetBalance NewMemoryLedger ''a1'' 1000)), WithRateUnitsPerMinute 60,
      WithDebitIntervalSeconds 1]"

definition metro_started :: "RecordingClient service" where
  "metro_started = fst (the (Start recording_client
     (fst (Create metro_service (Some ''12345678'') ''a1'')) demo_sid))"

definition metro_tick :: "RecordingClient service \<Rightarrow> RecordingClient service" where
  "metro_tick s = the (runBillingTick recording_client [demo_sid] s)"

lemma metro_run:
  "map_option ChargedUnits (sessions (store (metro_tick metro_started)) demo_sid) = Some 1 \<and>
   map_option (\<lambda>l. GetBalance l ''a1'') (ledger (metro_tick metro_started)) = Some 999"
  by code_simp

lemma metro_facts:
  "ledger metro_started \<noteq> None \<and> sessions (store metro_started) demo_sid \<noteq> None \<and>
   credited (the (ledger metro_started)) = {} \<and> GetBalance (the (ledger metro_started)) ''a1'' = 1000 \<and>
   debit_interval metro_started = 1"
  by code_simp

lemma metro_session:
  "State (session_at metro_started) = StateRunning \<and> PaymentStreamActive (session_at metro_started) \<and>
   AgentID (session_at metro_started) = ''a1'' \<and> \<not> FundsChargeRetryPending (session_at metro_started) \<and>
   RateUnitsPerMinute (session_at metro_started) = 60 \<and> SecondsInDebitWindow (session_at metro_started) = 0 \<and>
   BillingNumerator (session_at metro_started) = 0 \<and> ChargedUnits (session_at metro_started) = 0 \<and>
   CommittedDebitSeq (session_at metro_started) = 0 \<and> effective_rate metro_started (session_at metro_started) = 60"
  by code_simp

lemma metro_ledger: "ledger metro_started = Some (the (ledger metro_started))"
  using metro_facts by simp

lemma metro_at: "sessions (store metro_started) demo_sid = Some (session_at metro_started)"
  using metro_facts by (simp add: session_at_def)

lemma metro_only: "dom (sessions (store metro_started)) = {demo_sid}"
proof -
  let ?c = "Create metro_service (Some ''12345678'') ''a1''"
  obtain s' r where start: "Start recording_client (fst ?c) demo_sid = Some (s', r)"
    using rec_client.Start_returns by (metis returnsE surj_pair)
  have "store metro_service = NewMemoryStore"
    by (simp add: metro_service_def NewService_def Let_def WithPrepaidLedger_def WithRateUnitsPerMinute_def
        WithDebitIntervalSeconds_def)
  moreover have "map_option ID (case snd ?c of Inl _ \<Rightarrow> None | Inr v \<Rightarrow> Some v) = Some demo_sid" by code_simp
  ultimately have "dom (sessions (store (fst ?c))) = {demo_sid}"
    using sessions_Create [of metro_service "Some ''12345678''" "''a1''" "fst ?c" "snd ?c"]
    by (auto simp: NewMemoryStore_def split: sum.splits)
  then show ?thesis using updated_dom [OF updated_Start [OF start]] start by (simp add: metro_started_def)
qed

lemma metro_counters: "counters_ok metro_started (session_at metro_started)"
  using metro_session by (simp add: counters_ok_def worth_def)

lemma metro_fresh: "fresh_from (the (ledger metro_started)) a sid n"
  using metro_facts by (simp add: fresh_from_def)

lemma demo_bar_free: "bar_free ''a1'' \<and> bar_free demo_sid"
  by code_simp

lemma metro_debits: "debits_ok metro_started demo_sid"
  using metro_session metro_ledger metro_at metro_counters metro_fresh demo_bar_free
  by (auto simp: debits_ok_def debit_ok_def)

lemma metro_tick_eq: "runBillingTick recording_client [demo_sid] metro_started = Some (metro_tick metro_started)"
  using rec_client.tick_returns [of "[demo_sid]" metro_started] by (simp add: metro_tick_def returns_def option.expand)

text \<open>The environment in which a tick runs over one session of a service.\<close>

definition env_of :: "'n service \<Rightarrow> tick_env" where
  "env_of s = \<lparr>te_ledger = ledger s, needPause = False, pauseRemainingBal = 0, summary = None, pauseIDs = []\<rparr>"

lemma tick_session_total:
  "tick_session s sid now i v env = Some (fst (the (tick_session s sid now i v env)),
     fst (snd (the (tick_session s sid now i v env))), snd (snd (the (tick_session s sid now i v env))))"
  by (simp add: tick_session_def)

section \<open>Properties\<close>

text \<open>
  C5: every second of service is metered exactly once.  A tick that counts towards the debit window
  adds the rate to sixty times the charged units plus the remainder, whether the window stays open,
  is charged, is worth nothing or is refused for lack of funds; any other tick adds nothing.
\<close>

theorem seconds_are_metered:
  assumes "tick_session s sid now i v env = Some (v', env', r)" "counters_ok s v"
  shows "60 * ChargedUnits v' + BillingNumerator v' = 60 * ChargedUnits v + BillingNumerator v +
    (if State v = StateRunning \<and> PaymentStreamActive v \<and> te_ledger env \<noteq> None \<and> AgentID v \<noteq> [] \<and>
        \<not> awaiting_retry now v then effective_rate s v else 0)"
  using tick_worth [OF assms] by (simp add: worth_def accrues_def)

theorem seconds_are_metered_witness:
  "\<exists>v' env' r. tick_session metro_started demo_sid 0 1 (session_at metro_started) (env_of metro_started) =
      Some (v', env', r) \<and> 60 * ChargedUnits v' + BillingNumerator v' = 60"
proof -
  let ?v = "session_at metro_started" and ?env = "env_of metro_started"
  note t = tick_session_total [of metro_started demo_sid 0 1 ?v ?env]
  have "te_ledger ?env \<noteq> None" "\<not> awaiting_retry 0 ?v"
    using metro_facts metro_session by (simp_all add: env_of_def awaiting_retry_def)
  then have "60 * ChargedUnits (fst (the (tick_session metro_started demo_sid 0 1 ?v ?env))) +
      BillingNumerator (fst (the (tick_session metro_started demo_sid 0 1 ?v ?env))) = 60"
    using seconds_are_metered [OF t metro_counters] metro_session by simp
  with t show ?thesis by blast
qed

text \<open>
  C7: a billing tick, in whatever order it visits the sessions, never raises a balance and never
  makes one negative.
\<close>

theorem tick_never_overdraws:
  assumes "runBillingTick nc order s = Some s'" "ledger s = Some l"
  shows "\<exists>l'. ledger s' = Some l' \<and>
    (\<forall>a. GetBalance l' a \<le> GetBalance l a \<and> (0 \<le> GetBalance l a \<longrightarrow> 0 \<le> GetBalance l' a))"
  using tick_ledger [OF assms(1)] assms(2) by (simp add: ledger_le_def)

theorem tick_never_overdraws_witness:
  "\<exists>l'. ledger (metro_tick metro_started) = Some l' \<and> GetBalance l' ''a1'' \<le> 1000 \<and> 0 \<le> GetBalance l' ''a1''"
  using tick_never_overdraws [OF metro_tick_eq metro_ledger] metro_facts
  by (metis zero_le_numeral)

text \<open>
  C4: what a tick takes from each agent is exactly what it adds to the charged units of the agent's
  sessions, as long as the debit buckets the sessions have yet to use were not charged before; and
  then they are still unused after the tick.
\<close>

theorem debits_match_charges:
  assumes "runBillingTick nc order s = Some s'" "ledger s = Some l" "distinct order"
    and "\<forall>sid \<in> set order. debits_ok s sid"
  shows "\<exists>l'. ledger s' = Some l' \<and>
    (\<forall>a. GetBalance l a - GetBalance l' a = (\<Sum>sid\<leftarrow>order. charged_to s' a sid - charged_to s a sid)) \<and>
    (\<forall>sid. fresh_session s sid \<longrightarrow> fresh_session s' sid)"
  using assms by (rule tick_debits)

theorem debits_match_charges_witness:
  "\<exists>l'. ledger (metro_tick metro_started) = Some l' \<and>
     1000 - GetBalance l' ''a1'' = charged_to (metro_tick metro_started) ''a1'' demo_sid"
proof -
  have zero: "charged_to metro_started ''a1'' demo_sid = 0" by code_simp
  have "distinct [demo_sid]" "\<forall>sid \<in> set [demo_sid]. debits_ok metro_started sid"
    using metro_debits by simp_all
  from debits_match_charges [OF metro_tick_eq metro_ledger this] obtain l' where
    l': "ledger (metro_tick metro_started) = Some l'"
    "\<forall>a. GetBalance (the (ledger metro_started)) a - GetBalance l' a =
       (\<Sum>sid\<leftarrow>[demo_sid]. charged_to (metro_tick metro_started) a sid - charged_to metro_started a sid)"
    by blast
  from l'(2) have "1000 - GetBalance l' ''a1'' = charged_to (metro_tick metro_started) ''a1'' demo_sid"
    using zero metro_facts by (elim allE [of _ "''a1''"]) simp
  with l'(1) show ?thesis by blast
qed

text \<open>
  C3: the price of \<open>n\<close> seconds.  Take a store with exactly one session, which runs with its stream active,
  begins a debit window (no seconds counted, no remainder, no refused charge to retry), has a positive
  rate of its own, and whose debit buckets after its counter have never been charged; a session that was
  started again after being charged does not satisfy the last condition (see
  \<open>restart_waives_window\<close>).  Its agent and session ids are not empty and free of the key separator, no
  counter reaches \<open>2 ^ 63\<close>, and the agent's balance covers the amount below.  Then after \<open>n\<close> ticks at any
  times, with nothing else happening in between, the session still runs and has been charged the whole
  units of the completed windows of \<open>i\<close> seconds at \<open>r\<close> units per minute, neither more nor less however the
  windows divide the minute; exactly this amount has left the agent's balance.
\<close>

theorem metering_closed_form:
  assumes "only_session s sid v" "ledger s = Some l" "debit_interval s = i"
    and "State v = StateRunning" "PaymentStreamActive v" "AgentID v = a" "\<not> FundsChargeRetryPending v"
    and "RateUnitsPerMinute v = r" "SecondsInDebitWindow v = 0" "BillingNumerator v = 0"
    and "0 < r" "0 < i" "i < 2 ^ 63" "a \<noteq> []" "sid \<noteq> []" "bar_free a" "bar_free sid"
    and "0 \<le> ChargedUnits v" "60 * ChargedUnits v + r * int (length ts) < 2 ^ 63"
    and "0 \<le> CommittedDebitSeq v" "CommittedDebitSeq v + int (length ts) < 2 ^ 63"
    and "fresh_from l a sid (CommittedDebitSeq v)"
    and "(r * i * (int (length ts) div i)) div 60 \<le> GetBalance l a"
  shows "\<exists>s' v' l'. RunBillingLoop nc (map (\<lambda>t. Tick (t, [sid])) ts) s = Some (s', False) \<and>
    only_session s' sid v' \<and> State v' = StateRunning \<and> ledger s' = Some l' \<and>
    ChargedUnits v' = ChargedUnits v + (r * i * (int (length ts) div i)) div 60 \<and>
    GetBalance l' a = GetBalance l a - (r * i * (int (length ts) div i)) div 60"
proof -
  have "metered r i (ChargedUnits v) (GetBalance l a) a sid 0 v (ledger s)"
    using assms by (simp add: metered_def metered_session_def window_units_def)
  from metered_loop [OF assms(1) this assms(3) assms(11-13) _ assms(18) assms(14-17), of ts nc] assms(19,21,23)
  show ?thesis by (fastforce simp: metered_def metered_session_def window_units_def)
qed

theorem metering_closed_form_witness:
  "\<exists>s' v' l'. RunBillingLoop recording_client [Tick (1, [demo_sid]), Tick (2, [demo_sid]), Tick (3, [demo_sid])]
       metro_started = Some (s', False) \<and>
     only_session s' demo_sid v' \<and> ledger s' = Some l' \<and> ChargedUnits v' = 3 \<and> GetBalance l' ''a1'' = 997"
proof -
  have "only_session metro_started demo_sid (session_at metro_started)"
    using metro_at metro_only by (auto simp: only_session_def dom_eq_singleton_conv)
  moreover have "demo_sid \<noteq> []" by (simp add: demo_sid_def)
  ultimately show ?thesis
    using metering_closed_form [of metro_started demo_sid "session_at metro_started" "the (ledger metro_started)"
      1 "''a1''" 60 "[1, 2, 3]" recording_client] metro_session metro_facts metro_ledger metro_fresh demo_bar_free
    by (auto simp: numeral_3_eq_3)
qed

end
