(* ===== verification/Accounting.thy ===== *)
theory Accounting
  imports Metering
begin

text \<open>
  The billing loop over time: the grace period before an automatic pause, the billing summaries, and
  what happens to the debit buckets when a paused session is started again.
\<close>

section \<open>The grace period\<close>

text \<open>
  The ticks one session sees: the time each reads from the clock, the environment in which it runs
  and the session before and after it.  What else happens between two ticks to the ledger is left
  open.
\<close>

record tick_seen =
  ts_now :: gotime
  ts_env :: tick_env
  ts_before :: session
  ts_after :: session

inductive ticked :: "'n service \<Rightarrow> string \<Rightarrow> int \<Rightarrow> session \<Rightarrow> tick_seen list \<Rightarrow> session \<Rightarrow> bool" for s sid i v where
  ticked_none: "ticked s sid i v [] v"
| ticked_one: "ticked s sid i v xs v1 \<Longrightarrow> tick_session s sid now i v1 env = Some (v2, env', r) \<Longrightarrow>
    ticked s sid i v (xs @ [\<lparr>ts_now = now, ts_env = env, ts_before = v1, ts_after = v2\<rparr>]) v2"

text \<open>
  The answer of the ledger to the charge that is due at a tick: \<open>Some None\<close> when it was accepted,
  \<open>Some (Some e)\<close> when it was refused with the error \<open>e\<close>, and \<open>None\<close> when the tick charges nothing (the
  session does not run or its stream is off, there is no ledger or agent, it waits for its retry, the
  window is not full, or it is worth less than a unit).
\<close>

definition debit :: "'n service \<Rightarrow> string \<Rightarrow> int \<Rightarrow> tick_seen \<Rightarrow> err option option" where
  "debit s sid i x =
     (let v = ts_before x; w = accrue s (count_second v); units = BillingNumerator w sdiv 60
      in case te_ledger (ts_env x) of
           None \<Rightarrow> None
         | Some l \<Rightarrow>
             if accrues (ts_now x) v (ts_env x) \<and> i \<le> SecondsInDebitWindow w \<and> 0 < units
             then Some (snd (snd (ChargeUsage l (AgentID v) sid units (add64 (CommittedDebitSeq v) 1))))
             else None)"

abbreviation refused :: "'n service \<Rightarrow> string \<Rightarrow> int \<Rightarrow> tick_seen \<Rightarrow> bool" where
  "refused s sid i x \<equiv> debit s sid i x = Some (Some ErrInsufficientFunds)"

text \<open>
  Between the refusal \<open>x\<close> and the next one: no charge is accepted or refused for lack of funds, none is
  tried within 60 seconds of \<open>x\<close>, and the session keeps running.
\<close>

definition grace_tick :: "'n service \<Rightarrow> string \<Rightarrow> int \<Rightarrow> tick_seen \<Rightarrow> tick_seen \<Rightarrow> bool" where
  "grace_tick s sid i x y \<longleftrightarrow> debit s sid i y \<noteq> Some None \<and> \<not> refused s sid i y \<and>
     (Unix (ts_now y) < Unix (ts_now x) + 60 \<longrightarrow> debit s sid i y = None) \<and> State (ts_after y) = StateRunning"

definition in_grace :: "'n service \<Rightarrow> string \<Rightarrow> int \<Rightarrow> tick_seen list \<Rightarrow> tick_seen \<Rightarrow> tick_seen list \<Rightarrow> bool" where
  "in_grace s sid i xs x mid \<longleftrightarrow> (\<exists>pre. xs = pre @ x # mid) \<and> refused s sid i x \<and>
     State (ts_after x) = StateRunning \<and> (\<forall>y \<in> set mid. grace_tick s sid i x y)"

definition paused_after_grace :: "'n service \<Rightarrow> string \<Rightarrow> int \<Rightarrow> tick_seen list \<Rightarrow> bool" where
  "paused_after_grace s sid i xs \<longleftrightarrow> (\<exists>us x mid y post. xs = us @ y # post \<and> in_grace s sid i us x mid \<and>
     refused s sid i y \<and> Unix (ts_now x) + 60 \<le> Unix (ts_now y) \<and>
     State (ts_before y) = StateRunning \<and> State (ts_after y) = StatePaused)"

definition grace_ok :: "'n service \<Rightarrow> string \<Rightarrow> int \<Rightarrow> tick_seen list \<Rightarrow> session \<Rightarrow> bool" where
  "grace_ok s sid i xs v \<longleftrightarrow>
     (State v = StateRunning \<and> (FundsChargeRetryPending v \<longrightarrow>
        (\<exists>x mid. in_grace s sid i xs x mid \<and> FundsRetryAtUnix v = Unix (ts_now x) + 60)) \<or>
      State v = StatePaused \<and> paused_after_grace s sid i xs)"

lemma debit_settled:
  assumes "State (ts_before x) = StateRunning" "PaymentStreamActive (ts_before x)" "te_ledger (ts_env x) = Some l"
    "AgentID (ts_before x) \<noteq> []" "\<not> awaiting_retry (ts_now x) (ts_before x)"
    "i \<le> add64 (SecondsInDebitWindow (ts_before x)) 1"
  shows "debit s sid i x =
    (let w = accrue s (count_second (ts_before x)); units = BillingNumerator w sdiv 60
     in if 0 < units then Some (snd (snd (ChargeUsage l (AgentID w) sid units (add64 (CommittedDebitSeq w) 1)))) else None)"
  using assms by (simp add: debit_def accrues_def Let_def)

text \<open>What a settled window does to the flag of the retry, by the answer of the ledger.\<close>

lemma settle_pending:
  assumes "settle_window s sid now l w env = (v', env', r)" "State w = StateRunning"
  defines "d \<equiv> if 0 < BillingNumerator w sdiv 60 then Some (snd (snd (ChargeUsage l (AgentID w) sid
      (BillingNumerator w sdiv 60) (add64 (CommittedDebitSeq w) 1)))) else None"
  shows "State v' = StateRunning \<and> \<not> FundsChargeRetryPending v' \<and> (d = None \<or> d = Some None) \<or>
    d = Some (Some ErrInsufficientFunds) \<and>
      (if FundsChargeRetryPending w then State v' = StatePaused
       else State v' = StateRunning \<and> FundsChargeRetryPending v' \<and> FundsRetryAtUnix v' = add64 (Unix now) 60) \<or>
    State v' = StateRunning \<and> FundsChargeRetryPending v' = FundsChargeRetryPending w \<and>
      FundsRetryAtUnix v' = FundsRetryAtUnix w \<and> (\<exists>e. d = Some (Some e) \<and> e \<noteq> ErrInsufficientFunds)"
  using assms(1)
  by (cases rule: settle_windowE)
     (use assms(2) in \<open>auto simp: d_def close_empty_window_def insufficient_funds_def summarize_def commit_charge_def
        Let_def split: if_splits\<close>)

lemma in_grace_snoc:
  "in_grace s sid i xs x mid \<Longrightarrow> grace_tick s sid i x y \<Longrightarrow> in_grace s sid i (xs @ [y]) x (mid @ [y])"
  by (auto simp: in_grace_def)

lemma in_grace_new: "refused s sid i x \<Longrightarrow> State (ts_after x) = StateRunning \<Longrightarrow> in_grace s sid i (xs @ [x]) x []"
  by (auto simp: in_grace_def)

lemma paused_after_grace_snoc: "paused_after_grace s sid i xs \<Longrightarrow> paused_after_grace s sid i (xs @ [y])"
  unfolding paused_after_grace_def by fastforce

text \<open>A tick that charges nothing and leaves the flag of the retry alone.\<close>

lemma grace_idle:
  assumes "grace_ok s sid i xs v" "debit s sid i x = None" "State v = StateRunning"
    "State (ts_after x) = StateRunning" "FundsChargeRetryPending (ts_after x) = FundsChargeRetryPending v"
    "FundsRetryAtUnix (ts_after x) = FundsRetryAtUnix v"
  shows "grace_ok s sid i (xs @ [x]) (ts_after x)"
proof (cases "FundsChargeRetryPending v")
  case True
  with assms obtain y mid where "in_grace s sid i xs y mid" "FundsRetryAtUnix v = Unix (ts_now y) + 60"
    by (auto simp: grace_ok_def)
  moreover have "grace_tick s sid i y x" using assms(2,4) by (simp add: grace_tick_def)
  ultimately show ?thesis using assms in_grace_snoc by (fastforce simp: grace_ok_def)
qed (use assms in \<open>simp add: grace_ok_def\<close>)

lemma grace_paused:
  assumes "grace_ok s sid i xs v" "State v \<noteq> StateRunning" "ts_after x = v"
  shows "grace_ok s sid i (xs @ [x]) (ts_after x)"
  using assms paused_after_grace_snoc by (auto simp: grace_ok_def)

lemma grace_settled:
  fixes x :: tick_seen
  assumes "grace_ok s sid i xs (ts_before x)"
    and "settle_window s sid (ts_now x) l (accrue s (count_second (ts_before x))) (ts_env x) = (ts_after x, env', r)"
    and run: "State (ts_before x) = StateRunning" "PaymentStreamActive (ts_before x)" "te_ledger (ts_env x) = Some l"
      "AgentID (ts_before x) \<noteq> []" "\<not> awaiting_retry (ts_now x) (ts_before x)"
      "i \<le> add64 (SecondsInDebitWindow (ts_before x)) 1"
    and "i64 (Unix (ts_now x) + 60)"
  shows "grace_ok s sid i (xs @ [x]) (ts_after x)"
proof -
  let ?w = "accrue s (count_second (ts_before x))"
  have d: "debit s sid i x = (if 0 < BillingNumerator ?w sdiv 60 then Some (snd (snd (ChargeUsage l (AgentID ?w) sid
      (BillingNumerator ?w sdiv 60) (add64 (CommittedDebitSeq ?w) 1)))) else None)"
    using debit_settled [OF run, of s sid] by (simp add: Let_def)
  have due: "Unix (ts_now y) + 60 \<le> Unix (ts_now x)"
    if "FundsChargeRetryPending (ts_before x)" "FundsRetryAtUnix (ts_before x) = Unix (ts_now y) + 60" for y
    using that run(5) by (simp add: awaiting_retry_def)
  have p: "FundsChargeRetryPending ?w = FundsChargeRetryPending (ts_before x)"
    "FundsRetryAtUnix ?w = FundsRetryAtUnix (ts_before x)" by simp_all
  have "State ?w = StateRunning" using run(1) by simp
  from settle_pending [OF assms(2) this, folded d, unfolded p] consider
    (paid) "State (ts_after x) = StateRunning" "\<not> FundsChargeRetryPending (ts_after x)"
  | (first) "refused s sid i x" "\<not> FundsChargeRetryPending (ts_before x)" "State (ts_after x) = StateRunning"
      "FundsRetryAtUnix (ts_after x) = add64 (Unix (ts_now x)) 60"
  | (again) "refused s sid i x" "FundsChargeRetryPending (ts_before x)" "State (ts_after x) = StatePaused"
  | (failed) e where "State (ts_after x) = StateRunning" "debit s sid i x = Some (Some e)" "e \<noteq> ErrInsufficientFunds"
      "FundsChargeRetryPending (ts_after x) = FundsChargeRetryPending (ts_before x)"
      "FundsRetryAtUnix (ts_after x) = FundsRetryAtUnix (ts_before x)"
    by (auto split: if_splits)
  then show ?thesis
  proof cases
    case paid
    then show ?thesis by (simp add: grace_ok_def)
  next
    case first
    then show ?thesis using in_grace_new assms(9) by (fastforce simp: grace_ok_def add64_id)
  next
    case again
    then obtain y mid where "in_grace s sid i xs y mid" "FundsRetryAtUnix (ts_before x) = Unix (ts_now y) + 60"
      using assms(1) run(1) by (auto simp: grace_ok_def)
    then show ?thesis using again run(1) due by (fastforce simp: grace_ok_def paused_after_grace_def)
  next
    case failed
    show ?thesis
    proof (cases "FundsChargeRetryPending (ts_before x)")
      case True
      then obtain y mid where y: "in_grace s sid i xs y mid" "FundsRetryAtUnix (ts_before x) = Unix (ts_now y) + 60"
        using assms(1) run(1) by (auto simp: grace_ok_def)
      then have "grace_tick s sid i y x" using failed due [OF True y(2)] by (simp add: grace_tick_def)
      then show ?thesis using failed y in_grace_snoc by (fastforce simp: grace_ok_def)
    qed (use failed in \<open>simp add: grace_ok_def\<close>)
  qed
qed

lemma tick_grace:
  assumes "tick_session s sid now i v env = Some (v', env', r)" "grace_ok s sid i xs v" "i64 (Unix now + 60)"
  shows "grace_ok s sid i (xs @ [\<lparr>ts_now = now, ts_env = env, ts_before = v, ts_after = v'\<rparr>]) v'"
proof -
  let ?x = "\<lparr>ts_now = now, ts_env = env, ts_before = v, ts_after = v'\<rparr>"
  have "grace_ok s sid i (xs @ [?x]) (ts_after ?x)"
    using assms(1)
  proof (cases rule: tick_sessionE)
    case idle
    show ?thesis
    proof (cases "State v = StateRunning")
      case True
      then have "debit s sid i ?x = None" using idle by (auto simp: debit_def accrues_def Let_def split: option.split)
      from grace_idle [OF assms(2) this True] show ?thesis using True idle(2) by simp
    qed (use grace_paused [OF assms(2), of ?x] idle(2) in simp)
  next
    case counted
    then have "debit s sid i ?x = None" by (auto simp: debit_def accrues_def Let_def split: option.split)
    from grace_idle [OF assms(2) this] show ?thesis using counted by simp
  next
    case (accrued l)
    then have "debit s sid i ?x = None" by (simp add: debit_def Let_def)
    from grace_idle [OF assms(2) this] show ?thesis using accrued by simp
  next
    case (settled l)
    then show ?thesis using assms(2,3) by (intro grace_settled [where l = l]) simp_all
  qed
  then show ?thesis by simp
qed

lemma ticked_grace:
  "ticked s sid i v xs v' \<Longrightarrow> grace_ok s sid i [] v \<Longrightarrow> \<forall>x \<in> set xs. i64 (Unix (ts_now x) + 60) \<Longrightarrow>
     grace_ok s sid i xs v'"
  by (induction rule: ticked.induct) (auto intro: tick_grace)

section \<open>Billing summaries\<close>

fun reported :: "string \<Rightarrow> hcs_call list \<Rightarrow> int" where
  "reported sid [] = 0"
| "reported sid (BillingSummary x args # calls) =
     (if x = sid then bs_AmountChargedUnits args else 0) + reported sid calls"
| "reported sid (_ # calls) = reported sid calls"

lemma reported_append [simp]: "reported sid (xs @ ys) = reported sid xs + reported sid ys"
  by (induction sid xs rule: reported.induct) auto

definition reports :: "'n service \<Rightarrow> string \<Rightarrow> int" where
  "reports s sid = (case hcs s of None \<Rightarrow> 0 | Some calls \<Rightarrow> reported sid calls)"

definition unreported :: "session option \<Rightarrow> int" where
  "unreported vo = (case vo of None \<Rightarrow> 0 | Some v \<Rightarrow> SummaryPendingUnits v - ChargedUnits v)"

text \<open>The units reported and pending, less those charged; counters wrap around together.\<close>

definition account :: "'n service \<Rightarrow> string \<Rightarrow> int" where
  "account s sid = wrap64 (reports s sid + unreported (sessions (store s) sid))"

definition accounts_kept :: "'n service \<Rightarrow> 'n service \<Rightarrow> bool" where
  "accounts_kept s s' \<longleftrightarrow> (hcs s = None \<longleftrightarrow> hcs s' = None) \<and>
     (hcs s \<noteq> None \<longrightarrow> (\<forall>sid. account s' sid = account s sid))"

lemma accounts_kept_refl [simp]: "accounts_kept s s"
  by (simp add: accounts_kept_def)

lemma accounts_kept_trans: "accounts_kept a b \<Longrightarrow> accounts_kept b c \<Longrightarrow> accounts_kept a c"
  by (auto simp: accounts_kept_def)

lemma wrap64_mod: "wrap64 x mod 2 ^ 64 = x mod 2 ^ 64"
  by (simp only: wrap64_def mod_diff_left_eq add_diff_cancel_right')

lemma wrap64_cong: "wrap64 x = wrap64 y \<longleftrightarrow> x mod 2 ^ 64 = y mod 2 ^ 64"
proof
  show "wrap64 x = wrap64 y \<Longrightarrow> x mod 2 ^ 64 = y mod 2 ^ 64"
    by (metis wrap64_mod)
  assume "x mod 2 ^ 64 = y mod 2 ^ 64"
  then have "(x + 2 ^ 63) mod 2 ^ 64 = (y + 2 ^ 63) mod 2 ^ 64"
    by (rule mod_add_cong) (rule refl)
  then show "wrap64 x = wrap64 y" by (simp only: wrap64_def)
qed

lemma wrap64_add: "wrap64 (x + wrap64 y) = wrap64 (x + y)"
  unfolding wrap64_cong by (rule mod_add_cong) (rule refl, rule wrap64_mod)

lemma wrap64_shift: "wrap64 (wrap64 (a + c) - wrap64 (b + c)) = wrap64 (a - b)"
proof -
  have "(wrap64 (a + c) - wrap64 (b + c)) mod 2 ^ 64 = (a + c - (b + c)) mod 2 ^ 64"
    by (rule mod_diff_cong) (rule wrap64_mod)+
  then show ?thesis by (simp only: wrap64_cong add_diff_cancel_right)
qed

lemma settle_account:
  assumes "settle_window s sid now l v env = (v', env', r)" "summary env = None"
  shows "wrap64 ((case summary env' of None \<Rightarrow> 0 | Some a \<Rightarrow> bs_AmountChargedUnits a) +
      (SummaryPendingUnits v' - ChargedUnits v')) = wrap64 (SummaryPendingUnits v - ChargedUnits v)"
  using assms(1)
  by (cases rule: settle_windowE)
     (use assms(2) in \<open>auto simp: close_empty_window_def insufficient_funds_def summarize_def commit_charge_def
        Let_def add64_def wrap64_shift split: if_splits\<close>)

lemma tick_account:
  assumes "tick_session s sid now i v env = Some (v', env', r)" "summary env = None"
  shows "wrap64 ((case summary env' of None \<Rightarrow> 0 | Some a \<Rightarrow> bs_AmountChargedUnits a) +
      (SummaryPendingUnits v' - ChargedUnits v')) = wrap64 (SummaryPendingUnits v - ChargedUnits v)"
  using assms(1)
proof (cases rule: tick_sessionE)
  case (settled l)
  with settle_account [OF settled(7) assms(2)] show ?thesis by simp
qed (use assms(2) in auto)

lemma reports_emit: "(\<And>x args. call \<noteq> BillingSummary x args) \<Longrightarrow> reports (emit s call) sid = reports s sid"
  by (cases call) (auto simp: reports_def emit_def split: option.split)

lemma hcs_emit [simp]: "hcs (emit s call) = None \<longleftrightarrow> hcs s = None"
  by (simp add: emit_def)

lemma hcs_recordActivity [simp]: "hcs (recordActivity s typ sid data) = hcs s"
  by (simp add: recordActivity_def split: option.split)

lemma tick_one_account:
  assumes "tick_one now s pids sid = Some (s', pids')"
  shows "accounts_kept s s'"
proof -
  let ?env = "\<lparr>te_ledger = ledger s, needPause = False, pauseRemainingBal = 0, summary = None, pauseIDs = pids\<rparr>"
  from assms obtain st' env r where u: "Update (store s) sid (tick_session s sid now (debit_interval s)) ?env =
      Some (st', env, r)"
    and s': "store s' = st'" "hcs s' = None \<longleftrightarrow> hcs s = None"
      "hcs s \<noteq> None \<Longrightarrow> reports s' x = reports s x + (case summary env of None \<Rightarrow> 0
          | Some a \<Rightarrow> if x = sid then bs_AmountChargedUnits a else 0)" for x
    by (fastforce simp: tick_one_def bind_eq_Some_conv Let_def emit_def reports_def split: option.splits if_splits)
  from u show ?thesis
  proof (cases rule: UpdateE)
    case missing
    with s' show ?thesis by (auto simp: accounts_kept_def account_def)
  next
    case (found v v' res)
    let ?e = "case summary env of None \<Rightarrow> 0 | Some a \<Rightarrow> bs_AmountChargedUnits a"
    have "wrap64 (?e + (SummaryPendingUnits v' - ChargedUnits v')) = wrap64 (SummaryPendingUnits v - ChargedUnits v)"
      using tick_account [OF found(2)] by simp
    then have "wrap64 (reports s sid + (?e + (SummaryPendingUnits v' - ChargedUnits v'))) =
        wrap64 (reports s sid + (SummaryPendingUnits v - ChargedUnits v))"
      by (metis wrap64_add)
    then have "account s' x = account s x" if "hcs s \<noteq> None" for x
      using s' that found by (auto simp: account_def unreported_def add.assoc split: option.split)
    with s'(2) show ?thesis by (simp add: accounts_kept_def)
  qed
qed

lemma tick_sessions_accounts:
  "tick_sessions now s pids sids = Some (s', pids') \<Longrightarrow> accounts_kept s s'"
proof (induction sids arbitrary: s pids)
  case (Cons sid sids)
  then obtain s1 p1 where "tick_one now s pids sid = Some (s1, p1)" "tick_sessions now s1 p1 sids = Some (s', pids')"
    by (auto simp: bind_eq_Some_conv)
  then show ?case using Cons.IH tick_one_account accounts_kept_trans by blast
qed simp

lemma reports_frame [simp]:
  "reports (s\<lparr>store := x\<rparr>) sid = reports s sid" "reports (s\<lparr>naryo := n\<rparr>) sid = reports s sid"
  "reports (s\<lparr>ledger := l\<rparr>) sid = reports s sid" "reports (recordActivity s typ y data) sid = reports s sid"
  by (simp_all add: reports_def)

text \<open>An operation that sends no summary and leaves the charges of every session alone.\<close>

definition silent :: "'n service \<Rightarrow> 'n service \<Rightarrow> bool" where
  "silent s s' \<longleftrightarrow> (hcs s' = None \<longleftrightarrow> hcs s = None) \<and> (\<forall>sid. reports s' sid = reports s sid)"

lemma silent_accounts:
  "silent s s' \<Longrightarrow> (\<And>sid. unreported (sessions (store s') sid) = unreported (sessions (store s) sid)) \<Longrightarrow>
     accounts_kept s s'"
  by (auto simp: silent_def accounts_kept_def account_def)

lemma updated_unreported:
  assumes "updated s x fn s'"
    and "\<And>v v' c c' r. fn v c = Some (v', c', r) \<Longrightarrow>
      SummaryPendingUnits v' - ChargedUnits v' = SummaryPendingUnits v - ChargedUnits v"
  shows "unreported (sessions s' sid) = unreported (sessions s sid)"
  using assms(1) unfolding updated_def
proof (elim disjE exE)
  fix c c' r
  assume "Update s x fn c = Some (s', c', r)"
  then show ?thesis by (cases rule: UpdateE) (auto simp: unreported_def assms(2))
qed simp

named_theorems charge_intros \<open>callbacks that leave the charges alone\<close>

lemma charge_start [charge_intros]: "start_session nc sid v c = Some (v', c', r) \<Longrightarrow>
    SummaryPendingUnits v' - ChargedUnits v' = SummaryPendingUnits v - ChargedUnits v"
  by (auto simp: start_session_def split: prod.splits if_splits option.splits sum.splits)

lemma charge_callbacks [charge_intros]:
  "stop_session v u = Some (v', u', r) \<Longrightarrow>
     SummaryPendingUnits v' - ChargedUnits v' = SummaryPendingUnits v - ChargedUnits v"
  "pause_session v u = Some (v', u', r) \<Longrightarrow>
     SummaryPendingUnits v' - ChargedUnits v' = SummaryPendingUnits v - ChargedUnits v"
  "resume_session v u = Some (v', u', r) \<Longrightarrow>
     SummaryPendingUnits v' - ChargedUnits v' = SummaryPendingUnits v - ChargedUnits v"
  "reconfigure_session patch v u = Some (v', u', r) \<Longrightarrow>
     SummaryPendingUnits v' - ChargedUnits v' = SummaryPendingUnits v - ChargedUnits v"
  "stream_session b v u = Some (v', u', r) \<Longrightarrow>
     SummaryPendingUnits v' - ChargedUnits v' = SummaryPendingUnits v - ChargedUnits v"
  by (auto simp: stop_session_def pause_session_def resume_session_def reconfigure_session_def
      stream_session_def split: if_splits)

lemma reports_rejectStart [simp]:
  "reports (rejectStart s sid a e) x = reports s x" "hcs (rejectStart s sid a e) = None \<longleftrightarrow> hcs s = None"
  by (simp_all add: rejectStart_def reports_emit)

named_theorems silent_intros \<open>operations that send no summary\<close>

lemma silent_Create [silent_intros]: "silent s (fst (Create s rnd a))"
  by (simp add: silent_def Create_def Let_def reports_emit split: option.split sum.split)

lemma silent_CreditTopUp [silent_intros]: "silent s (fst (CreditTopUp s args))"
  by (simp add: silent_def CreditTopUp_def reports_emit split: option.split prod.split)

lemma silent_Ingest [silent_intros]: "silent s (fst (IngestNaryoEvent s sid eid payload))"
  by (simp add: silent_def IngestNaryoEvent_def Let_def split: option.split prod.split)

definition quiet_result :: "'n service \<Rightarrow> 'n service \<times> err option \<Rightarrow> bool" where
  "quiet_result s x \<longleftrightarrow> silent s (fst x)"

lemma quiet_simps [simp]:
  "quiet_result s (s', r) \<longleftrightarrow> (hcs s' = None \<longleftrightarrow> hcs s = None) \<and> (\<forall>sid. reports s' sid = reports s sid)"
  by (simp add: quiet_result_def silent_def)

lemma quiet_operations:
  "on_return (quiet_result s) (Start nc s sid)" "on_return (quiet_result s) (Stop nc s sid)"
  "on_return (quiet_result s) (Pause nc s sid)" "on_return (quiet_result s) (Resume nc s sid)"
  "on_return (quiet_result s) (SetPaymentStreamActive s sid b)"
  unfolding Start_def Stop_def Pause_def Resume_def SetPaymentStreamActive_def Let_def
  by (auto simp: reports_emit intro!: on_return_bind split: option.split sum.split)

lemma quiet_Reconfigure: "on_return (quiet_result s) (Reconfigure s sid patch)"
  unfolding Reconfigure_def Let_def
  by (cases "patch = []")
     (auto simp: reports_emit Option.bind_assoc split_def intro!: on_return_bind split: option.split sum.split)

lemma silent_operations [silent_intros]:
  "Start nc s sid = Some (s', r) \<Longrightarrow> silent s s'" "Stop nc s sid = Some (s', r) \<Longrightarrow> silent s s'"
  "Pause nc s sid = Some (s', r) \<Longrightarrow> silent s s'" "Resume nc s sid = Some (s', r) \<Longrightarrow> silent s s'"
  "SetPaymentStreamActive s sid b = Some (s', r) \<Longrightarrow> silent s s'"
  "Reconfigure s sid patch = Some (s', r) \<Longrightarrow> silent s s'"
  using quiet_operations [THEN on_returnD] quiet_Reconfigure [THEN on_returnD]
  by (metis fst_conv quiet_result_def)+

lemma silent_pause_sessions: "pause_sessions nc s sids = Some s' \<Longrightarrow> silent s s'"
  by (induction sids arbitrary: s) (fastforce simp: silent_def bind_eq_Some_conv Let_def split: if_splits)+

lemma tick_accounts:
  assumes "runBillingTick nc order s = Some s'"
  shows "accounts_kept s s'"
proof -
  from assms obtain s1 pids where t: "tick_sessions (nowTime s) s [] order = Some (s1, pids)"
    and p: "pause_sessions nc s1 pids = Some s'"
    by (auto simp: runBillingTick_def bind_eq_Some_conv)
  have "accounts_kept s1 s'"
    using silent_pause_sessions [OF p] store_pause_sessions [OF p] by (intro silent_accounts) simp_all
  then show ?thesis using tick_sessions_accounts [OF t] accounts_kept_trans by blast
qed

lemma Create_unreported:
  assumes "newSessionID rnd = Inr sid" "sessions (store s) sid = None"
  shows "unreported (sessions (store (fst (Create s rnd a))) x) = unreported (sessions (store s) x)"
  using assms
  by (simp add: Create_def Let_def Put_def unreported_def split: option.split)

lemma charged_is_reported:
  assumes "account s sid = 0" "sessions (store s) sid = Some v"
  shows "wrap64 (reports s sid + SummaryPendingUnits v) = wrap64 (ChargedUnits v)"
proof -
  have "wrap64 (reports s sid + SummaryPendingUnits v - ChargedUnits v) = wrap64 0"
    using assms by (simp add: account_def unreported_def add_diff_eq wrap64_def [of 0])
  then have "(reports s sid + SummaryPendingUnits v - ChargedUnits v + ChargedUnits v) mod 2 ^ 64 =
      (0 + ChargedUnits v) mod 2 ^ 64"
    unfolding wrap64_cong by (rule mod_add_cong) (rule refl)
  then show ?thesis by (simp only: wrap64_cong) simp
qed

lemma svc_step_accounts: "svc_step nc s s' \<Longrightarrow> accounts_kept s s'"
proof (induction rule: svc_step.induct)
  case (create rnd sid s agent)
  then show ?case by (intro silent_accounts silent_intros Create_unreported)
next
  case (start s sid s' r)
  then show ?case
    by (intro silent_accounts updated_unreported [OF updated_Start]) (auto intro: silent_intros charge_intros)
next
  case (stop s sid s' r)
  then show ?case
    by (intro silent_accounts updated_unreported [OF updated_Stop]) (auto intro: silent_intros charge_intros)
next
  case (pause s sid s' r)
  then show ?case
    by (intro silent_accounts updated_unreported [OF updated_Pause]) (auto intro: silent_intros charge_intros)
next
  case (resume s sid s' r)
  then show ?case
    by (intro silent_accounts updated_unreported [OF updated_Resume]) (auto intro: silent_intros charge_intros)
next
  case (reconfigure s sid patch s' r)
  then show ?case
    by (intro silent_accounts updated_unreported [OF updated_Reconfigure]) (auto intro: silent_intros charge_intros)
next
  case (stream s sid b s' r)
  then show ?case
    by (intro silent_accounts updated_unreported [OF updated_Stream]) (auto intro: silent_intros charge_intros)
next
  case (tick s order s')
  then show ?case by (intro tick_accounts)
next
  case (clock s t)
  then show ?case by (simp add: accounts_kept_def account_def reports_def at_time_def)
qed (auto intro: silent_accounts silent_intros)

lemma run_accounts: "(svc_step nc)\<^sup>*\<^sup>* s s' \<Longrightarrow> accounts_kept s s'"
  by (induction rule: rtranclp_induct) (auto intro: accounts_kept_trans svc_step_accounts)

lemma metro_reachable: "(svc_step recording_client)\<^sup>*\<^sup>* metro_service (metro_tick metro_started)"
proof -
  have "newSessionID (Some ''12345678'') = Inr demo_sid" "sessions (store metro_service) demo_sid = None"
    by code_simp+
  then have create: "svc_step recording_client metro_service (fst (Create metro_service (Some ''12345678'') ''a1''))"
    by (rule svc_step.create)
  obtain s' r where "Start recording_client (fst (Create metro_service (Some ''12345678'') ''a1'')) demo_sid = Some (s', r)"
    using rec_client.Start_returns by (metis returnsE surj_pair)
  then have start: "svc_step recording_client (fst (Create metro_service (Some ''12345678'') ''a1'')) metro_started"
    by (auto simp: metro_started_def intro: svc_step.start)
  have "svc_step recording_client metro_started (metro_tick metro_started)"
    using metro_only by (intro svc_step.tick [OF _ metro_tick_eq]) (simp add: iteration_def)
  with create start show ?thesis by (meson converse_rtranclp_into_rtranclp rtranclp.rtrancl_refl)
qed

section \<open>Windows that were charged before a restart\<close>

lemma charged_bucket_free:
  assumes "chargeKey a sid b \<in> credited l"
  shows "fst (ChargeUsage l a sid n b) = l"
    "a \<noteq> [] \<Longrightarrow> sid \<noteq> [] \<Longrightarrow> 0 < n \<Longrightarrow> snd (snd (ChargeUsage l a sid n b)) = None"
  using assms by (simp_all add: ChargeUsage_def Let_def)

lemma tick_same_ledger:
  assumes tick: "tick_session s sid now i v env = Some (v', env', r)" and l: "te_ledger env = Some l"
    and free: "\<And>n. i \<le> add64 (SecondsInDebitWindow v) 1 \<Longrightarrow>
      fst (ChargeUsage l (AgentID v) sid n (add64 (CommittedDebitSeq v) 1)) = l"
  shows "te_ledger env' = Some l"
  using tick
proof (cases rule: tick_sessionE)
  case (settled l0)
  have same: "l' = l" if "ChargeUsage l (AgentID v) sid n (add64 (CommittedDebitSeq v) 1) = (l', rem, e)" for n l' rem e
    using free [OF settled(6), of n] that by simp
  have "l0 = l" using settled(3) l by simp
  with settled(7) have "settle_window s sid now l (accrue s (count_second v)) env = (v', env', r)" by simp
  then show ?thesis
    by (cases rule: settle_windowE)
       (use l in \<open>auto simp: insufficient_funds_def summarize_def Let_def dest!: same split: if_splits\<close>)
qed (use l in simp_all)

text \<open>The ledger has charged the buckets \<open>1\<close> to \<open>k\<close> of a session.\<close>

definition charged_buckets :: "MemoryLedger \<Rightarrow> string \<Rightarrow> string \<Rightarrow> int \<Rightarrow> bool" where
  "charged_buckets l a sid k \<longleftrightarrow> (\<forall>b. 1 \<le> b \<and> b \<le> k \<longrightarrow> chargeKey a sid b \<in> credited l)"

lemma waived_step:
  assumes m: "metered_session r i c a n v" "CommittedDebitSeq v \<le> n div i" and l: "te_ledger env = Some l"
    and tick: "tick_session s sid now i v env = Some (v', env', res)"
    and pos: "0 < r" "0 < i" "i < 2 ^ 63" "0 \<le> n" "0 \<le> c" and ids: "a \<noteq> []" "sid \<noteq> []"
    and room: "60 * c + r * (n + 1) < 2 ^ 63"
    and k: "charged_buckets l a sid k" "n + 1 \<le> k * i" "k < 2 ^ 63"
  shows "metered_session r i c a (n + 1) v' \<and> CommittedDebitSeq v' \<le> (n + 1) div i \<and> te_ledger env' = Some l \<and>
    needPause env' = needPause env \<and> pauseIDs env' = pauseIDs env"
proof -
  have v: "0 \<le> CommittedDebitSeq v" "SecondsInDebitWindow v = n mod i" "AgentID v = a"
    using m(1) by (auto simp: metered_session_def)
  have "n < k * i" using k(2) by linarith
  moreover have "n div i * i \<le> n" using pos(2) pos_mod_sign [of i n] by (simp add: minus_mod_eq_div_mult [symmetric])
  ultimately have "n div i * i < k * i" by linarith
  then have "n div i < k" using pos(2) by (simp add: mult_less_cancel_right_pos)
  then have seq: "CommittedDebitSeq v < 2 ^ 63 - 1" "CommittedDebitSeq v + 1 \<le> k" using m(2) k(3) by linarith+
  then have key: "chargeKey a sid (CommittedDebitSeq v + 1) \<in> credited l"
    using k(1) v(1) by (simp add: charged_buckets_def)
  have "add64 (CommittedDebitSeq v) 1 = CommittedDebitSeq v + 1"
    using v(1) seq(1) by (intro add64_id) (auto simp: i64_def)
  then have "te_ledger env' = Some l"
    using charged_bucket_free(1) [OF key] v(3) by (intro tick_same_ledger [OF tick l]) simp
  moreover note session_step [OF m(1) l tick pos ids(1) room seq(1) charged_bucket_free(2) [OF key ids]]
  moreover have "n div i + (if n mod i + 1 < i then 0 else 1) = (n + 1) div i"
    using same_window(1) [OF pos(2)] next_window(1) [OF pos(2)] by (cases "n mod i + 1 < i") simp_all
  ultimately show ?thesis using m(2) by auto
qed

lemma waived_loop:
  assumes "only_session s sid v" "ledger s = Some l" "debit_interval s = i"
    and "metered_session r i c a n v" "CommittedDebitSeq v \<le> n div i"
    and pos: "0 < r" "0 < i" "i < 2 ^ 63" "0 \<le> n" "0 \<le> c" and ids: "a \<noteq> []" "sid \<noteq> []"
    and "60 * c + r * (n + int (length ts)) < 2 ^ 63"
    and k: "charged_buckets l a sid k" "n + int (length ts) \<le> k * i" "k < 2 ^ 63"
  shows "\<exists>s' v'. RunBillingLoop nc (map (\<lambda>t. Tick (t, [sid])) ts) s = Some (s', False) \<and>
    only_session s' sid v' \<and> ledger s' = Some l \<and> metered_session r i c a (n + int (length ts)) v'"
  using assms
proof (induction ts arbitrary: s v n)
  case Nil
  then show ?case by (auto simp: RunBillingLoop_def)
next
  case (Cons t ts)
  have n: "n + int (length (t # ts)) = n + 1 + int (length ts)" by simp
  have len: "0 \<le> int (length ts)" by simp
  have "r * (n + 1) \<le> r * (n + 1 + int (length ts))" using pos(1) by (intro mult_left_mono) auto
  then have room: "60 * c + r * (n + 1) < 2 ^ 63" using Cons.prems(13) unfolding n by linarith
  have nk: "n + 1 \<le> k * i" using Cons.prems(15) len unfolding n by linarith
  let ?env = "\<lparr>te_ledger = ledger s, needPause = False, pauseRemainingBal = 0, summary = None, pauseIDs = []\<rparr>"
  obtain v1 env' res where
    tick: "tick_session (at_time t s) sid (nowTime (at_time t s)) i v ?env = Some (v1, env', res)"
    using tick_session_total by blast
  have "te_ledger ?env = Some l" using Cons.prems(2) by simp
  from waived_step [OF Cons.prems(4,5) this tick pos(1-3) Cons.prems(9) pos(5) ids room k(1) nk k(3)]
  have w: "metered_session r i c a (n + 1) v1" "CommittedDebitSeq v1 \<le> (n + 1) div i" "te_ledger env' = Some l"
    "\<not> needPause env'" "pauseIDs env' = []" by auto
  from only_tick [OF Cons.prems(1,3) tick w(4,5), of nc] w(3) obtain s1 where
    s1: "runBillingTick nc [sid] (at_time t s) = Some s1" "only_session s1 sid v1" "ledger s1 = Some l"
      "debit_interval s1 = i" by auto
  have "0 \<le> n + 1" using Cons.prems(9) by simp
  from Cons.IH [OF s1(2-4) w(1,2) pos(1-3) this pos(5) ids _ k(1) _ k(3)] Cons.prems(13,15)
  show ?case using s1(1) unfolding n by (simp add: RunBillingLoop_def)
qed

lemma debit_interval_recordActivity [simp]: "debit_interval (recordActivity s typ sid data) = debit_interval s"
  by (simp add: recordActivity_def debit_interval_def split: option.split)

lemma debit_interval_Start: "Start nc s sid = Some (s', None) \<Longrightarrow> debit_interval s' = debit_interval s"
  by (auto simp: Start_def bind_eq_Some_conv Let_def split: sum.splits option.splits)
     (simp_all add: debit_interval_def emit_def recordActivity_def split: option.split)

section \<open>Properties\<close>

text \<open>
  C8: a session is paused for lack of funds only after a grace period.  If it was running with no
  charge pending and the ticks leave it paused, then two consecutive refusals for lack of funds led
  there: at a tick \<open>x\<close> the charge was refused and the session went on running; at a tick \<open>y\<close>, at least
  60 seconds later, the charge was refused again and this tick paused it; in between no charge was
  accepted, none was even tried before the 60 seconds were over, and the session kept running.  This
  holds whatever else happened to the ledger between the ticks.
\<close>

theorem pause_after_grace:
  assumes "ticked s sid i v xs v'" "State v = StateRunning" "\<not> FundsChargeRetryPending v"
    and "State v' = StatePaused" "\<forall>x \<in> set xs. i64 (Unix (ts_now x) + 60)"
  shows "\<exists>pre x mid y post. xs = pre @ [x] @ mid @ [y] @ post \<and>
    debit s sid i x = Some (Some ErrInsufficientFunds) \<and> State (ts_after x) = StateRunning \<and>
    debit s sid i y = Some (Some ErrInsufficientFunds) \<and> State (ts_before y) = StateRunning \<and>
    State (ts_after y) = StatePaused \<and> Unix (ts_now x) + 60 \<le> Unix (ts_now y) \<and>
    (\<forall>z \<in> set mid. debit s sid i z \<noteq> Some None \<and> debit s sid i z \<noteq> Some (Some ErrInsufficientFunds) \<and>
       (Unix (ts_now z) < Unix (ts_now x) + 60 \<longrightarrow> debit s sid i z = None) \<and> State (ts_after z) = StateRunning)"
proof -
  have "grace_ok s sid i [] v" using assms(2,3) by (simp add: grace_ok_def)
  from ticked_grace [OF assms(1) this assms(5)] assms(4) obtain us x mid y post pre where
    "xs = us @ y # post" "us = pre @ x # mid" "refused s sid i x" "State (ts_after x) = StateRunning"
    "\<forall>z \<in> set mid. grace_tick s sid i x z" "refused s sid i y" "Unix (ts_now x) + 60 \<le> Unix (ts_now y)"
    "State (ts_before y) = StateRunning" "State (ts_after y) = StatePaused"
    by (auto simp: grace_ok_def paused_after_grace_def in_grace_def)
  then show ?thesis unfolding grace_tick_def by (intro exI [of _ pre] exI [of _ x] exI [of _ mid] exI [of _ y] exI [of _ post]) simp
qed

text \<open>An empty ledger refuses at time 0 and after 30 seconds nothing is tried; at 60 it pauses.\<close>

theorem pause_after_grace_witness:
  "\<exists>xs v'. ticked metro_started demo_sid 1 (session_at metro_started) xs v' \<and> State v' = StatePaused \<and>
     map ts_now xs = [0, 30 * 10 ^ 9, 60 * 10 ^ 9] \<and>
     (\<exists>x y. x \<in> set xs \<and> y \<in> set xs \<and> refused metro_started demo_sid 1 x \<and> refused metro_started demo_sid 1 y \<and>
        State (ts_after y) = StatePaused \<and> Unix (ts_now x) + 60 \<le> Unix (ts_now y))"
proof -
  let ?env = "(env_of metro_started)\<lparr>te_ledger := Some NewMemoryLedger\<rparr>"
  let ?next = "\<lambda>t v. fst (the (tick_session metro_started demo_sid t 1 v ?env))"
  let ?v = "session_at metro_started"
  let ?u = "?next 0 ?v"
  let ?w = "?next (30 * 10 ^ 9) ?u"
  let ?z = "?next (60 * 10 ^ 9) ?w"
  let ?xs = "[\<lparr>ts_now = 0, ts_env = ?env, ts_before = ?v, ts_after = ?u\<rparr>,
    \<lparr>ts_now = 30 * 10 ^ 9, ts_env = ?env, ts_before = ?u, ts_after = ?w\<rparr>,
    \<lparr>ts_now = 60 * 10 ^ 9, ts_env = ?env, ts_before = ?w, ts_after = ?z\<rparr>]"
  have "ticked metro_started demo_sid 1 ?v (([] @ [?xs ! 0]) @ [?xs ! 1]) ?w"
    unfolding nth_Cons_0 nth_Cons_numeral One_nat_def nth_Cons_Suc
    by (rule ticked_one [OF ticked_one [OF ticked_none tick_session_total] tick_session_total])
  from ticked_one [OF this tick_session_total [of _ _ "60 * 10 ^ 9" 1 _ ?env]]
  have t: "ticked metro_started demo_sid 1 ?v ?xs ?z" by simp
  have p: "State ?z = StatePaused" by code_simp
  have "\<forall>x \<in> set ?xs. i64 (Unix (ts_now x) + 60)"
    by (simp add: Unix_def i64_def)
  then obtain pre x mid y post where "?xs = pre @ [x] @ mid @ [y] @ post"
    "refused metro_started demo_sid 1 x" "refused metro_started demo_sid 1 y" "State (ts_after y) = StatePaused"
    "Unix (ts_now x) + 60 \<le> Unix (ts_now y)"
    using pause_after_grace [OF t] p metro_session by blast
  then have "x \<in> set ?xs" "y \<in> set ?xs" "refused metro_started demo_sid 1 x" "refused metro_started demo_sid 1 y"
    "State (ts_after y) = StatePaused" "Unix (ts_now x) + 60 \<le> Unix (ts_now y)" by (simp_all only: set_append) auto
  then show ?thesis using t p by (intro exI [of _ ?xs] exI [of _ ?z]) (auto simp del: set_simps)
qed

text \<open>
  C6: no charged unit is lost or reported twice.  In every state reachable from an empty store with
  an empty log, for every session, the amounts of the billing summaries sent and the amount still
  pending add up to the units charged (as 64-bit counters).
\<close>

theorem summaries_account_for_charges:
  assumes "store s = NewMemoryStore" "hcs s = Some []" "(svc_step nc)\<^sup>*\<^sup>* s s'"
    and "sessions (store s') sid = Some v"
  shows "wrap64 (reports s' sid + SummaryPendingUnits v) = wrap64 (ChargedUnits v)"
proof -
  have "account s sid = 0"
    using assms(1,2) by (simp add: account_def reports_def unreported_def NewMemoryStore_def wrap64_def)
  then have "account s' sid = 0" using run_accounts [OF assms(3)] assms(2) by (simp add: accounts_kept_def)
  then show ?thesis using assms(4) by (rule charged_is_reported)
qed

theorem summaries_account_for_charges_witness:
  "wrap64 (reports (metro_tick metro_started) demo_sid +
     SummaryPendingUnits (session_at (metro_tick metro_started))) = 1"
proof -
  have "store metro_service = NewMemoryStore" "hcs metro_service = Some []" by (simp_all add: metro_service_def NewService_def Let_def
      WithPrepaidLedger_def WithRateUnitsPerMinute_def WithDebitIntervalSeconds_def)
  moreover have "(svc_step recording_client)\<^sup>*\<^sup>* metro_service (metro_tick metro_started)"
    by (rule metro_reachable)
  moreover have "sessions (store (metro_tick metro_started)) demo_sid = Some (session_at (metro_tick metro_started))"
    using metro_run by (auto simp: session_at_def)
  ultimately have "wrap64 (reports (metro_tick metro_started) demo_sid +
      SummaryPendingUnits (session_at (metro_tick metro_started))) =
      wrap64 (ChargedUnits (session_at (metro_tick metro_started)))"
    by (rule summaries_account_for_charges)
  also have "ChargedUnits (session_at (metro_tick metro_started)) = 1"
    using metro_run by (auto simp: session_at_def)
  finally show ?thesis by (simp add: wrap64_def)
qed

text \<open>
  C15: a restart gives away the windows that were paid before it.  \<open>Start\<close> sets the counter of debit
  buckets to 0 while the ledger remembers the buckets it has charged.  So when the only session of the
  store is started again (after a pause) and its first \<open>k\<close> buckets were charged before, every charge that
  falls due in its next \<open>k\<close> windows is reported as accepted and takes nothing: the session runs, its
  charged units grow by the full price of the completed windows, as in \<open>metering_closed_form\<close>, and the
  ledger stays exactly as it was, whatever the balance is.
\<close>

theorem restart_waives_window:
  assumes "only_session s sid v" "ledger s = Some l" "debit_interval s = i"
    and "Start nc s sid = Some (s1, None)"
    and "\<forall>b. 1 \<le> b \<and> b \<le> k \<longrightarrow> chargeKey (AgentID v) sid b \<in> credited l"
    and "int (length ts) \<le> k * i" "k < 2 ^ 63"
    and "RateUnitsPerMinute v = r" "0 < r" "0 < i" "i < 2 ^ 63" "AgentID v \<noteq> []" "sid \<noteq> []"
    and "0 \<le> ChargedUnits v" "60 * ChargedUnits v + r * int (length ts) < 2 ^ 63"
  shows "\<exists>s2 v2. RunBillingLoop nc (map (\<lambda>t. Tick (t, [sid])) ts) s1 = Some (s2, False) \<and>
    only_session s2 sid v2 \<and> State v2 = StateRunning \<and> ledger s2 = Some l \<and>
    ChargedUnits v2 = ChargedUnits v + (r * i * (int (length ts) div i)) div 60"
proof -
  obtain v0 n' op where st: "startable nc s sid v0 n' op" using Start_success [OF assms(4)] by blast
  have v0: "v0 = v" using st assms(1) by (simp add: startable_def only_session_def)
  let ?v1 = "v\<lparr>State := StateRunning, PaymentStreamActive := True, LastNaryoOpID := op, BillingNumerator := 0,
        SecondsInDebitWindow := 0, CommittedDebitSeq := 0, FundsChargeRetryPending := False,
        FundsRetryAtUnix := 0, AutoPausedForFunds := False\<rparr>"
  have "ledger s1 = Some l" "sessions (store s1) = (sessions (store s))(sid \<mapsto> ?v1)"
    using Start_startable [OF st] assms(2,4) v0 by auto
  then have s1: "only_session s1 sid ?v1" "ledger s1 = Some l" "debit_interval s1 = i"
    using assms(1,3) debit_interval_Start [OF assms(4)] by (simp_all add: only_session_def)
  have m: "metered_session r i (ChargedUnits v) (AgentID v) 0 ?v1" "CommittedDebitSeq ?v1 \<le> 0 div i"
    using assms(8) by (simp_all add: metered_session_def window_units_def)
  have k: "charged_buckets l (AgentID v) sid k" using assms(5) by (simp add: charged_buckets_def)
  from waived_loop [OF s1 m assms(9-11) _ assms(14,12,13) _ k _ assms(7), of ts nc] assms(6,15)
  show ?thesis by (fastforce simp: metered_session_def window_units_def)
qed

text \<open>Paused after one charged second and started again, the next second is free.\<close>

definition metro_paused :: "RecordingClient service" where
  "metro_paused = fst (the (Pause recording_client (metro_tick metro_started) demo_sid))"

lemma metro_paused_only: "only_session metro_paused demo_sid (session_at metro_paused)"
proof -
  obtain s' r where p: "Pause recording_client (metro_tick metro_started) demo_sid = Some (s', r)"
    using rec_client.Pause_returns by (metis returnsE surj_pair)
  have "dom (sessions (store (metro_tick metro_started))) = {demo_sid}"
    using tick_dom [OF metro_tick_eq] metro_only by simp
  then have "dom (sessions (store metro_paused)) = {demo_sid}"
    using updated_dom [OF updated_Pause [OF p]] p by (simp add: metro_paused_def)
  then show ?thesis by (auto simp: only_session_def session_at_def dom_eq_singleton_conv)
qed

lemma metro_paused_facts:
  "ChargedUnits (session_at metro_paused) = 1 \<and> RateUnitsPerMinute (session_at metro_paused) = 60 \<and>
   AgentID (session_at metro_paused) = ''a1'' \<and> State (session_at metro_paused) = StatePaused \<and>
   ledger metro_paused \<noteq> None \<and> debit_interval metro_paused = 1 \<and>
   chargeKey ''a1'' demo_sid 1 \<in> credited (the (ledger metro_paused)) \<and>
   map_option snd (Start recording_client metro_paused demo_sid) = Some None"
  by code_simp

theorem restart_waives_window_witness:
  "\<exists>s1 s2 v2. Start recording_client metro_paused demo_sid = Some (s1, None) \<and>
     RunBillingLoop recording_client [Tick (5, [demo_sid])] s1 = Some (s2, False) \<and>
     only_session s2 demo_sid v2 \<and> ledger s2 = ledger metro_paused \<and>
     ChargedUnits (session_at metro_paused) = 1 \<and> ChargedUnits v2 = 2"
proof -
  obtain s1 where s1: "Start recording_client metro_paused demo_sid = Some (s1, None)"
    using metro_paused_facts by (auto split: option.splits)
  have l: "ledger metro_paused = Some (the (ledger metro_paused))" using metro_paused_facts by simp
  have "\<forall>b. 1 \<le> b \<and> b \<le> 1 \<longrightarrow> chargeKey (AgentID (session_at metro_paused)) demo_sid b \<in>
      credited (the (ledger metro_paused))"
    using metro_paused_facts by (auto dest: antisym)
  moreover have "demo_sid \<noteq> []" by (simp add: demo_sid_def)
  ultimately show ?thesis
    using restart_waives_window [OF metro_paused_only l _ s1, of 1 1 "[5]" 60] metro_paused_facts l s1
    by auto
qed

end
