(* ===== verification/Config.thy ===== *)
theory Config
  imports Prelude
begin

text \<open>
  Configuration from the environment: \<^verbatim>\<open>internal/config/prepaid.go\<close>, \<^verbatim>\<open>hedera.go\<close>,
  \<^verbatim>\<open>naryo.go\<close> and \<^verbatim>\<open>x402.go\<close>.
\<close>

section \<open>Reading variables\<close>

text \<open>\<open>os.Getenv\<close>: an unset variable reads as the empty string.\<close>

type_synonym env = "string \<Rightarrow> string"

definition getEnv :: "env \<Rightarrow> string \<Rightarrow> string" where
  "getEnv env key = TrimSpace (env key)"

definition getEnvDefault :: "env \<Rightarrow> string \<Rightarrow> string \<Rightarrow> string" where
  "getEnvDefault env key def = (let v = getEnv env key in if v \<noteq> [] then v else def)"

definition truthy :: "string \<Rightarrow> bool" where
  "truthy v \<longleftrightarrow> v = ''1'' \<or> EqualFold v ''true'' \<or> EqualFold v ''yes''"

text \<open>An integer variable that must reach \<open>least\<close>; 0 stands for unset or invalid.\<close>

definition env_int :: "env \<Rightarrow> string \<Rightarrow> int \<Rightarrow> int" where
  "env_int env key least =
     (let v = getEnv env key
      in if v = [] then 0
         else case ParseInt v of None \<Rightarrow> 0 | Some n \<Rightarrow> if n < least then 0 else n)"

section \<open>Prepaid settings\<close>

definition PrepaidDevAutoCreditUnits :: "env \<Rightarrow> int" where
  "PrepaidDevAutoCreditUnits env = env_int env ''PREPAID_DEV_AUTO_CREDIT_UNITS'' 1"

definition PrepaidRateUnitsPerMinute :: "env \<Rightarrow> int" where
  "PrepaidRateUnitsPerMinute env = env_int env ''PREPAID_RATE_UNITS_PER_MINUTE'' 1"

definition PrepaidDebitIntervalSeconds :: "env \<Rightarrow> int" where
  "PrepaidDebitIntervalSeconds env = env_int env ''PREPAID_DEBIT_INTERVAL_SECONDS'' 1"

definition PrepaidMinStartMinutes :: "env \<Rightarrow> int" where
  "PrepaidMinStartMinutes env = env_int env ''PREPAID_MIN_START_MINUTES'' 1"

section \<open>Hedera settings\<close>

record Hedera =
  Enabled :: bool
  Network :: string
  OperatorAccountID :: string
  OperatorPrivateKey :: string
  ServiceAccountID :: string
  AuditTopicID :: string
  HSummaryWindowMinutes :: int
  SkipTopupVerify :: bool

definition clampSummaryWindow :: "int \<Rightarrow> int" where
  "clampSummaryWindow n = (if n < 5 then 5 else if 15 < n then 15 else n)"

definition LoadHederaFromEnv :: "env \<Rightarrow> Hedera" where
  "LoadHederaFromEnv env =
     (let h0 = \<lparr>Enabled = False, Network = getEnvDefault env ''HEDERA_NETWORK'' ''testnet'',
               OperatorAccountID = getEnv env ''HEDERA_OPERATOR_ID'',
               OperatorPrivateKey = getEnv env ''HEDERA_OPERATOR_KEY'',
               ServiceAccountID = getEnv env ''HEDERA_SERVICE_ACCOUNT_ID'',
               AuditTopicID = getEnv env ''HEDERA_AUDIT_TOPIC_ID'',
               HSummaryWindowMinutes = 10, SkipTopupVerify = False\<rparr>;
          v1 = getEnv env ''HEDERA_ENABLED'';
          h1 = h0\<lparr>Enabled := (if v1 \<noteq> [] then truthy v1
                  else AuditTopicID h0 \<noteq> [] \<and> OperatorAccountID h0 \<noteq> [] \<and> OperatorPrivateKey h0 \<noteq> [])\<rparr>;
          v2 = getEnv env ''HEDERA_SUMMARY_WINDOW_MINUTES'';
          h2 = (if v2 \<noteq> []
                then (case ParseInt v2 of None \<Rightarrow> h1 | Some n \<Rightarrow> h1\<lparr>HSummaryWindowMinutes := clampSummaryWindow n\<rparr>)
                else h1\<lparr>HSummaryWindowMinutes := clampSummaryWindow (HSummaryWindowMinutes h1)\<rparr>);
          v3 = getEnv env ''HEDERA_SKIP_TOPUP_VERIFY''
      in if v3 \<noteq> [] then h2\<lparr>SkipTopupVerify := truthy v3\<rparr> else h2)"

section \<open>Naryo settings\<close>

definition NaryoIngestSecret :: "env \<Rightarrow> string" where
  "NaryoIngestSecret env = env ''NARYO_INGEST_SECRET''"

definition NaryoConfigAPIBaseURL :: "env \<Rightarrow> string" where
  "NaryoConfigAPIBaseURL env = TrimRight (getEnv env ''NARYO_CONFIG_API_BASE'') (CHR ''/'')"

definition NaryoPlatformIngestURL :: "env \<Rightarrow> string" where
  "NaryoPlatformIngestURL env = TrimRight (getEnv env ''NARYO_PLATFORM_INGEST_URL'') (CHR ''/'')"

definition NaryoBroadcasterDestPath :: "env \<Rightarrow> string" where
  "NaryoBroadcasterDestPath env = getEnvDefault env ''NARYO_BROADCASTER_DEST_PATH'' ''/internal/naryo/v1/events''"

definition NaryoBroadcasterConfigurationID :: "env \<Rightarrow> string" where
  "NaryoBroadcasterConfigurationID env = getEnv env ''NARYO_BROADCASTER_CONFIGURATION_ID''"

definition NaryoSkipEgressProvision :: "env \<Rightarrow> bool" where
  "NaryoSkipEgressProvision env = truthy (getEnv env ''NARYO_SKIP_EGRESS_PROVISION'')"

definition NaryoHederaNodeID :: "env \<Rightarrow> string" where
  "NaryoHederaNodeID env = getEnvDefault env ''NARYO_HEDERA_NODE_ID'' ''7f3b8e1a-4d2c-4b9a-8e5f-1a2b3c4d5e6f''"

definition NaryoEthereumNodeID :: "env \<Rightarrow> string" where
  "NaryoEthereumNodeID env = getEnvDefault env ''NARYO_ETHEREUM_NODE_ID'' ''eadc75b2-4217-4018-95af-f67c13058976''"

definition NaryoDefaultHCSTopicID :: "env \<Rightarrow> string" where
  "NaryoDefaultHCSTopicID env = getEnv env ''NARYO_DEFAULT_HCS_TOPIC_ID''"

definition NaryoAllowAllBroadcasterFallback :: "env \<Rightarrow> bool" where
  "NaryoAllowAllBroadcasterFallback env =
     (let v = getEnv env ''NARYO_ALLOW_ALL_BROADCASTER_FALLBACK'' in v = [] \<or> truthy v)"

section \<open>x402 settings\<close>

record X402 =
  FacilitatorURL :: string
  PayTo :: string
  XNetwork :: string
  Price :: string
  StartRunwaySeconds :: int

text \<open>The default facilitator is a constant of the x402 package, a parameter here.\<close>

definition LoadX402FromEnv :: "string \<Rightarrow> env \<Rightarrow> X402" where
  "LoadX402FromEnv defaultFacilitatorURL env =
     \<lparr>FacilitatorURL = getEnvDefault env ''X402_FACILITATOR_URL'' defaultFacilitatorURL,
      PayTo = getEnvDefault env ''X402_PAY_TO'' ''0x0000000000000000000000000000000000000000'',
      XNetwork = getEnvDefault env ''X402_NETWORK'' ''eip155:84532'',
      Price = getEnvDefault env ''X402_PRICE'' ''$0.00017'',
      StartRunwaySeconds =
        (let n = env_int env ''X402_START_RUNWAY_SECONDS'' 1 in if n = 0 then 300 else n)\<rparr>"

section \<open>What the settings guarantee\<close>

lemma env_int_bounds: "0 < least \<Longrightarrow> env_int env key least = 0 \<or> least \<le> env_int env key least"
  by (auto simp: env_int_def Let_def split: option.split)

lemma env_int_i64: "i64 (env_int env key least)"
  by (auto simp: env_int_def Let_def ParseInt_def i64_def split: option.splits if_splits)

lemma env_int_reads:
  assumes "getEnv env key = dec_int n" "i64 n" "least \<le> n"
  shows "env_int env key least = n"
proof -
  have "ParseInt (dec_int n) = Some n" using assms(2) by (rule ParseInt_dec_int)
  moreover from this have "dec_int n \<noteq> []" by (auto simp: ParseInt_def)
  ultimately show ?thesis using assms by (simp add: env_int_def Let_def)
qed

lemma clamp_bounds: "5 \<le> clampSummaryWindow n \<and> clampSummaryWindow n \<le> 15"
  by (simp add: clampSummaryWindow_def)

section \<open>Properties\<close>

text \<open>
  Whatever the environment holds, the settings are in range: the summary window lies between 5
  and 15 minutes, the start runway is positive, the prepaid settings are 0 (use the default) or
  positive 64-bit integers, and top-up verification is only skipped when the variable asks for it.
\<close>

lemma settings_in_range:
  "5 \<le> HSummaryWindowMinutes (LoadHederaFromEnv env) \<and> HSummaryWindowMinutes (LoadHederaFromEnv env) \<le> 15 \<and>
   0 < StartRunwaySeconds (LoadX402FromEnv d env) \<and>
   0 \<le> PrepaidRateUnitsPerMinute env \<and> i64 (PrepaidRateUnitsPerMinute env) \<and>
   0 \<le> PrepaidDebitIntervalSeconds env \<and> 0 \<le> PrepaidMinStartMinutes env \<and>
   (SkipTopupVerify (LoadHederaFromEnv env) = truthy (getEnv env ''HEDERA_SKIP_TOPUP_VERIFY''))"
proof -
  have "5 \<le> HSummaryWindowMinutes (LoadHederaFromEnv env)" "HSummaryWindowMinutes (LoadHederaFromEnv env) \<le> 15"
    using clamp_bounds by (auto simp: LoadHederaFromEnv_def Let_def split: option.split)
  moreover have "0 < StartRunwaySeconds (LoadX402FromEnv d env)"
    using env_int_bounds [of 1 env "''X402_START_RUNWAY_SECONDS''"] by (auto simp: LoadX402FromEnv_def Let_def)
  moreover have "0 \<le> env_int env k 1" for k
    using env_int_bounds [of 1 env k] by auto
  moreover have "\<not> truthy []" by (simp add: truthy_def EqualFold_def ToLower_def)
  then have "SkipTopupVerify (LoadHederaFromEnv env) = truthy (getEnv env ''HEDERA_SKIP_TOPUP_VERIFY'')"
    by (auto simp: LoadHederaFromEnv_def Let_def split: option.split)
  ultimately show ?thesis
    by (simp add: PrepaidRateUnitsPerMinute_def PrepaidDebitIntervalSeconds_def PrepaidMinStartMinutes_def env_int_i64)
qed

end
