(* ===== verification/Naryo_Plan.thy ===== *)
theory Naryo_Plan
  imports Config Go_Values
begin

text \<open>
  What a session asks Naryo to listen to: \<^verbatim>\<open>internal/naryo/pipeline_filter_plan.go\<close> and the
  filter name of \<^verbatim>\<open>http_client_filter.go\<close>.  The session's configuration is decoded JSON.
\<close>

section \<open>Reading the subscriptions\<close>

definition extractSubscriptionsArray :: "obj \<Rightarrow> obj list" where
  "extractSubscriptionsArray cfg =
     (case as_object (field cfg ''eventSubscriptions'') of
        None \<Rightarrow> []
      | Some m \<Rightarrow>
          (case as_array (field m ''subscriptions'') of
             None \<Rightarrow> []
           | Some arr \<Rightarrow> List.map_filter as_object arr))"

definition stringField :: "obj \<Rightarrow> string \<Rightarrow> string" where
  "stringField m k =
     (case field m k of
        ANil \<Rightarrow> []
      | AStr x \<Rightarrow> x
      | ANumber x \<Rightarrow> TrimSpace x
      | AFloat x \<Rightarrow> TrimSpace (fmt_fixed 0 x)
      | v \<Rightarrow> TrimSpace (sprint v))"

definition subscriptionKind :: "obj \<Rightarrow> string" where
  "subscriptionKind m = TrimSpace (stringField m ''kind'')"

definition normalizeEVMAddress :: "string \<Rightarrow> string" where
  "normalizeEVMAddress s =
     (let s = TrimSpace (ToLower s)
      in if s = [] then [] else if \<not> HasPrefix s ''0x'' then ''0x'' @ s else s)"

section \<open>The plan\<close>

record pipelineFilterPlan =
  UseALLFallback :: bool
  Reason :: string
  Key :: string
  HederaTopicID :: string
  EVMContract :: string
  EVMFromFilterUnmet :: bool

definition empty_plan :: pipelineFilterPlan where
  "empty_plan = \<lparr>UseALLFallback = False, Reason = [], Key = [], HederaTopicID = [], EVMContract = [],
     EVMFromFilterUnmet = False\<rparr>"

definition hedera_plan :: "string \<Rightarrow> pipelineFilterPlan" where
  "hedera_plan tid = empty_plan\<lparr>Key := ''H:'' @ tid, HederaTopicID := tid\<rparr>"

definition evm_plan :: "string \<Rightarrow> string \<Rightarrow> pipelineFilterPlan" where
  "evm_plan ca frm = empty_plan\<lparr>Key := ''E:'' @ ca, EVMContract := ca, EVMFromFilterUnmet := frm \<noteq> []\<rparr>"

definition valid_topic :: "string \<Rightarrow> bool" where
  "valid_topic tid \<longleftrightarrow> tid \<noteq> [] \<and> tid \<noteq> ''0.0.0''"

text \<open>The two loops over the subscriptions.\<close>

fun first_topic :: "obj list \<Rightarrow> pipelineFilterPlan option" where
  "first_topic [] = None"
| "first_topic (s # subs) =
     (if subscriptionKind s \<noteq> ''hedera_hcs_topic'' then first_topic subs
      else let tid = TrimSpace (stringField s ''topicId'')
           in if valid_topic tid then Some (hedera_plan tid) else first_topic subs)"

fun first_contract :: "obj list \<Rightarrow> pipelineFilterPlan option" where
  "first_contract [] = None"
| "first_contract (s # subs) =
     (if subscriptionKind s \<noteq> ''erc20_transfer'' then first_contract subs
      else let ca = normalizeEVMAddress (stringField s ''contractAddress'')
           in if ca \<noteq> [] then Some (evm_plan ca (TrimSpace (stringField s ''fromAddress'')))
              else first_contract subs)"

definition all_reason :: string where
  "all_reason = ''no hedera_hcs_topic or erc20_transfer in eventSubscriptions (and no NARYO_DEFAULT_HCS_TOPIC_ID)''"

definition resolvePipelineFilterPlan :: "env \<Rightarrow> obj \<Rightarrow> pipelineFilterPlan" where
  "resolvePipelineFilterPlan env cfg =
     (let subs = extractSubscriptionsArray cfg
      in case first_topic subs of
           Some p \<Rightarrow> p
         | None \<Rightarrow>
             let defTopic = TrimSpace (NaryoDefaultHCSTopicID env)
             in if valid_topic defTopic then hedera_plan defTopic
                else case first_contract subs of
                    Some p \<Rightarrow> p
                  | None \<Rightarrow>
                      if NaryoAllowAllBroadcasterFallback env
                      then empty_plan\<lparr>UseALLFallback := True, Key := ''ALL'', Reason := all_reason\<rparr>
                      else empty_plan\<lparr>Reason := all_reason @
                        ''; set NARYO_ALLOW_ALL_BROADCASTER_FALLBACK=true to provision an ALL-target broadcaster''\<rparr>)"

definition pipelineFilterName :: "string \<Rightarrow> pipelineFilterPlan \<Rightarrow> string" where
  "pipelineFilterName sessionID plan =
     (if HederaTopicID plan \<noteq> [] then ''pf-'' @ sessionID @ ''-hcs''
      else if EVMContract plan \<noteq> [] then ''pf-'' @ sessionID @ ''-evm''
      else ''pf-'' @ sessionID @ ''-x'')"

section \<open>The description shown to users\<close>

text \<open>Punctuation outside ASCII, in UTF-8.\<close>

definition em_dash :: string where
  "em_dash = bytes [226, 128, 148]"

definition set_field :: "string \<Rightarrow> any \<Rightarrow> obj \<Rightarrow> obj" where
  "set_field k v m = AList.update k v m"

definition sub_id :: "obj \<Rightarrow> string" where
  "sub_id s = TrimSpace (stringField s ''id'')"

definition sub_label :: "obj \<Rightarrow> string" where
  "sub_label s = (if sub_id s = [] then subscriptionKind s else sub_id s)"

fun hedera_winner :: "string \<Rightarrow> obj list \<Rightarrow> string" where
  "hedera_winner tid [] = []"
| "hedera_winner tid (s # subs) =
     (if subscriptionKind s \<noteq> ''hedera_hcs_topic'' then hedera_winner tid subs
      else if TrimSpace (stringField s ''topicId'') \<noteq> tid then hedera_winner tid subs
      else sub_id s)"

fun evm_winner :: "string \<Rightarrow> obj list \<Rightarrow> string option" where
  "evm_winner ca [] = None"
| "evm_winner ca (s # subs) =
     (if subscriptionKind s \<noteq> ''erc20_transfer'' then evm_winner ca subs
      else if normalizeEVMAddress (stringField s ''contractAddress'') \<noteq> ca then evm_winner ca subs
      else Some (sub_id s))"

definition not_with_hedera :: "string \<Rightarrow> obj \<Rightarrow> string list" where
  "not_with_hedera tid s =
     (if subscriptionKind s = ''erc20_transfer''
      then [sub_label s @ '': erc20_transfer '' @ em_dash @
            '' not provisioned while a Hedera topic filter is selected (single filter per pipeline).'']
      else if subscriptionKind s = ''hedera_hcs_topic'' \<and> TrimSpace (stringField s ''topicId'') \<noteq> tid
      then [sub_label s @ '': hedera_hcs_topic '' @ em_dash @
            '' different topicId; only one Hedera filter is provisioned.'']
      else [])"

definition not_with_evm :: "string \<Rightarrow> obj \<Rightarrow> string list" where
  "not_with_evm ca s =
     (if subscriptionKind s = ''hedera_hcs_topic''
      then [sub_label s @ '': hedera_hcs_topic '' @ em_dash @
            '' not provisioned (no valid topic before EVM in resolution order, or topic empty).'']
      else []) @
     (if subscriptionKind s = ''erc20_transfer'' \<and> normalizeEVMAddress (stringField s ''contractAddress'') \<noteq> ca
      then [sub_label s @ '': erc20_transfer '' @ em_dash @
            '' different contract; only first matching erc20_transfer is provisioned.'']
      else [])"

definition set_unprovisioned :: "string list \<Rightarrow> obj \<Rightarrow> obj" where
  "set_unprovisioned notes out =
     (if notes \<noteq> [] then set_field ''subscriptionsNotProvisionedInNaryo'' (AStrs notes) out else out)"

definition appendNaryoVersusSessionSubscriptions :: "obj list \<Rightarrow> pipelineFilterPlan \<Rightarrow> obj \<Rightarrow> obj" where
  "appendNaryoVersusSessionSubscriptions subs p out =
     (if HederaTopicID p \<noteq> [] then
        let winningID = hedera_winner (HederaTopicID p) subs;
            out1 = (if winningID = []
              then set_field ''naryoTopicSource''
                (AStr ''NARYO_DEFAULT_HCS_TOPIC_ID or first matching topic (not necessarily a subscription id below)'') out
              else set_field ''winningSubscriptionId'' (AStr winningID)
                (set_field ''naryoTopicSource'' (AStr ''eventSubscriptions'') out))
        in set_unprovisioned (List.concat (map (not_with_hedera (HederaTopicID p)) subs)) out1
      else if EVMContract p \<noteq> [] then
        let out1 = (case evm_winner (EVMContract p) subs of
                None \<Rightarrow> out
              | Some w \<Rightarrow> set_field ''winningSubscriptionId'' (AStr w) out)
        in set_unprovisioned (List.concat (map (not_with_evm (EVMContract p)) subs)) out1
      else out)"

definition provisioning_semantics :: string where
  "provisioning_semantics =
     ''The platform stores the full eventSubscriptions list on the session (OR intent for agents/UI). '' @
     ''EnsurePipeline sends at most one scoped Naryo filter per pipeline: first hedera_hcs_topic with topicId, '' @
     ''else NARYO_DEFAULT_HCS_TOPIC_ID, else first erc20_transfer, else ALL-target broadcaster when allowed. '' @
     ''hederaNetwork and caip2 in JSON are not passed to Naryo's Configuration API '' @ em_dash @
     '' Hedera mirror and EVM RPC come from Naryo's own application.yml / env.''"

definition DescribePipelineFilterPlanForSession :: "env \<Rightarrow> string \<Rightarrow> obj \<Rightarrow> obj" where
  "DescribePipelineFilterPlanForSession env sessionID cfg =
     (let p = resolvePipelineFilterPlan env cfg;
          subs = extractSubscriptionsArray cfg;
          out0 = [(''key'', AStr (Key p)), (''useALLFallback'', ABool (UseALLFallback p)),
                  (''reason'', AStr (Reason p)), (''naryoProvisioningSemantics'', AStr provisioning_semantics)];
          out1 = (if HederaTopicID p \<noteq> []
            then appendNaryoVersusSessionSubscriptions subs p
              (set_field ''naryoFilterType'' (AStr ''TRANSACTION (IDENTITY_ID = HCS topic)'')
                (set_field ''expectedNaryoFilterName'' (AStr (''pf-'' @ sessionID @ ''-hcs''))
                  (set_field ''hederaTopicId'' (AStr (HederaTopicID p)) out0)))
            else out0);
          out2 = (if EVMContract p \<noteq> []
            then let o2 = set_field ''evmFromFilterUnmet'' (ABool (EVMFromFilterUnmet p))
                       (set_field ''evmContract'' (AStr (EVMContract p)) out1)
                 in if HederaTopicID p = []
                    then appendNaryoVersusSessionSubscriptions subs p
                      (set_field ''naryoFilterType''
                        (AStr ''EVENT_CONTRACT (Transfer on token contract; fromAddress in config is not applied in Naryo)'')
                        (set_field ''expectedNaryoFilterName'' (AStr (''pf-'' @ sessionID @ ''-evm'')) o2))
                    else o2
            else out1)
      in if UseALLFallback p
         then let o3 = set_field ''filterRowsNote'' (AStr (''ALL-target provisioning does not create a per-pipeline '' @
                    ''filter in Naryo (only an HTTP broadcaster). Scoped HCS/EVM plans create filters named '' @
                    ''pf-<sessionId>-hcs or -evm.''))
                  (set_field ''naryoFilterType'' (AStr ''none (ALL-target HTTP broadcaster only)'')
                    (set_field ''expectedNaryoFilterName'' ANil out2));
                  ids = filter (\<lambda>i. i \<noteq> []) (map sub_id subs)
              in if ids \<noteq> [] then set_field ''subscriptionsIntentOnly'' (AStrs ids) o3 else o3
         else out2)"

section \<open>The plan as a choice\<close>

definition topic_choices :: "env \<Rightarrow> obj list \<Rightarrow> string list" where
  "topic_choices env subs =
     filter valid_topic (map (\<lambda>s. TrimSpace (stringField s ''topicId''))
       (filter (\<lambda>s. subscriptionKind s = ''hedera_hcs_topic'') subs) @ [TrimSpace (NaryoDefaultHCSTopicID env)])"

definition contract_choices :: "obj list \<Rightarrow> string list" where
  "contract_choices subs =
     filter (\<lambda>ca. ca \<noteq> []) (map (\<lambda>s. normalizeEVMAddress (stringField s ''contractAddress''))
       (filter (\<lambda>s. subscriptionKind s = ''erc20_transfer'') subs))"

lemma plan_fields [simp]:
  "HederaTopicID (hedera_plan t) = t" "EVMContract (hedera_plan t) = []" "\<not> UseALLFallback (hedera_plan t)"
  "Key (hedera_plan t) = ''H:'' @ t"
  "HederaTopicID (evm_plan c f) = []" "EVMContract (evm_plan c f) = c" "\<not> UseALLFallback (evm_plan c f)"
  "Key (evm_plan c f) = ''E:'' @ c"
  by (simp_all add: hedera_plan_def evm_plan_def empty_plan_def)

lemma first_topic_choice:
  "first_topic subs = (case filter valid_topic (map (\<lambda>s. TrimSpace (stringField s ''topicId''))
       (filter (\<lambda>s. subscriptionKind s = ''hedera_hcs_topic'') subs)) of
     [] \<Rightarrow> None | t # _ \<Rightarrow> Some (hedera_plan t))"
  by (induction subs) (auto simp: Let_def)

lemma first_contract_choice:
  "case first_contract subs of
     None \<Rightarrow> contract_choices subs = []
   | Some p \<Rightarrow> \<exists>c cs f. contract_choices subs = c # cs \<and> p = evm_plan c f \<and> c \<noteq> []"
  by (induction subs) (auto simp: contract_choices_def Let_def split: option.splits)

text \<open>Every plan is one of four.\<close>

lemma plan_cases:
  obtains (topic) t ts where "topic_choices env (extractSubscriptionsArray cfg) = t # ts"
      "resolvePipelineFilterPlan env cfg = hedera_plan t" "valid_topic t"
  | (contract) c cs f where "topic_choices env (extractSubscriptionsArray cfg) = []"
      "contract_choices (extractSubscriptionsArray cfg) = c # cs"
      "resolvePipelineFilterPlan env cfg = evm_plan c f" "c \<noteq> []"
  | (none) "topic_choices env (extractSubscriptionsArray cfg) = []"
      "contract_choices (extractSubscriptionsArray cfg) = []"
      "resolvePipelineFilterPlan env cfg = (if NaryoAllowAllBroadcasterFallback env
        then empty_plan\<lparr>UseALLFallback := True, Key := ''ALL'', Reason := all_reason\<rparr>
        else empty_plan\<lparr>Reason := all_reason @
          ''; set NARYO_ALLOW_ALL_BROADCASTER_FALLBACK=true to provision an ALL-target broadcaster''\<rparr>)"
proof -
  let ?subs = "extractSubscriptionsArray cfg" and ?def = "TrimSpace (NaryoDefaultHCSTopicID env)"
  let ?own = "filter valid_topic (map (\<lambda>s. TrimSpace (stringField s ''topicId''))
       (filter (\<lambda>s. subscriptionKind s = ''hedera_hcs_topic'') ?subs))"
  have tc: "topic_choices env ?subs = ?own @ (if valid_topic ?def then [?def] else [])"
    by (simp add: topic_choices_def)
  show ?thesis
  proof (cases ?own)
    case (Cons t ts)
    then have "valid_topic t" by (auto simp: filter_eq_Cons_iff)
    moreover have "resolvePipelineFilterPlan env cfg = hedera_plan t"
      using Cons by (simp add: resolvePipelineFilterPlan_def Let_def first_topic_choice)
    ultimately show ?thesis using Cons tc that(1) by simp
  next
    case Nil
    show ?thesis
    proof (cases "valid_topic ?def")
      case True
      then show ?thesis
        using Nil tc by (intro that(1)) (simp_all add: resolvePipelineFilterPlan_def Let_def first_topic_choice)
    next
      case False
      show ?thesis
      proof (cases "first_contract ?subs")
        case None
        then show ?thesis
          using Nil False tc first_contract_choice [of ?subs]
          by (intro that(3)) (simp_all add: resolvePipelineFilterPlan_def Let_def first_topic_choice)
      next
        case (Some p)
        then obtain c cs f where "contract_choices ?subs = c # cs" "p = evm_plan c f" "c \<noteq> []"
          using first_contract_choice [of ?subs] by auto
        then show ?thesis
          using Nil False tc Some
          by (intro that(2)) (simp_all add: resolvePipelineFilterPlan_def Let_def first_topic_choice)
      qed
    qed
  qed
qed

section \<open>Reading the description\<close>

lemma field_set_field [simp]: "field (set_field k v m) k' = (if k' = k then v else field m k')"
  by (simp add: field_def set_field_def update_conv)

lemma field_append_notes:
  "k \<notin> {''naryoTopicSource'', ''winningSubscriptionId'', ''subscriptionsNotProvisionedInNaryo''} \<Longrightarrow>
     field (appendNaryoVersusSessionSubscriptions subs p out) k = field out k"
  by (simp add: appendNaryoVersusSessionSubscriptions_def set_unprovisioned_def Let_def split: option.split)

section \<open>Normal form of addresses\<close>

lemma lower_char_idem [simp]: "lower_char (lower_char c) = lower_char c"
  by (simp add: lower_char_def Let_def)

lemma ToLower_idem [simp]: "ToLower (ToLower s) = ToLower s"
  by (simp add: ToLower_def)

lemma set_TrimSpace: "set (TrimSpace s) \<subseteq> set s"
proof -
  have "set (strip ws t) \<subseteq> set t" for ws t
    by (rule set_mono_suffix) (rule suffix_strip)
  then show ?thesis unfolding TrimSpace_def by (metis order_trans set_rev)
qed

lemma ToLower_TrimSpace: "ToLower s = s \<Longrightarrow> ToLower (TrimSpace s) = TrimSpace s"
  unfolding ToLower_def using set_TrimSpace [of s] by (intro map_idI) (metis in_mono map_eq_conv map_idI id_apply list.map_id)

lemma normalized_lower: "ToLower (normalizeEVMAddress s) = normalizeEVMAddress s"
proof -
  have low: "ToLower (TrimSpace (ToLower s)) = TrimSpace (ToLower s)" by (rule ToLower_TrimSpace) simp
  moreover have "ToLower (''0x'' @ t) = ''0x'' @ ToLower t" for t
    by (simp add: ToLower_def) code_simp
  ultimately show ?thesis by (simp add: normalizeEVMAddress_def Let_def) (simp add: ToLower_def)
qed

text \<open>\<open>TrimSpace\<close> leaves no white space to trim, also behind a prefix of letters and digits.\<close>

lemma space_words: "list_all (\<lambda>w. w \<noteq> [] \<and> hd w \<noteq> CHR ''0'' \<and> CHR ''x'' \<notin> set w) unicode_space"
  by code_simp

lemma strip_stops: "w \<in> set ws \<Longrightarrow> w \<noteq> [] \<Longrightarrow> \<not> prefix w (strip ws s)"
proof (induction ws s rule: strip.induct)
  case (1 ws s)
  show ?case
  proof (cases "List.find (\<lambda>w. w \<noteq> [] \<and> prefix w s) ws")
    case None
    then have "strip ws s = s" by (subst strip.simps) simp
    then show ?thesis using None 1(2,3) by (auto simp: find_None_iff)
  next
    case (Some v)
    then show ?thesis using 1(1) [OF Some 1(2,3)] by (subst strip.simps) simp
  qed
qed

lemma trimmed_right: "w \<in> set unicode_space \<Longrightarrow> \<not> prefix (rev w) (rev (TrimSpace s))"
  unfolding TrimSpace_def rev_rev_ident using space_words
  by (intro strip_stops) (auto simp: list_all_iff)

lemma trimmed_left: "w \<in> set unicode_space \<Longrightarrow> \<not> prefix w (TrimSpace s)"
proof
  let ?u = "strip unicode_space s"
  assume w: "w \<in> set unicode_space" "prefix w (TrimSpace s)"
  have "suffix (rev (TrimSpace s)) (rev ?u)" by (simp add: TrimSpace_def suffix_strip)
  then have "prefix (TrimSpace s) ?u" by (simp add: suffix_to_prefix)
  with w(2) have "prefix w ?u" by (rule prefix_order.trans)
  with strip_stops [OF w(1)] space_words w(1) show False by (auto simp: list_all_iff)
qed

lemma TrimSpace_fixed:
  assumes "\<And>w. w \<in> set unicode_space \<Longrightarrow> \<not> prefix w t" "\<And>w. w \<in> set unicode_space \<Longrightarrow> \<not> prefix (rev w) (rev t)"
  shows "TrimSpace t = t"
proof -
  have "strip unicode_space t = t" using assms(1) by (intro strip_no_space)
  moreover have "strip (map rev unicode_space) (rev t) = rev t"
    using assms(2) by (intro strip_no_space) auto
  ultimately show ?thesis by (simp add: TrimSpace_def)
qed

lemma TrimSpace_idem [simp]: "TrimSpace (TrimSpace s) = TrimSpace s"
  by (rule TrimSpace_fixed) (fact trimmed_left, fact trimmed_right)

lemma TrimSpace_0x: "TrimSpace (''0x'' @ TrimSpace s) = ''0x'' @ TrimSpace s"
proof (rule TrimSpace_fixed)
  fix w
  assume w: "w \<in> set unicode_space"
  then have h: "w \<noteq> []" "hd w \<noteq> CHR ''0''" "CHR ''x'' \<notin> set w" using space_words by (auto simp: list_all_iff)
  then show "\<not> prefix w (''0x'' @ TrimSpace s)" by (cases w) auto
  show "\<not> prefix (rev w) (rev (''0x'' @ TrimSpace s))"
  proof
    assume "prefix (rev w) (rev (''0x'' @ TrimSpace s))"
    then have "prefix (rev w) (rev (TrimSpace s)) \<or> (\<exists>us. rev w = rev (TrimSpace s) @ us \<and> prefix us ''x0'')"
      by (simp add: prefix_append)
    then obtain us where us: "rev w = rev (TrimSpace s) @ us" "prefix us ''x0''"
      using trimmed_right [OF w] by blast
    then have "CHR ''x'' \<in> set (rev w)"
      using trimmed_right [OF w, of s] by (cases us) auto
    then show False using h(3) by simp
  qed
qed

lemma normalize_idem: "normalizeEVMAddress (normalizeEVMAddress s) = normalizeEVMAddress s"
proof -
  have low: "ToLower (normalizeEVMAddress s) = normalizeEVMAddress s" by (rule normalized_lower)
  have "TrimSpace (normalizeEVMAddress s) = normalizeEVMAddress s"
    using TrimSpace_0x [of "ToLower s"] by (simp add: normalizeEVMAddress_def Let_def)
  moreover have "HasPrefix (normalizeEVMAddress s) ''0x'' \<or> normalizeEVMAddress s = []"
    by (simp add: normalizeEVMAddress_def Let_def HasPrefix_def)
  ultimately show ?thesis using low by (auto simp: normalizeEVMAddress_def [of "normalizeEVMAddress s"] Let_def)
qed

section \<open>Properties\<close>

text \<open>
  C23: the plan is the first choice in order of priority: the first valid topic among the session's
  Hedera subscriptions and then the default topic, otherwise the first token contract among its
  transfer subscriptions, otherwise the broadcaster for everything when that is allowed.
\<close>

theorem plan_is_first_choice:
  "let p = resolvePipelineFilterPlan env cfg; subs = extractSubscriptionsArray cfg;
       topics = topic_choices env subs; contracts = contract_choices subs
   in HederaTopicID p = (if topics \<noteq> [] then hd topics else []) \<and>
      EVMContract p = (if topics = [] \<and> contracts \<noteq> [] then hd contracts else []) \<and>
      UseALLFallback p = (topics = [] \<and> contracts = [] \<and> NaryoAllowAllBroadcasterFallback env)"
  by (cases rule: plan_cases [of env cfg]) (simp_all add: Let_def empty_plan_def)

text \<open>
  The key of a plan identifies what it provisions: two sessions, or two configurations of one
  session, have plans with the same key exactly when the plans have the same topic, the same
  contract and the same fallback.
\<close>

lemma key_identifies_plan:
  "Key (resolvePipelineFilterPlan env cfg) = Key (resolvePipelineFilterPlan env' cfg') \<longleftrightarrow>
     HederaTopicID (resolvePipelineFilterPlan env cfg) = HederaTopicID (resolvePipelineFilterPlan env' cfg') \<and>
     EVMContract (resolvePipelineFilterPlan env cfg) = EVMContract (resolvePipelineFilterPlan env' cfg') \<and>
     UseALLFallback (resolvePipelineFilterPlan env cfg) = UseALLFallback (resolvePipelineFilterPlan env' cfg')"
  by (cases rule: plan_cases [of env cfg]; cases rule: plan_cases [of env' cfg'])
     (auto simp: empty_plan_def valid_topic_def)

text \<open>
  The description shown for a session names the filter that provisioning will create, and names
  none when provisioning creates none.
\<close>

lemma description_names_filter:
  "field (DescribePipelineFilterPlanForSession env sid cfg) ''expectedNaryoFilterName'' =
     (let p = resolvePipelineFilterPlan env cfg
      in if HederaTopicID p = [] \<and> EVMContract p = [] then ANil else AStr (pipelineFilterName sid p))"
  by (cases rule: plan_cases [of env cfg])
     (simp_all add: DescribePipelineFilterPlanForSession_def Let_def field_append_notes pipelineFilterName_def
       valid_topic_def empty_plan_def, simp_all add: field_def)

text \<open>
  A normalised contract address is empty or starts with \<open>0x\<close>, is in lower case, and is its own
  normal form, so the comparison of normalised addresses decides the same contract.
\<close>

lemma address_normal_form:
  "normalizeEVMAddress (normalizeEVMAddress s) = normalizeEVMAddress s \<and>
   ToLower (normalizeEVMAddress s) = normalizeEVMAddress s \<and>
   (normalizeEVMAddress s = [] \<or> HasPrefix (normalizeEVMAddress s) ''0x'')"
  by (simp add: normalize_idem normalized_lower) (simp add: normalizeEVMAddress_def Let_def HasPrefix_def)

end
