(* ===== verification/Go_Time.thy ===== *)
theory Go_Time
  imports Go_Values
begin

text \<open>
  Instants as text: \<open>t.UTC().Format(time.RFC3339Nano)\<close>.  An instant is a number of nanoseconds
  since the start of year 1.
\<close>

section \<open>The calendar\<close>

definition leap :: "int \<Rightarrow> bool" where
  "leap y \<longleftrightarrow> y mod 4 = 0 \<and> (y mod 100 \<noteq> 0 \<or> y mod 400 = 0)"

text \<open>The year of a day counted from 1 January of year 1, and the day of that year, from 0.\<close>

definition year_and_day :: "int \<Rightarrow> int \<times> int" where
  "year_and_day d =
     (let n400 = d div 146097; d1 = d mod 146097;
          n100 = min 3 (d1 div 36524); d2 = d1 - 36524 * n100;
          n4 = d2 div 1461; d3 = d2 mod 1461;
          n1 = min 3 (d3 div 365)
      in (400 * n400 + 100 * n100 + 4 * n4 + n1 + 1, d3 - 365 * n1))"

definition month_lengths :: "int \<Rightarrow> int list" where
  "month_lengths y = [31, if leap y then 29 else 28, 31, 30, 31, 30, 31, 31, 30, 31, 30, 31]"

fun month_and_day :: "int \<Rightarrow> int \<Rightarrow> int list \<Rightarrow> int \<times> int" where
  "month_and_day m d [] = (m, d + 1)"
| "month_and_day m d (l # ls) = (if d < l then (m, d + 1) else month_and_day (m + 1) (d - l) ls)"

definition civil :: "int \<Rightarrow> int \<times> int \<times> int" where
  "civil d = (case year_and_day d of (y, yd) \<Rightarrow> (case month_and_day 1 yd (month_lengths y) of (m, md) \<Rightarrow> (y, m, md)))"

text \<open>The day number of a date, the other way round.\<close>

definition days_before_year :: "int \<Rightarrow> int" where
  "days_before_year y = 365 * (y - 1) + (y - 1) div 4 - (y - 1) div 100 + (y - 1) div 400"

definition day_number :: "int \<times> int \<times> int \<Rightarrow> int" where
  "day_number c = (case c of (y, m, md) \<Rightarrow>
     days_before_year y + sum_list (take (nat (m - 1)) (month_lengths y)) + md - 1)"

section \<open>The format\<close>

definition pad :: "nat \<Rightarrow> int \<Rightarrow> string" where
  "pad n v = pad_left n (dec_int v)"

definition fraction_text :: "int \<Rightarrow> string" where
  "fraction_text ns =
     (let ds = rev (dropWhile (\<lambda>c. c = CHR ''0'') (rev (pad 9 ns))) in if ds = [] then [] else CHR ''.'' # ds)"

definition RFC3339Nano :: "gotime \<Rightarrow> string" where
  "RFC3339Nano t =
     (let secs = t div 10 ^ 9; ns = t mod 10 ^ 9; (y, m, d) = civil (secs div 86400); s = secs mod 86400
      in pad 4 y @ ''-'' @ pad 2 m @ ''-'' @ pad 2 d @ ''T'' @ pad 2 (s div 3600) @ '':'' @
         pad 2 (s div 60 mod 60) @ '':'' @ pad 2 (s mod 60) @ fraction_text ns @ ''Z'')"

section \<open>Dates are faithful\<close>

lemma month_and_day_sum:
  "month_and_day m d ls = (m', md) \<Longrightarrow>
     \<exists>k. m' = m + int k \<and> k \<le> length ls \<and> sum_list (take k ls) + md - 1 = d"
proof (induction m d ls rule: month_and_day.induct)
  case (2 m d l ls)
  show ?case
  proof (cases "d < l")
    case True
    with 2 show ?thesis by (intro exI [of _ 0]) auto
  next
    case False
    with 2 obtain k where "m' = m + 1 + int k" "k \<le> length ls" "sum_list (take k ls) + md - 1 = d - l" by auto
    then show ?thesis by (intro exI [of _ "Suc k"]) auto
  qed
qed auto

lemma days_before_cycle:
  fixes a b c e :: int
  assumes "0 \<le> b" "b \<le> 3" "0 \<le> c" "c \<le> 24" "0 \<le> e" "e \<le> 3"
  shows "days_before_year (400 * a + 100 * b + 4 * c + e + 1) = 146097 * a + 36524 * b + 1461 * c + 365 * e"
proof -
  have small: "(x + k * q) div k = q" if "0 \<le> x" "x < k" for x k q :: int
    using that by (simp add: div_mult_self2)
  have "(e + 4 * (100 * a + 25 * b + c)) div 4 = 100 * a + 25 * b + c"
    "((4 * c + e) + 100 * (4 * a + b)) div 100 = 4 * a + b"
    "((100 * b + 4 * c + e) + 400 * a) div 400 = a"
    using assms by (auto intro!: small)
  then have "(400 * a + 100 * b + 4 * c + e) div 4 = 100 * a + 25 * b + c"
    "(400 * a + 100 * b + 4 * c + e) div 100 = 4 * a + b"
    "(400 * a + 100 * b + 4 * c + e) div 400 = a"
    by (simp_all add: algebra_simps)
  then show ?thesis by (simp add: days_before_year_def)
qed

lemma year_and_day_back:
  assumes "year_and_day d = (y, yd)"
  shows "days_before_year y + yd = d"
proof -
  define a d1 where "a = d div 146097" and "d1 = d mod 146097"
  define b where "b = min 3 (d1 div 36524)"
  define d2 where "d2 = d1 - 36524 * b"
  define c d3 where "c = d2 div 1461" and "d3 = d2 mod 1461"
  define e where "e = min 3 (d3 div 365)"
  have d: "d = 146097 * a + d1" by (simp add: a_def d1_def)
  have "0 \<le> d1" "d1 < 146097" by (simp_all add: d1_def)
  moreover have "36524 * (d1 div 36524) \<le> d1" "d1 < 36524 * (d1 div 36524) + 36524"
    using mult_div_mod_eq [of 36524 d1] pos_mod_bound [of 36524 d1] pos_mod_sign [of 36524 d1] by linarith+
  ultimately have d2: "0 \<le> b" "b \<le> 3" "0 \<le> d2" "d2 \<le> 36524"
    unfolding d2_def b_def by (linarith | simp add: min_def pos_imp_zdiv_nonneg_iff | auto simp: min_def)+
  have d23: "d2 = 1461 * c + d3" "0 \<le> d3" "d3 < 1461" by (simp_all add: c_def d3_def)
  then have c: "0 \<le> c" "c \<le> 24" using d2 by linarith+
  have e: "0 \<le> e" "e \<le> 3" using d23 by (simp_all add: e_def pos_imp_zdiv_nonneg_iff)
  have "y = 400 * a + 100 * b + 4 * c + e + 1" "yd = d3 - 365 * e"
    using assms unfolding year_and_day_def Let_def
    by (simp_all only: a_def [symmetric] d1_def [symmetric] b_def [symmetric] d2_def [symmetric]
        c_def [symmetric] d3_def [symmetric] e_def [symmetric] prod.inject)
  moreover have "d = 146097 * a + 36524 * b + 1461 * c + d3"
  proof -
    have "d1 = 36524 * b + d2" by (simp add: d2_def)
    then show ?thesis unfolding d d23(1) by simp
  qed
  ultimately show ?thesis using days_before_cycle [OF d2(1,2) c e, of a] by simp
qed

section \<open>Properties\<close>

text \<open>
  C0: the calendar date printed for a day determines the day: counting the days up to the date gives
  the day back, so distinct days are printed as distinct dates.
\<close>

theorem date_roundtrip: "day_number (civil d) = d"
proof -
  obtain y yd where y: "year_and_day d = (y, yd)" by (cases "year_and_day d")
  obtain m md where m: "month_and_day 1 yd (month_lengths y) = (m, md)"
    by (cases "month_and_day 1 yd (month_lengths y)")
  from month_and_day_sum [OF m] obtain k where "m = 1 + int k" "sum_list (take k (month_lengths y)) + md - 1 = yd"
    by auto
  then show ?thesis using year_and_day_back [OF y] y m by (simp add: civil_def day_number_def)
qed

end
