(* ===== verification/Naryo_Http.thy ===== *)
theory Naryo_Http
  imports Naryo_Plan Naryo_Client Go_Time
begin

text \<open>
  The client of Naryo's Configuration API: \<^verbatim>\<open>internal/naryo/http_client.go\<close>,
  \<^verbatim>\<open>http_client_filter.go\<close>, \<^verbatim>\<open>http_client_snapshot.go\<close> and \<^verbatim>\<open>factory.go\<close>.

  The Naryo service, the clock, the request context and the random source are the record
  \<open>outside\<close> over a world \<open>'w\<close>.  A call is a function of the client's state; \<open>None\<close> means that it
  does not return: it waits for a mutex that is never released or polls an operation for ever.
\<close>

section \<open>Requests and the outside world\<close>

record http_req =
  Method :: string
  Url :: string
  ReqBody :: "any option"

text \<open>
  The body of a response is given as text and as the value \<open>json.Unmarshal\<close> decodes from it
  (or the decoder's error text).
\<close>

record http_resp =
  StatusCode :: int
  StatusText :: string
  RawBody :: string
  Decoded :: "string + any"

text \<open>
  \<open>Do\<close> sends a request (or fails, with the text of the transport error); \<open>After\<close> waits for some
  nanoseconds or until the context ends, with the text of its error; \<open>DeadlinePassed\<close> is
  \<open>hasDeadline && time.Now().After(deadline)\<close>.
\<close>

record 'w outside =
  Do :: "'w \<Rightarrow> http_req \<Rightarrow> 'w \<times> (string + http_resp)"
  After :: "'w \<Rightarrow> int \<Rightarrow> 'w \<times> string option"
  DeadlinePassed :: "'w \<Rightarrow> bool"
  RandomBytes :: "'w \<Rightarrow> nat \<Rightarrow> 'w \<times> string"
  Now :: "'w \<Rightarrow> gotime"

section \<open>The client's state\<close>

record httpSessState =
  configID :: string
  configHash :: string
  broadcasterID :: string
  broadcasterHash :: string
  filterID :: string
  filterHash :: string
  filterPlanKey :: string
  lastOpID :: string
  sharedBroadcasterConfig :: bool

definition new_sess :: httpSessState where
  "new_sess = \<lparr>configID = [], configHash = [], broadcasterID = [], broadcasterHash = [], filterID = [],
     filterHash = [], filterPlanKey = [], lastOpID = [], sharedBroadcasterConfig = False\<rparr>"

record httpClientStats =
  EnsureOK :: int
  PauseOK :: int
  ResumeOK :: int
  StopOK :: int
  LastErr :: string
  LastErrAt :: gotime

text \<open>
  \<open>hc_mu\<close> says whether the mutex is held; \<open>hc_sess\<close> is the map of sessions.  The pointer to a
  session's state is its entry in the map, since the mutex is held while the pointer is used.
  \<open>hc_env\<close> is the process environment, read at each call.
\<close>

record 'w HTTPClient =
  hc_base :: string
  hc_ingest :: string
  hc_dest :: string
  hc_poll :: int
  hc_hederaNodeID :: string
  hc_ethereumNodeID :: string
  hc_fixedConfigID :: string
  hc_skipEgress :: bool
  hc_mu :: bool
  hc_sess :: "(string \<times> httpSessState) list"
  hc_stats :: httpClientStats
  hc_pollMS :: int
  hc_env :: env
  hc_net :: 'w

record HTTPClientConfig =
  BaseURL :: string
  PlatformIngestURL :: string
  ActiveDestPath :: string
  HederaNodeID :: string
  EthereumNodeID :: string
  PollInterval :: int
  FixedBroadcasterConfigID :: string
  SkipEgressProvision :: bool

definition or_default :: "string \<Rightarrow> string \<Rightarrow> string" where
  "or_default s d = (if s = [] then d else s)"

definition NewHTTPClient :: "HTTPClientConfig \<Rightarrow> env \<Rightarrow> 'w \<Rightarrow> err + 'w HTTPClient" where
  "NewHTTPClient cfg env w =
     (if TrimSpace (BaseURL cfg) = [] \<or> TrimSpace (PlatformIngestURL cfg) = []
      then Inl (ErrOther ''naryo: BaseURL and PlatformIngestURL are required'')
      else let d = or_default (TrimSpace (ActiveDestPath cfg)) ''/internal/naryo/v1/events''
           in Inr \<lparr>hc_base = TrimRight (BaseURL cfg) (CHR ''/''),
                   hc_ingest = TrimRight (PlatformIngestURL cfg) (CHR ''/''),
                   hc_dest = (if hd d \<noteq> CHR ''/'' then CHR ''/'' # d else d),
                   hc_poll = (if PollInterval cfg \<le> 0 then 500000000 else PollInterval cfg),
                   hc_hederaNodeID = or_default (TrimSpace (HederaNodeID cfg)) ''7f3b8e1a-4d2c-4b9a-8e5f-1a2b3c4d5e6f'',
                   hc_ethereumNodeID = or_default (TrimSpace (EthereumNodeID cfg)) ''eadc75b2-4217-4018-95af-f67c13058976'',
                   hc_fixedConfigID = TrimSpace (FixedBroadcasterConfigID cfg),
                   hc_skipEgress = SkipEgressProvision cfg, hc_mu = False, hc_sess = [],
                   hc_stats = \<lparr>EnsureOK = 0, PauseOK = 0, ResumeOK = 0, StopOK = 0, LastErr = [], LastErrAt = 0\<rparr>,
                   hc_pollMS = 0, hc_env = env, hc_net = w\<rparr>)"

text \<open>\<open>NewFromEnv\<close>; the state of the world is an argument.\<close>

definition NewFromEnv :: "env \<Rightarrow> 'w \<Rightarrow> err + 'w HTTPClient" where
  "NewFromEnv env w =
     (let base = NaryoConfigAPIBaseURL env; ingest = NaryoPlatformIngestURL env
      in if base = [] \<or> ingest = []
         then Inl (ErrOther ''naryo: NARYO_CONFIG_API_BASE and NARYO_PLATFORM_INGEST_URL must both be set'')
         else NewHTTPClient \<lparr>BaseURL = base, PlatformIngestURL = ingest,
                ActiveDestPath = NaryoBroadcasterDestPath env, HederaNodeID = NaryoHederaNodeID env,
                EthereumNodeID = NaryoEthereumNodeID env, PollInterval = 0,
                FixedBroadcasterConfigID = NaryoBroadcasterConfigurationID env,
                SkipEgressProvision = NaryoSkipEgressProvision env\<rparr> env w)"

section \<open>Decoding responses\<close>

fun json_kind :: "any \<Rightarrow> string" where
  "json_kind (ABool _) = ''bool''"
| "json_kind (AStr _) = ''string''"
| "json_kind (AArr _) = ''array''"
| "json_kind (AObj _) = ''object''"
| "json_kind _ = ''number''"

definition unmarshal_error :: "any \<Rightarrow> string \<Rightarrow> string" where
  "unmarshal_error v typ = ''json: cannot unmarshal '' @ json_kind v @ '' into Go value of type '' @ typ"

text \<open>Decoding into \<open>map[string]any\<close> and into \<open>[]map[string]any\<close>; \<open>null\<close> decodes to nil.\<close>

definition unmarshal_map :: "any \<Rightarrow> string + obj" where
  "unmarshal_map v =
     (case v of ANil \<Rightarrow> Inr [] | AObj m \<Rightarrow> Inr m | _ \<Rightarrow> Inl (unmarshal_error v ''map[string]interface {}''))"

fun unmarshal_elems :: "any list \<Rightarrow> string + obj option list" where
  "unmarshal_elems [] = Inr []"
| "unmarshal_elems (v # vs) =
     (case v of
        ANil \<Rightarrow> (case unmarshal_elems vs of Inl e \<Rightarrow> Inl e | Inr rows \<Rightarrow> Inr (None # rows))
      | AObj m \<Rightarrow> (case unmarshal_elems vs of Inl e \<Rightarrow> Inl e | Inr rows \<Rightarrow> Inr (Some m # rows))
      | _ \<Rightarrow> Inl (unmarshal_error v ''map[string]interface {}''))"

definition unmarshal_rows :: "any \<Rightarrow> string + obj option list" where
  "unmarshal_rows v =
     (case v of
        ANil \<Rightarrow> Inr []
      | AArr vs \<Rightarrow> unmarshal_elems vs
      | _ \<Rightarrow> Inl (unmarshal_error v ''[]map[string]interface {}''))"

definition extractOperationID :: "obj \<Rightarrow> err + string" where
  "extractOperationID body =
     (let v = string_or_empty (field body ''value'');
          op = (case as_object (field body ''operationId'') of
                  None \<Rightarrow> [] | Some m \<Rightarrow> string_or_empty (field m ''value''))
      in if v \<noteq> [] then Inr v
         else if op \<noteq> [] then Inr op
         else Inl (ErrOther ''naryo: 202 response missing operation id''))"

section \<open>One request\<close>

definition http_do :: "'w outside \<Rightarrow> 'w HTTPClient \<Rightarrow> http_req \<Rightarrow> 'w HTTPClient \<times> (string + http_resp)" where
  "http_do out c req = (case Do out (hc_net c) req of (w, r) \<Rightarrow> (c\<lparr>hc_net := w\<rparr>, r))"

definition req202 ::
  "'w outside \<Rightarrow> 'w HTTPClient \<Rightarrow> string \<Rightarrow> string \<Rightarrow> any \<Rightarrow> 'w HTTPClient \<times> (err + string)" where
  "req202 out c method path body =
     (case http_do out c \<lparr>Method = method, Url = hc_base c @ path, ReqBody = Some body\<rparr> of
        (c', Inl e) \<Rightarrow> (c', Inl (ErrOther e))
      | (c', Inr resp) \<Rightarrow>
          (c', if StatusCode resp \<noteq> 202
               then Inl (ErrOther (''naryo: '' @ method @ '' '' @ path @ '': '' @ StatusText resp @ '': '' @
                      TrimSpace (RawBody resp)))
               else case Decoded resp of
                   Inl e \<Rightarrow> Inl (ErrOther (''naryo: parse 202 body: '' @ e))
                 | Inr v \<Rightarrow>
                     (case unmarshal_map v of
                        Inl e \<Rightarrow> Inl (ErrOther (''naryo: parse 202 body: '' @ e))
                      | Inr wrap \<Rightarrow> extractOperationID wrap)))"

definition post202 ::
  "'w outside \<Rightarrow> 'w HTTPClient \<Rightarrow> string \<Rightarrow> any \<Rightarrow> 'w HTTPClient \<times> (err + string)" where
  "post202 out c path body = req202 out c ''POST'' path body"

text \<open>\<open>getJSON\<close>, over the decoder of the target type.\<close>

definition getJSON ::
  "(any \<Rightarrow> string + 'a) \<Rightarrow> 'w outside \<Rightarrow> 'w HTTPClient \<Rightarrow> string \<Rightarrow> 'w HTTPClient \<times> (err + 'a)" where
  "getJSON dec out c path =
     (case http_do out c \<lparr>Method = ''GET'', Url = hc_base c @ path, ReqBody = None\<rparr> of
        (c', Inl e) \<Rightarrow> (c', Inl (ErrOther e))
      | (c', Inr resp) \<Rightarrow>
          (c', if StatusCode resp \<noteq> 200
               then Inl (ErrOther (''naryo: GET '' @ path @ '': '' @ StatusText resp @ '': '' @ TrimSpace (RawBody resp)))
               else case Decoded resp of
                   Inl e \<Rightarrow> Inl (ErrOther e)
                 | Inr v \<Rightarrow> (case dec v of Inl e \<Rightarrow> Inl (ErrOther e) | Inr x \<Rightarrow> Inr x)))"

section \<open>Waiting for an operation\<close>

datatype poll_state = Finished "err option" | Pending

definition poll_result :: "string \<Rightarrow> http_resp \<Rightarrow> poll_state" where
  "poll_result opID resp =
     (if StatusCode resp \<noteq> 200
      then Finished (Some (ErrOther (''naryo: poll operation '' @ opID @ '': '' @ StatusText resp @ '': '' @
             TrimSpace (RawBody resp))))
      else case (case Decoded resp of Inl e \<Rightarrow> Inl e | Inr v \<Rightarrow> unmarshal_map v) of
          Inl e \<Rightarrow> Finished (Some (ErrOther e))
        | Inr st \<Rightarrow>
            (let state = string_or_empty (field st ''state'')
             in if state = ''SUCCEEDED'' then Finished None
                else if state = ''FAILED''
                then Finished (Some (ErrOther (''naryo: operation '' @ opID @ '' failed: '' @
                       string_or_empty (field st ''errorCode'') @ '' '' @ string_or_empty (field st ''errorMessage''))))
                else Pending))"

definition poll_once ::
  "'w outside \<Rightarrow> 'w HTTPClient \<Rightarrow> string \<Rightarrow> 'w HTTPClient \<times> poll_state" where
  "poll_once out c opID =
     (let start = Now out (hc_net c)
      in case http_do out c \<lparr>Method = ''GET'', Url = hc_base c @ ''/api/v1/operations/'' @ opID, ReqBody = None\<rparr> of
           (c', Inl e) \<Rightarrow> (c', Finished (Some (ErrOther e)))
         | (c', Inr resp) \<Rightarrow>
             (c'\<lparr>hc_pollMS := Sub (Now out (hc_net c')) start sdiv 1000000\<rparr>, poll_result opID resp))"

partial_function (option) wait_loop ::
  "'w outside \<Rightarrow> string \<Rightarrow> 'w HTTPClient \<Rightarrow> ('w HTTPClient \<times> err option) option" where
  "wait_loop out opID c =
     (if DeadlinePassed out (hc_net c)
      then Some (c, Some (ErrOther (''naryo: operation '' @ opID @ '': context deadline exceeded'')))
      else case poll_once out c opID of
          (c1, Finished e) \<Rightarrow> Some (c1, e)
        | (c1, Pending) \<Rightarrow>
            (case After out (hc_net c1) (hc_poll c1) of
               (w, Some e) \<Rightarrow> Some (c1\<lparr>hc_net := w\<rparr>, Some (ErrOther e))
             | (w, None) \<Rightarrow> wait_loop out opID (c1\<lparr>hc_net := w\<rparr>)))"

text \<open>The same loop with its branches as functions, which evaluate on a finished poll only.\<close>

definition wait_after ::
  "'w outside \<Rightarrow> string \<Rightarrow> 'w HTTPClient \<Rightarrow> 'w \<times> string option \<Rightarrow> ('w HTTPClient \<times> err option) option" where
  "wait_after out opID c1 r =
     (case r of
        (w, Some e) \<Rightarrow> Some (c1\<lparr>hc_net := w\<rparr>, Some (ErrOther e))
      | (w, None) \<Rightarrow> wait_loop out opID (c1\<lparr>hc_net := w\<rparr>))"

lemma wait_after_code [code]:
  "wait_after out opID c1 (w, Some e) = Some (c1\<lparr>hc_net := w\<rparr>, Some (ErrOther e))"
  "wait_after out opID c1 (w, None) = wait_loop out opID (c1\<lparr>hc_net := w\<rparr>)"
  by (simp_all add: wait_after_def)

definition wait_next ::
  "'w outside \<Rightarrow> string \<Rightarrow> 'w HTTPClient \<times> poll_state \<Rightarrow> ('w HTTPClient \<times> err option) option" where
  "wait_next out opID r =
     (case r of
        (c1, Finished e) \<Rightarrow> Some (c1, e)
      | (c1, Pending) \<Rightarrow> wait_after out opID c1 (After out (hc_net c1) (hc_poll c1)))"

lemma wait_next_code [code]:
  "wait_next out opID (c1, Finished e) = Some (c1, e)"
  "wait_next out opID (c1, Pending) = wait_after out opID c1 (After out (hc_net c1) (hc_poll c1))"
  by (simp_all add: wait_next_def)

lemma wait_loop_code [code]:
  "wait_loop out opID c =
     (if DeadlinePassed out (hc_net c)
      then Some (c, Some (ErrOther (''naryo: operation '' @ opID @ '': context deadline exceeded'')))
      else wait_next out opID (poll_once out c opID))"
  by (subst wait_loop.simps) (simp add: wait_next_def wait_after_def split: prod.split poll_state.split)

definition waitOperation ::
  "'w outside \<Rightarrow> 'w HTTPClient \<Rightarrow> string \<Rightarrow> ('w HTTPClient \<times> err option) option" where
  "waitOperation out c opID =
     (if opID = [] then Some (c, Some (ErrOther ''naryo: empty operation id'')) else wait_loop out opID c)"

end
