(* ===== verification/Naryo_Provision.thy ===== *)
theory Naryo_Provision
  imports Naryo_Http
begin

text \<open>
  How the HTTP client provisions, pauses and tears down the pipeline of a session (the second part
  of \<^verbatim>\<open>http_client.go\<close>, \<^verbatim>\<open>http_client_filter.go\<close> and
  \<^verbatim>\<open>http_client_snapshot.go\<close>).
\<close>

section \<open>The session table and the mutex\<close>

definition sess_of :: "'w HTTPClient \<Rightarrow> string \<Rightarrow> httpSessState" where
  "sess_of c sid = (case map_of (hc_sess c) sid of None \<Rightarrow> new_sess | Some st \<Rightarrow> st)"

text \<open>An assignment through the pointer to the session's state.\<close>

definition upd_sess :: "string \<Rightarrow> (httpSessState \<Rightarrow> httpSessState) \<Rightarrow> 'w HTTPClient \<Rightarrow> 'w HTTPClient" where
  "upd_sess sid f c = c\<lparr>hc_sess := AList.update sid (f (sess_of c sid)) (hc_sess c)\<rparr>"

text \<open>Locking a mutex that is held never returns: the mutex is not reentrant.\<close>

definition lock :: "'w HTTPClient \<Rightarrow> 'w HTTPClient option" where
  "lock c = (if hc_mu c then None else Some (c\<lparr>hc_mu := True\<rparr>))"

definition unlock :: "'w HTTPClient \<Rightarrow> 'w HTTPClient" where
  "unlock c = c\<lparr>hc_mu := False\<rparr>"

definition upd_stats :: "(httpClientStats \<Rightarrow> httpClientStats) \<Rightarrow> 'w HTTPClient \<Rightarrow> 'w HTTPClient" where
  "upd_stats f c = c\<lparr>hc_stats := f (hc_stats c)\<rparr>"

definition recordErrUnlocked :: "'w outside \<Rightarrow> err \<Rightarrow> 'w HTTPClient \<Rightarrow> 'w HTTPClient" where
  "recordErrUnlocked out e c = upd_stats (\<lambda>s. s\<lparr>LastErr := err_text e, LastErrAt := Now out (hc_net c)\<rparr>) c"

definition clearErrUnlocked :: "'w HTTPClient \<Rightarrow> 'w HTTPClient" where
  "clearErrUnlocked c = upd_stats (\<lambda>s. s\<lparr>LastErr := []\<rparr>) c"

definition recordErr :: "'w outside \<Rightarrow> err \<Rightarrow> 'w HTTPClient \<Rightarrow> 'w HTTPClient option" where
  "recordErr out e c = do { c1 \<leftarrow> lock c; Some (unlock (recordErrUnlocked out e c1)) }"

definition clearErr :: "'w HTTPClient \<Rightarrow> 'w HTTPClient option" where
  "clearErr c = do { c1 \<leftarrow> lock c; Some (unlock (clearErrUnlocked c1)) }"

section \<open>Broadcaster configurations\<close>

fun config_hash_in :: "string \<Rightarrow> obj option list \<Rightarrow> err + string" where
  "config_hash_in i [] = Inl (ErrOther ''naryo: broadcaster-configuration not found after create'')"
| "config_hash_in i (None # rows) = config_hash_in i rows"
| "config_hash_in i (Some row # rows) =
     (if sprint (field row ''id'') = i
      then let h = string_or_empty (field row ''currentItemHash'')
           in if h = [] then Inl (ErrOther ''naryo: broadcaster-configuration missing hash'') else Inr h
      else config_hash_in i rows)"

definition getConfigHash :: "'w outside \<Rightarrow> 'w HTTPClient \<Rightarrow> string \<Rightarrow> 'w HTTPClient \<times> (err + string)" where
  "getConfigHash out c i =
     (case getJSON unmarshal_rows out c ''/api/v1/broadcaster-configurations'' of
        (c', Inl e) \<Rightarrow> (c', Inl e)
      | (c', Inr rows) \<Rightarrow> (c', config_hash_in i rows))"

definition isBroadcasterConfigNPE :: "err \<Rightarrow> bool" where
  "isBroadcasterConfigNPE e \<longleftrightarrow>
     Contains (err_text e) ''NullPointerException'' \<and> Contains (err_text e) ''operation''"

definition normalizeIngestBaseURL :: "string \<Rightarrow> string" where
  "normalizeIngestBaseURL u = TrimRight (TrimSpace u) (CHR ''/'')"

fun config_by_endpoint :: "string \<Rightarrow> obj option list \<Rightarrow> (string \<times> string) option" where
  "config_by_endpoint want [] = None"
| "config_by_endpoint want (None # rows) = config_by_endpoint want rows"
| "config_by_endpoint want (Some row # rows) =
     (if sprint (field row ''type'') \<noteq> ''HTTP'' then config_by_endpoint want rows
      else case as_object (field row ''endpoint'') of
          None \<Rightarrow> config_by_endpoint want rows
        | Some ep \<Rightarrow>
            if normalizeIngestBaseURL (sprint (field ep ''url'')) \<noteq> want then config_by_endpoint want rows
            else let cid = sprint (field row ''id''); h = string_or_empty (field row ''currentItemHash'')
                 in if cid = [] \<or> h = [] then config_by_endpoint want rows else Some (cid, h))"

definition attachExistingConfigByEndpoint ::
  "'w outside \<Rightarrow> 'w HTTPClient \<Rightarrow> string \<Rightarrow> string \<Rightarrow> 'w HTTPClient \<times> err option" where
  "attachExistingConfigByEndpoint out c sid wantURL =
     (case getJSON unmarshal_rows out c ''/api/v1/broadcaster-configurations'' of
        (c', Inl e) \<Rightarrow> (c', Some e)
      | (c', Inr rows) \<Rightarrow>
          (case config_by_endpoint (normalizeIngestBaseURL wantURL) rows of
             None \<Rightarrow> (c', Some (ErrOther ''naryo: no broadcaster-configuration matches NARYO_PLATFORM_INGEST_URL''))
           | Some (cid, h) \<Rightarrow>
               (upd_sess sid (\<lambda>st. st\<lparr>configID := cid, configHash := h, sharedBroadcasterConfig := True\<rparr>) c', None)))"

text \<open>A random UUID of version 4, from 16 random bytes.\<close>

definition uuid_bytes :: "string \<Rightarrow> string" where
  "uuid_bytes b = b[6 := char_of (of_char (b ! 6) mod 16 + 64 :: nat), 8 := char_of (of_char (b ! 8) mod 64 + 128 :: nat)]"

definition newUUID :: "'w outside \<Rightarrow> 'w HTTPClient \<Rightarrow> 'w HTTPClient \<times> string" where
  "newUUID out c =
     (case RandomBytes out (hc_net c) 16 of
        (w, r) \<Rightarrow>
          let h = hex (uuid_bytes (take 16 (r @ replicate 16 CHR 0x00)))
          in (c\<lparr>hc_net := w\<rparr>, take 8 h @ ''-'' @ take 4 (drop 8 h) @ ''-'' @ take 4 (drop 12 h) @ ''-'' @
                take 4 (drop 16 h) @ ''-'' @ drop 20 h))"

text \<open>The verb \<open>%q\<close> on printable text.\<close>

definition quoted :: "string \<Rightarrow> string" where
  "quoted s = CHR 0x22 # List.concat (map (\<lambda>ch. if ch = CHR 0x22 \<or> ch = CHR 0x5C then [CHR 0x5C, ch] else [ch]) s) @ [CHR 0x22]"

definition attach_fixed_config ::
  "'w outside \<Rightarrow> 'w HTTPClient \<Rightarrow> string \<Rightarrow> 'w HTTPClient \<times> err option" where
  "attach_fixed_config out c sid =
     (let i = hc_fixedConfigID c
      in case getConfigHash out c i of
           (c', Inl e) \<Rightarrow>
             (c', Some (ErrOther (''naryo: NARYO_BROADCASTER_CONFIGURATION_ID '' @ quoted i @ '': '' @ err_text e)))
         | (c', Inr h) \<Rightarrow>
             (upd_sess sid (\<lambda>st. st\<lparr>configID := i, configHash := h, sharedBroadcasterConfig := True\<rparr>) c', None))"

definition createConfig ::
  "'w outside \<Rightarrow> 'w HTTPClient \<Rightarrow> string \<Rightarrow> ('w HTTPClient \<times> err option) option" where
  "createConfig out c sid =
     (if hc_fixedConfigID c \<noteq> [] then Some (attach_fixed_config out c sid)
      else case newUUID out c of
          (c0, i) \<Rightarrow>
            (case post202 out c0 ''/api/v1/broadcaster-configurations''
                (AObj [(''id'', AStr i), (''type'', AStr ''HTTP''),
                       (''endpoint'', AObj [(''url'', AStr (hc_ingest c))]),
                       (''cache'', AObj [(''expirationTime'', AStr ''5m'')])]) of
               (c1, Inl e) \<Rightarrow> Some (c1, Some e)
             | (c1, Inr op) \<Rightarrow> do {
                 (c2, e) \<leftarrow> waitOperation out c1 op;
                 Some (case e of
                     Some e \<Rightarrow>
                       if isBroadcasterConfigNPE e
                       then (case attachExistingConfigByEndpoint out c2 sid (hc_ingest c2) of
                           (c3, None) \<Rightarrow> (c3, None)
                         | (c3, Some _) \<Rightarrow>
                             (c3, Some (ErrOther (err_text e @ '' (reuse failed: no HTTP broadcaster-configuration '' @
                               ''matches ingest URL; set NARYO_BROADCASTER_CONFIGURATION_ID or try a newer '' @
                               ''NARYO_IMAGE / docker compose pull)''))))
                       else (c2, Some e)
                   | None \<Rightarrow>
                       (case getConfigHash out c2 i of
                          (c3, Inl e) \<Rightarrow> (c3, Some e)
                        | (c3, Inr h) \<Rightarrow>
                            (upd_sess sid (\<lambda>st. st\<lparr>configID := i, configHash := h, lastOpID := op\<rparr>) c3, None))) }))"

section \<open>Filters\<close>

record filterRow =
  fr_ID :: string
  fr_Hash :: string
  fr_Name :: string

definition deleteFilter ::
  "'w outside \<Rightarrow> 'w HTTPClient \<Rightarrow> string \<Rightarrow> string \<Rightarrow> 'w HTTPClient \<times> (err + string)" where
  "deleteFilter out c i hash =
     req202 out c ''DELETE'' (''/api/v1/filters/'' @ i) (AObj [(''prevItemHash'', AStr hash)])"

definition postFilterBody ::
  "'w outside \<Rightarrow> 'w HTTPClient \<Rightarrow> pipelineFilterPlan \<Rightarrow> string \<Rightarrow> 'w HTTPClient \<times> (err + string)" where
  "postFilterBody out c plan sid =
     (let wantName = pipelineFilterName sid plan
      in if HederaTopicID plan \<noteq> []
         then post202 out c ''/api/v1/filters''
           (AObj [(''type'', AStr ''TRANSACTION''), (''name'', AStr wantName),
                  (''nodeId'', AStr (hc_hederaNodeID c)), (''identifierType'', AStr ''IDENTITY_ID''),
                  (''value'', AStr (HederaTopicID plan)),
                  (''statuses'', AStrs [''FAILED'', ''CONFIRMED'', ''UNCONFIRMED''])])
         else if EVMContract plan \<noteq> []
         then post202 out c ''/api/v1/filters''
           (AObj [(''type'', AStr ''EVENT_CONTRACT''), (''name'', AStr wantName),
                  (''nodeId'', AStr (hc_ethereumNodeID c)),
                  (''specification'', AObj [(''eventSignature'', AStr ''Transfer(address,address,uint256)'')]),
                  (''statuses'', AStrs [''CONFIRMED'', ''UNCONFIRMED'']),
                  (''filterSyncState'', AObj [(''strategy'', AStr ''BLOCK_BASED''), (''initialBlock'', AInt 0)]),
                  (''visibilityConfiguration'', AObj [(''visible'', ABool True)]),
                  (''contractAddress'', AStr (EVMContract plan))])
         else (c, Inl (ErrOther ''naryo: internal: postFilterBody without topic or contract'')))"

fun filter_by_name :: "string \<Rightarrow> obj option list \<Rightarrow> err + filterRow" where
  "filter_by_name wantName [] = Inl (ErrOther (''naryo: filter '' @ quoted wantName @ '' not found after create''))"
| "filter_by_name wantName (None # rows) = filter_by_name wantName rows"
| "filter_by_name wantName (Some row # rows) =
     (let n = string_or_empty (field row ''name'')
      in if TrimSpace n \<noteq> wantName then filter_by_name wantName rows
         else let i = sprint (field row ''id''); h = string_or_empty (field row ''currentItemHash'')
              in if i = [] \<or> h = [] then filter_by_name wantName rows
                 else Inr \<lparr>fr_ID = i, fr_Hash = h, fr_Name = n\<rparr>)"

definition findFilterByName ::
  "'w outside \<Rightarrow> 'w HTTPClient \<Rightarrow> string \<Rightarrow> 'w HTTPClient \<times> (err + filterRow)" where
  "findFilterByName out c wantName =
     (case getJSON unmarshal_rows out c ''/api/v1/filters'' of
        (c', Inl e) \<Rightarrow> (c', Inl e)
      | (c', Inr rows) \<Rightarrow> (c', filter_by_name wantName rows))"

text \<open>A bounded number of attempts with a pause after each; \<open>e0\<close> is the last error.\<close>

fun retry ::
  "'w outside \<Rightarrow> int \<Rightarrow> ('w HTTPClient \<Rightarrow> 'w HTTPClient \<times> (err + 'a)) \<Rightarrow> nat \<Rightarrow> err \<Rightarrow> 'w HTTPClient \<Rightarrow>
   'w HTTPClient \<times> (err + 'a)" where
  "retry out delay look 0 e0 c = (c, Inl e0)"
| "retry out delay look (Suc n) e0 c =
     (case look c of
        (c1, Inr x) \<Rightarrow> (c1, Inr x)
      | (c1, Inl e) \<Rightarrow>
          (case After out (hc_net c1) delay of
             (w, Some ce) \<Rightarrow> (c1\<lparr>hc_net := w\<rparr>, Inl (ErrOther ce))
           | (w, None) \<Rightarrow> retry out delay look n e (c1\<lparr>hc_net := w\<rparr>)))"

definition findFilterByNameWithRetry ::
  "'w outside \<Rightarrow> 'w HTTPClient \<Rightarrow> string \<Rightarrow> 'w HTTPClient \<times> (err + filterRow)" where
  "findFilterByNameWithRetry out c wantName =
     retry out 350000000 (\<lambda>c. findFilterByName out c wantName) 12 ErrNotFound c"

fun row_exists :: "string \<Rightarrow> obj option list \<Rightarrow> bool" where
  "row_exists i [] = False"
| "row_exists i (None # rows) = row_exists i rows"
| "row_exists i (Some row # rows) = (sprint (field row ''id'') = i \<or> row_exists i rows)"

text \<open>The result of an existence check, whose error the callers ignore.\<close>

definition listed :: "string \<Rightarrow> 'w outside \<Rightarrow> 'w HTTPClient \<Rightarrow> string \<Rightarrow> 'w HTTPClient \<times> bool" where
  "listed path out c i =
     (case getJSON unmarshal_rows out c path of
        (c', Inl e) \<Rightarrow> (c', False)
      | (c', Inr rows) \<Rightarrow> (c', row_exists i rows))"

definition filterExists :: "'w outside \<Rightarrow> 'w HTTPClient \<Rightarrow> string \<Rightarrow> 'w HTTPClient \<times> bool" where
  "filterExists = listed ''/api/v1/filters''"

definition broadcasterExists :: "'w outside \<Rightarrow> 'w HTTPClient \<Rightarrow> string \<Rightarrow> 'w HTTPClient \<times> bool" where
  "broadcasterExists = listed ''/api/v1/broadcasters''"

section \<open>Broadcasters\<close>

text \<open>\<open>url.PathEscape\<close>: every byte but letters, digits and \<open>-_.~$&+:=@\<close> is escaped.\<close>

definition path_safe :: "char \<Rightarrow> bool" where
  "path_safe c = (let n = of_char c :: nat in
     48 \<le> n \<and> n \<le> 57 \<or> 65 \<le> n \<and> n \<le> 90 \<or> 97 \<le> n \<and> n \<le> 122 \<or> c \<in> set ''-_.~$&+:=@'')"

definition hex_upper :: "nat \<Rightarrow> char" where
  "hex_upper d = (if d < 10 then char_of (48 + d) else char_of (55 + d))"

definition PathEscape :: "string \<Rightarrow> string" where
  "PathEscape s = List.concat (map (\<lambda>c. if path_safe c then [c]
     else [CHR ''%'', hex_upper (of_char c div 16), hex_upper (of_char c mod 16)]) s)"

definition ingestDestinationPath :: "'w HTTPClient \<Rightarrow> string \<Rightarrow> string" where
  "ingestDestinationPath c sid = TrimSuffix (hc_dest c) ''/'' @ ''/'' @ PathEscape sid"

record broadcasterRow =
  br_ID :: string
  br_Hash :: string

fun first_text :: "obj \<Rightarrow> string list \<Rightarrow> string" where
  "first_text row [] = []"
| "first_text row (k # ks) =
     (if field row k = ANil then first_text row ks
      else let s = TrimSpace (sprint (field row k))
           in if s \<noteq> [] \<and> s \<noteq> ''<nil>'' then s else first_text row ks)"

definition broadcasterRowConfigurationID :: "obj \<Rightarrow> string" where
  "broadcasterRowConfigurationID row = first_text row [''configurationId'', ''configurationID'', ''configuration_id'']"

fun first_present :: "obj \<Rightarrow> string list \<Rightarrow> string" where
  "first_present tgt [] = []"
| "first_present tgt (k # ks) =
     (if field tgt k = ANil then first_present tgt ks else TrimSpace (sprint (field tgt k)))"

definition broadcasterTargetFilterID :: "obj \<Rightarrow> string" where
  "broadcasterTargetFilterID tgt = first_present tgt [''filterId'', ''filterID'', ''filter_id'']"

definition destinationString :: "any \<Rightarrow> string" where
  "destinationString d =
     (case d of
        AStr x \<Rightarrow> x
      | AObj m \<Rightarrow> (case field m ''value'' of AStr v \<Rightarrow> v | _ \<Rightarrow> TrimSpace (sprint d))
      | _ \<Rightarrow> TrimSpace (sprint d))"

definition destination_matches :: "string \<Rightarrow> any \<Rightarrow> bool" where
  "destination_matches wantNorm d =
     (let s = TrimSpace (destinationString d); sNorm = TrimSuffix s ''/''
      in s \<noteq> [] \<and> (sNorm = wantNorm \<or> HasSuffix sNorm wantNorm \<or> Contains sNorm wantNorm \<and> 12 \<le> length wantNorm))"

definition destinationsInclude :: "any list \<Rightarrow> string \<Rightarrow> bool" where
  "destinationsInclude dests want =
     (let want = TrimSpace want
      in want \<noteq> [] \<and> list_ex (destination_matches (TrimSuffix want ''/'')) dests)"

text \<open>Whether a listed row can be the wanted broadcaster, and its score.\<close>

definition broadcaster_candidate ::
  "string \<Rightarrow> string \<Rightarrow> string \<Rightarrow> string \<Rightarrow> obj \<Rightarrow> (broadcasterRow \<times> nat) option" where
  "broadcaster_candidate configurationID' destPath targetType filterID' row =
     (case as_object (field row ''target'') of
        None \<Rightarrow> None
      | Some tgt \<Rightarrow>
          if sprint (field tgt ''type'') \<noteq> targetType then None
          else if targetType = ''FILTER'' \<and> broadcasterTargetFilterID tgt \<noteq> filterID' then None
          else let dests = (case as_array (field tgt ''destinations'') of None \<Rightarrow> [] | Some ds \<Rightarrow> ds)
               in if \<not> destinationsInclude dests destPath then None
                  else let i = TrimSpace (sprint (field row ''id'')); h = string_or_empty (field row ''currentItemHash'');
                           cid = broadcasterRowConfigurationID row
                       in if i = [] then None
                          else Some (\<lparr>br_ID = i, br_Hash = h\<rparr>,
                                 (if cid \<noteq> [] \<and> EqualFold cid configurationID' then 10 else 0) +
                                 (if h \<noteq> [] then 5 else 0)))"

fun best_broadcaster ::
  "(obj \<Rightarrow> (broadcasterRow \<times> nat) option) \<Rightarrow> (broadcasterRow \<times> nat) option \<Rightarrow> obj option list \<Rightarrow>
   (broadcasterRow \<times> nat) option" where
  "best_broadcaster cand best [] = best"
| "best_broadcaster cand best (None # rows) = best_broadcaster cand best rows"
| "best_broadcaster cand best (Some row # rows) =
     (case cand row of
        None \<Rightarrow> best_broadcaster cand best rows
      | Some (br, score) \<Rightarrow>
          best_broadcaster cand
            (case best of
               None \<Rightarrow> Some (br, score)
             | Some (b, s) \<Rightarrow>
                 if s < score \<or> score = s \<and> br_Hash br \<noteq> [] \<and> br_Hash b = [] then Some (br, score) else best)
            rows)"

definition findBroadcaster ::
  "'w outside \<Rightarrow> 'w HTTPClient \<Rightarrow> string \<Rightarrow> string \<Rightarrow> string \<Rightarrow> string \<Rightarrow> 'w HTTPClient \<times> (err + broadcasterRow)" where
  "findBroadcaster out c configurationID' destPath targetType filterID' =
     (case getJSON unmarshal_rows out c ''/api/v1/broadcasters'' of
        (c', Inl e) \<Rightarrow> (c', Inl e)
      | (c', Inr rows) \<Rightarrow>
          (case best_broadcaster (broadcaster_candidate (TrimSpace configurationID') destPath targetType filterID') None rows of
             None \<Rightarrow> (c', Inl (ErrOther ''naryo: broadcaster not found after create''))
           | Some (br, _) \<Rightarrow> (c', Inr br)))"

definition findBroadcasterWithRetry ::
  "'w outside \<Rightarrow> 'w HTTPClient \<Rightarrow> string \<Rightarrow> string \<Rightarrow> string \<Rightarrow> string \<Rightarrow> 'w HTTPClient \<times> (err + broadcasterRow)" where
  "findBroadcasterWithRetry out c configurationID' destPath targetType filterID' =
     retry out 500000000 (\<lambda>c. findBroadcaster out c configurationID' destPath targetType filterID') 20 ErrNotFound c"

definition getBroadcasterHash ::
  "'w outside \<Rightarrow> 'w HTTPClient \<Rightarrow> string \<Rightarrow> 'w HTTPClient \<times> (err + string)" where
  "getBroadcasterHash out c i =
     (let i = TrimSpace i
      in if i = [] then (c, Inl (ErrOther ''naryo: empty broadcaster id''))
         else case getJSON unmarshal_map out c (''/api/v1/broadcasters/'' @ PathEscape i) of
             (c', Inl e) \<Rightarrow> (c', Inl e)
           | (c', Inr row) \<Rightarrow>
               (let h = string_or_empty (field row ''currentItemHash'')
                in if TrimSpace h = [] then (c', Inl (ErrOther ''naryo: GET broadcaster missing currentItemHash''))
                   else (c', Inr h)))"

definition deleteBroadcaster ::
  "'w outside \<Rightarrow> 'w HTTPClient \<Rightarrow> string \<Rightarrow> string \<Rightarrow> 'w HTTPClient \<times> (err + string)" where
  "deleteBroadcaster out c i hash =
     req202 out c ''DELETE'' (''/api/v1/broadcasters/'' @ i) (AObj [(''prevItemHash'', AStr hash)])"

definition deleteConfig ::
  "'w outside \<Rightarrow> 'w HTTPClient \<Rightarrow> string \<Rightarrow> string \<Rightarrow> 'w HTTPClient \<times> (err + string)" where
  "deleteConfig out c i hash =
     req202 out c ''DELETE'' (''/api/v1/broadcaster-configurations/'' @ i) (AObj [(''prevItemHash'', AStr hash)])"

text \<open>The end of \<open>createBroadcaster\<close>: the row it found is completed and recorded.\<close>

definition record_broadcaster ::
  "'w outside \<Rightarrow> 'w HTTPClient \<Rightarrow> string \<Rightarrow> string \<Rightarrow> broadcasterRow \<Rightarrow> 'w HTTPClient \<times> err option" where
  "record_broadcaster out c sid op br =
     (let set = (\<lambda>h c. upd_sess sid (\<lambda>st. st\<lparr>broadcasterID := br_ID br, broadcasterHash := h, lastOpID := op\<rparr>) c)
      in if br_Hash br \<noteq> [] then (set (br_Hash br) c, None)
         else case getBroadcasterHash out c (br_ID br) of
             (c', Inl e) \<Rightarrow>
               (c', Some (ErrOther (''naryo: broadcaster '' @ br_ID br @ '' listed without hash: '' @ err_text e)))
           | (c', Inr h) \<Rightarrow> (set h c', None))"

definition createBroadcaster ::
  "'w outside \<Rightarrow> 'w HTTPClient \<Rightarrow> string \<Rightarrow> string \<Rightarrow> string \<Rightarrow> ('w HTTPClient \<times> err option) option" where
  "createBroadcaster out c sid filterID' targetType =
     (let st = sess_of c sid; destPath = ingestDestinationPath c sid
      in if configID st = [] then Some (c, Some (ErrOther ''naryo: missing broadcaster-configuration id''))
         else if targetType = ''FILTER'' \<and> filterID' = []
         then Some (c, Some (ErrOther ''naryo: FILTER broadcaster requires filterId''))
         else case post202 out c ''/api/v1/broadcasters''
             (AObj [(''configurationId'', AStr (configID st)),
                    (''target'', AObj ([(''type'', AStr targetType), (''destinations'', AStrs [destPath])] @
                       (if targetType = ''FILTER'' then [(''filterId'', AStr filterID')] else [])))]) of
             (c1, Inl e) \<Rightarrow> Some (c1, Some e)
           | (c1, Inr op) \<Rightarrow> do {
               (c2, e) \<leftarrow> waitOperation out c1 op;
               Some (case e of
                   Some e \<Rightarrow> (c2, Some e)
                 | None \<Rightarrow>
                     (case findBroadcasterWithRetry out c2 (configID st) destPath targetType filterID' of
                        (c3, Inl e) \<Rightarrow> (c3, Some e)
                      | (c3, Inr br) \<Rightarrow> record_broadcaster out c3 sid op br)) })"

section \<open>Fallback to a broadcaster for everything\<close>

definition isNaryoRevisionHookFailure :: "err \<Rightarrow> bool" where
  "isNaryoRevisionHookFailure e =
     (let lo = ToLower (err_text e)
      in Contains lo ''onafterapply'' \<or> Contains lo ''hook error'' \<or>
         Contains lo ''unexpected_error'' \<and> Contains lo ''runtimeexception'')"

text \<open>Delete the filter of a session, ignoring every error, and forget it.\<close>

definition drop_filter :: "'w outside \<Rightarrow> 'w HTTPClient \<Rightarrow> string \<Rightarrow> 'w HTTPClient option" where
  "drop_filter out c sid =
     (let st = sess_of c sid; forget = upd_sess sid (\<lambda>st. st\<lparr>filterID := [], filterHash := []\<rparr>)
      in case deleteFilter out c (filterID st) (filterHash st) of
           (c1, Inl _) \<Rightarrow> Some (forget c1)
         | (c1, Inr op) \<Rightarrow> do { (c2, _) \<leftarrow> waitOperation out c1 op; Some (forget c2) })"

definition provisionALLBroadcasterUnlocked ::
  "'w outside \<Rightarrow> 'w HTTPClient \<Rightarrow> string \<Rightarrow> ('w HTTPClient \<times> err option) option" where
  "provisionALLBroadcasterUnlocked out c sid = do {
     c1 \<leftarrow> (if filterID (sess_of c sid) \<noteq> [] then drop_filter out c sid else Some c);
     createBroadcaster out c1 sid [] ''ALL'' }"

definition fallbackALLAfterRevisionHookFailure ::
  "'w outside \<Rightarrow> 'w HTTPClient \<Rightarrow> string \<Rightarrow> err \<Rightarrow> ('w HTTPClient \<times> (err + string)) option" where
  "fallbackALLAfterRevisionHookFailure out c sid scopedErr =
     (if \<not> NaryoAllowAllBroadcasterFallback (hc_env c) \<or> \<not> isNaryoRevisionHookFailure scopedErr
      then Some (c, Inl scopedErr)
      else do {
        (c1, e) \<leftarrow> provisionALLBroadcasterUnlocked out (upd_sess sid (\<lambda>st. st\<lparr>filterPlanKey := ''ALL''\<rparr>) c) sid;
        Some (case e of
            Some e \<Rightarrow> (c1, Inl (ErrOther (err_text scopedErr @ ''; ALL fallback failed: '' @ err_text e)))
          | None \<Rightarrow> (c1, Inr (lastOpID (sess_of c1 sid)))) })"

end
