(* ===== verification/Naryo_Session.thy ===== *)
theory Naryo_Session
  imports Naryo_Provision
begin

text \<open>
  The operations of the HTTP client that the session service calls, and what they have in common
  with the interface of \<^verbatim>\<open>client.go\<close>.
\<close>

section \<open>Provisioning\<close>

definition ensure_ok :: "'w HTTPClient \<Rightarrow> 'w HTTPClient" where
  "ensure_ok c = clearErrUnlocked (upd_stats (\<lambda>s. s\<lparr>EnsureOK := add64 (EnsureOK s) 1\<rparr>) c)"

text \<open>The result of a step that failed: the error is recorded and returned.\<close>

definition ensure_failed :: "'w outside \<Rightarrow> 'w HTTPClient \<Rightarrow> err \<Rightarrow> 'w HTTPClient \<times> (err + string)" where
  "ensure_failed out c e = (recordErrUnlocked out e c, Inl e)"

text \<open>The result of a failed scoped step that may be replaced by a broadcaster for everything.\<close>

definition ensure_fallback ::
  "'w outside \<Rightarrow> 'w HTTPClient \<Rightarrow> string \<Rightarrow> err \<Rightarrow> ('w HTTPClient \<times> (err + string)) option" where
  "ensure_fallback out c sid e = do {
     (c1, r) \<leftarrow> fallbackALLAfterRevisionHookFailure out c sid e;
     Some (case r of Inl e2 \<Rightarrow> ensure_failed out c1 e2 | Inr i \<Rightarrow> (ensure_ok c1, Inr i)) }"

text \<open>
  Post the pipeline's filter, wait for it and look up its id and hash; \<open>Inl r\<close> is a result with
  which \<open>EnsurePipeline\<close> ends here.
\<close>

definition create_filter ::
  "'w outside \<Rightarrow> 'w HTTPClient \<Rightarrow> string \<Rightarrow> pipelineFilterPlan \<Rightarrow>
   (('w HTTPClient \<times> (err + string)) + 'w HTTPClient) option" where
  "create_filter out c sid plan =
     (case postFilterBody out c plan sid of
        (c1, Inl e) \<Rightarrow> Some (Inl (ensure_failed out c1 e))
      | (c1, Inr op) \<Rightarrow> do {
          (c2, e) \<leftarrow> waitOperation out c1 op;
          case e of
            Some e \<Rightarrow> do { r \<leftarrow> ensure_fallback out c2 sid e; Some (Inl r) }
          | None \<Rightarrow>
              Some (case findFilterByNameWithRetry out c2 (pipelineFilterName sid plan) of
                  (c3, Inl e) \<Rightarrow> Inl (ensure_failed out c3 e)
                | (c3, Inr fr) \<Rightarrow>
                    Inr (upd_sess sid (\<lambda>st. st\<lparr>filterID := fr_ID fr, filterHash := fr_Hash fr, lastOpID := op\<rparr>) c3)) })"

definition ensure_filter ::
  "'w outside \<Rightarrow> 'w HTTPClient \<Rightarrow> string \<Rightarrow> pipelineFilterPlan \<Rightarrow>
   (('w HTTPClient \<times> (err + string)) + 'w HTTPClient) option" where
  "ensure_filter out c sid plan =
     (if filterID (sess_of c sid) = [] then create_filter out c sid plan
      else case filterExists out c (filterID (sess_of c sid)) of
          (c1, True) \<Rightarrow> Some (Inr c1)
        | (c1, False) \<Rightarrow>
            create_filter out (upd_sess sid (\<lambda>st. st\<lparr>filterID := [], filterHash := []\<rparr>) c1) sid plan)"

definition ensure_scoped ::
  "'w outside \<Rightarrow> 'w HTTPClient \<Rightarrow> string \<Rightarrow> pipelineFilterPlan \<Rightarrow> ('w HTTPClient \<times> (err + string)) option" where
  "ensure_scoped out c sid plan = do {
     r \<leftarrow> ensure_filter out c sid plan;
     case r of
       Inl res \<Rightarrow> Some res
     | Inr c1 \<Rightarrow> do {
         (c2, e) \<leftarrow> createBroadcaster out c1 sid (filterID (sess_of c1 sid)) ''FILTER'';
         case e of
           Some e \<Rightarrow> ensure_fallback out c2 sid e
         | None \<Rightarrow> Some (ensure_ok c2, Inr (lastOpID (sess_of c2 sid))) } }"

definition ensure_all ::
  "'w outside \<Rightarrow> 'w HTTPClient \<Rightarrow> string \<Rightarrow> ('w HTTPClient \<times> (err + string)) option" where
  "ensure_all out c sid = do {
     (c1, e) \<leftarrow> provisionALLBroadcasterUnlocked out c sid;
     Some (case e of
         Some e \<Rightarrow> ensure_failed out c1 e
       | None \<Rightarrow> (ensure_ok c1, Inr (lastOpID (sess_of c1 sid)))) }"

text \<open>The provisioning once the session has no broadcaster.\<close>

definition ensure_new ::
  "'w outside \<Rightarrow> 'w HTTPClient \<Rightarrow> string \<Rightarrow> pipelineFilterPlan \<Rightarrow> ('w HTTPClient \<times> (err + string)) option" where
  "ensure_new out c sid plan = do {
     let st = sess_of c sid;
     c1 \<leftarrow> (if filterID st \<noteq> [] \<and> filterPlanKey st \<noteq> Key plan then drop_filter out c sid else Some c);
     let c2 = upd_sess sid (\<lambda>st. st\<lparr>filterPlanKey := Key plan\<rparr>) c1;
     (c3, e) \<leftarrow> (if configID (sess_of c2 sid) = [] then createConfig out c2 sid else Some (c2, None));
     case e of
       Some e \<Rightarrow> Some (ensure_failed out c3 e)
     | None \<Rightarrow> if UseALLFallback plan then ensure_all out c3 sid else ensure_scoped out c3 sid plan }"

text \<open>The body of \<open>EnsurePipeline\<close> under the mutex.\<close>

definition ensure_locked ::
  "'w outside \<Rightarrow> 'w HTTPClient \<Rightarrow> string \<Rightarrow> pipelineFilterPlan \<Rightarrow> ('w HTTPClient \<times> (err + string)) option" where
  "ensure_locked out c0 sid plan =
     (let c = upd_sess sid (\<lambda>st. st) c0; st = sess_of c sid
      in if broadcasterID st \<noteq> []
         then (case broadcasterExists out c (broadcasterID st) of
             (c1, ok) \<Rightarrow>
               if ok \<and> Key plan = filterPlanKey st then Some (ensure_ok c1, Inr (lastOpID st))
               else ensure_new out (upd_sess sid (\<lambda>st. st\<lparr>broadcasterID := [], broadcasterHash := []\<rparr>) c1) sid plan)
         else ensure_new out c sid plan)"

definition http_EnsurePipeline ::
  "'w outside \<Rightarrow> 'w HTTPClient \<Rightarrow> string \<Rightarrow> obj \<Rightarrow> ('w HTTPClient \<times> (err + string)) option" where
  "http_EnsurePipeline out c session cfg =
     (let sid = TrimSpace session
      in if sid = [] then Some (c, Inl (ErrOther ''naryo: empty session id''))
         else if hc_skipEgress c then do {
           c1 \<leftarrow> lock c;
           Some (unlock (ensure_ok c1), Inr ''naryo-egress-skipped'') }
         else let plan = resolvePipelineFilterPlan (hc_env c) cfg
              in if \<not> UseALLFallback plan \<and> HederaTopicID plan = [] \<and> EVMContract plan = []
                 then Some (c, Inl (ErrOther (''naryo: pipeline filter plan: '' @ Reason plan)))
                 else do {
                   c1 \<leftarrow> lock c;
                   (c2, r) \<leftarrow> ensure_locked out c1 sid plan;
                   Some (unlock c2, r) })"

section \<open>Pausing, resuming and stopping\<close>

definition pause_locked ::
  "'w outside \<Rightarrow> 'w HTTPClient \<Rightarrow> string \<Rightarrow> ('w HTTPClient \<times> err option) option" where
  "pause_locked out c sid =
     (case map_of (hc_sess c) sid of
        None \<Rightarrow> Some (c, None)
      | Some st \<Rightarrow>
          if broadcasterID st = [] then Some (c, None)
          else case deleteBroadcaster out c (broadcasterID st) (broadcasterHash st) of
              (c1, Inl e) \<Rightarrow> Some (recordErrUnlocked out e c1, Some e)
            | (c1, Inr op) \<Rightarrow> do {
                (c2, e) \<leftarrow> waitOperation out c1 op;
                Some (case e of
                    Some e \<Rightarrow> (recordErrUnlocked out e c2, Some e)
                  | None \<Rightarrow>
                      let c3 = (case map_of (hc_sess c2) sid of
                            None \<Rightarrow> c2
                          | Some s2 \<Rightarrow>
                              if broadcasterID s2 = broadcasterID st
                              then upd_sess sid (\<lambda>s. s\<lparr>broadcasterID := [], broadcasterHash := [], lastOpID := op\<rparr>) c2
                              else c2)
                      in (clearErrUnlocked (upd_stats (\<lambda>s. s\<lparr>PauseOK := add64 (PauseOK s) 1\<rparr>) c3), None)) })"

definition http_PauseEgress ::
  "'w outside \<Rightarrow> 'w HTTPClient \<Rightarrow> string \<Rightarrow> ('w HTTPClient \<times> err option) option" where
  "http_PauseEgress out c sid = do {
     c1 \<leftarrow> lock c;
     (c2, r) \<leftarrow> pause_locked out c1 sid;
     Some (unlock c2, r) }"

definition http_ResumeEgress ::
  "'w outside \<Rightarrow> 'w HTTPClient \<Rightarrow> string \<Rightarrow> obj \<Rightarrow> ('w HTTPClient \<times> err option) option" where
  "http_ResumeEgress out c session cfg = do {
     (c1, r) \<leftarrow> http_EnsurePipeline out c session cfg;
     case r of
       Inl e \<Rightarrow> Some (c1, Some e)
     | Inr _ \<Rightarrow> do {
         c2 \<leftarrow> lock c1;
         Some (unlock (upd_stats (\<lambda>s. s\<lparr>ResumeOK := add64 (ResumeOK s) 1\<rparr>) c2), None) } }"

text \<open>Send one deletion and wait for it, ignoring every error.\<close>

definition tear_down ::
  "'w outside \<Rightarrow> bool \<Rightarrow> ('w HTTPClient \<Rightarrow> 'w HTTPClient \<times> (err + string)) \<Rightarrow> 'w HTTPClient \<Rightarrow> 'w HTTPClient option" where
  "tear_down out wanted delete c =
     (if \<not> wanted then Some c
      else case delete c of
          (c1, Inl _) \<Rightarrow> Some c1
        | (c1, Inr op) \<Rightarrow> do { (c2, _) \<leftarrow> waitOperation out c1 op; Some c2 })"

text \<open>The part of \<open>StopPipeline\<close> that runs without the mutex.\<close>

definition stop_network :: "'w outside \<Rightarrow> httpSessState \<Rightarrow> 'w HTTPClient \<Rightarrow> 'w HTTPClient option" where
  "stop_network out st c = do {
     c1 \<leftarrow> tear_down out (broadcasterID st \<noteq> [] \<and> broadcasterHash st \<noteq> [])
             (\<lambda>c. deleteBroadcaster out c (broadcasterID st) (broadcasterHash st)) c;
     c2 \<leftarrow> tear_down out (filterID st \<noteq> [] \<and> filterHash st \<noteq> [])
             (\<lambda>c. deleteFilter out c (filterID st) (filterHash st)) c1;
     tear_down out (configID st \<noteq> [] \<and> configHash st \<noteq> [] \<and> \<not> sharedBroadcasterConfig st)
             (\<lambda>c. deleteConfig out c (configID st) (configHash st)) c2 }"

definition http_StopPipeline ::
  "'w outside \<Rightarrow> 'w HTTPClient \<Rightarrow> string \<Rightarrow> ('w HTTPClient \<times> err option) option" where
  "http_StopPipeline out c sid = do {
     c1 \<leftarrow> lock c;
     let st = map_of (hc_sess c1) sid;
     let c2 = unlock (if st = None then c1 else c1\<lparr>hc_sess := AList.delete sid (hc_sess c1)\<rparr>);
     case st of
       None \<Rightarrow> Some (c2, None)
     | Some st \<Rightarrow> do {
         c3 \<leftarrow> stop_network out st c2;
         c4 \<leftarrow> lock c3;
         c5 \<leftarrow> clearErr (upd_stats (\<lambda>s. s\<lparr>StopOK := add64 (StopOK s) 1\<rparr>) c4);
         Some (unlock c5, None) } }"

definition http_client :: "'w outside \<Rightarrow> 'w HTTPClient naryo_client" where
  "http_client out = \<lparr>EnsurePipeline = http_EnsurePipeline out, PauseEgress = http_PauseEgress out,
     ResumeEgress = http_ResumeEgress out, StopPipeline = http_StopPipeline out\<rparr>"

section \<open>Observability\<close>

definition http_Stats :: "'w outside \<Rightarrow> 'w HTTPClient \<Rightarrow> ('w HTTPClient \<times> obj) option" where
  "http_Stats out c = do {
     c1 \<leftarrow> lock c;
     let s = hc_stats c1;
     let healthy = (LastErr s = []);
     let o1 = [(''mode'', AStr ''http''), (''healthy'', ABool healthy), (''baseURL'', AStr (hc_base c1)),
        (''ingestURL'', AStr (hc_ingest c1)), (''destPath'', AStr (hc_dest c1)),
        (''hederaNodeId'', AStr (hc_hederaNodeID c1)), (''ethereumNodeId'', AStr (hc_ethereumNodeID c1)),
        (''egressSkip'', ABool (hc_skipEgress c1)), (''sessions'', AInt (int (length (hc_sess c1)))),
        (''ensureOK'', AInt (EnsureOK s)), (''pauseOK'', AInt (PauseOK s)), (''resumeOK'', AInt (ResumeOK s)),
        (''stopOK'', AInt (StopOK s)), (''lastChecked'', AStr (RFC3339Nano (Now out (hc_net c1))))];
     let o2 = (if 0 < hc_pollMS c1 then set_field ''lastPollMs'' (AInt (hc_pollMS c1)) o1 else o1);
     let o3 = (if \<not> healthy then set_field ''lastErrorAt'' (AStr (RFC3339Nano (LastErrAt s)))
                (set_field ''lastError'' (AStr (LastErr s)) o2) else o2);
     Some (unlock c1, o3) }"

definition row_any :: "obj option \<Rightarrow> any" where
  "row_any r = (case r of None \<Rightarrow> ANil | Some m \<Rightarrow> AObj m)"

definition session_row :: "string \<times> httpSessState \<Rightarrow> obj" where
  "session_row p = (case p of (sid, st) \<Rightarrow>
     [(''sessionId'', AStr sid), (''filterId'', AStr (filterID st)), (''broadcasterId'', AStr (broadcasterID st)),
      (''broadcasterConfigurationId'', AStr (configID st)), (''filterPlanKey'', AStr (filterPlanKey st)),
      (''sharedBroadcasterConfiguration'', ABool (sharedBroadcasterConfig st))])"

definition curly_quote :: string where
  "curly_quote = bytes [226, 128, 153]"

definition snapshot_hints :: "bool \<Rightarrow> nat \<Rightarrow> nat \<Rightarrow> obj list \<Rightarrow> string list" where
  "snapshot_hints egressSkip filtersCount broadcastersCount rows =
     (if egressSkip
      then [''NARYO_SKIP_EGRESS_PROVISION is enabled: start/resume does not call Naryo'' @ curly_quote @
            ''s Configuration API, so filters/broadcasters/configs stay empty unless something else created them.'']
      else []) @
     (if \<not> egressSkip \<and> filtersCount = 0 \<and> 0 < broadcastersCount
      then [''Naryo lists broadcasters but zero filters '' @ em_dash @ '' normal for ALL-target pipelines (no FILTER row). '' @
            ''Scoped sessions add filters named pf-<sessionId>-hcs or -evm; declarative filters from Naryo YAML also appear here.'']
      else []) @
     (if \<not> egressSkip \<and> broadcastersCount = 0
      then if list_ex (\<lambda>s. string_or_empty (field s ''filterId'') \<noteq> [] \<and> string_or_empty (field s ''broadcasterId'') = []) rows
           then [''Naryo lists no HTTP broadcasters while the orchestrator still tracks a filter without a broadcaster'' @ em_dash @
                 ''typical when the pipeline is paused (egress removed). Resume to recreate the broadcaster.'']
           else if rows = []
           then [''No broadcasters in Naryo and no in-memory orchestrator sessions. If you expect rows here, confirm '' @
                 ''start/resume succeeded against this NARYO_CONFIG_API_BASE and egress provisioning is not skipped.'']
           else []
      else [])"

definition appendNaryoSnapshotHints :: "bool \<Rightarrow> nat \<Rightarrow> nat \<Rightarrow> obj list \<Rightarrow> obj \<Rightarrow> obj" where
  "appendNaryoSnapshotHints egressSkip filtersCount broadcastersCount rows out =
     (let hints = snapshot_hints egressSkip filtersCount broadcastersCount rows
      in if hints = [] then out else set_field ''snapshotHints'' (AArr (map AStr hints)) out)"

definition wrap_error :: "string \<Rightarrow> err \<Rightarrow> err" where
  "wrap_error what e = ErrOther (what @ '': '' @ err_text e)"

definition http_ConfigurationSnapshot ::
  "'w outside \<Rightarrow> 'w HTTPClient \<Rightarrow> ('w HTTPClient \<times> (err + obj)) option" where
  "http_ConfigurationSnapshot out c =
     (case getJSON unmarshal_rows out c ''/api/v1/filters'' of
        (c1, Inl e) \<Rightarrow> Some (c1, Inl (wrap_error ''naryo filters'' e))
      | (c1, Inr filters) \<Rightarrow>
     (case getJSON unmarshal_rows out c1 ''/api/v1/broadcasters'' of
        (c2, Inl e) \<Rightarrow> Some (c2, Inl (wrap_error ''naryo broadcasters'' e))
      | (c2, Inr broadcasters) \<Rightarrow>
     (case getJSON unmarshal_rows out c2 ''/api/v1/broadcaster-configurations'' of
        (c3, Inl e) \<Rightarrow> Some (c3, Inl (wrap_error ''naryo broadcaster-configurations'' e))
      | (c3, Inr configs) \<Rightarrow> do {
          c4 \<leftarrow> lock c3;
          let skip = hc_skipEgress c4;
          let rows = map session_row (sort_key fst (hc_sess c4));
          let result = [(''mode'', AStr ''http''), (''configurationApiBaseURL'', AStr (hc_base c4)),
             (''filters'', AArr (map row_any filters)), (''filtersCount'', AInt (int (length filters))),
             (''broadcasters'', AArr (map row_any broadcasters)), (''broadcastersCount'', AInt (int (length broadcasters))),
             (''broadcasterConfigurations'', AArr (map row_any configs)),
             (''broadcasterConfigurationsCount'', AInt (int (length configs))),
             (''egressProvisionSkipped'', ABool skip), (''orchestratorSessions'', AArr (map AObj rows)),
             (''orchestratorSessionsCount'', AInt (int (length rows)))];
          Some (unlock c4, Inr (appendNaryoSnapshotHints skip (length filters) (length broadcasters) rows result)) })))"

end
