(* ===== verification/Naryo_Facts.thy ===== *)
theory Naryo_Facts
  imports Naryo_Session
begin

text \<open>
  What the HTTP client guarantees: which parts of its state each call touches, the discipline of its
  mutex, what a successful provisioning leaves behind, how it recognises its own broadcasters, and
  when waiting for an operation ends.
\<close>

section \<open>Calls that only talk to Naryo\<close>

definition quiet :: "'w HTTPClient \<Rightarrow> 'w HTTPClient \<Rightarrow> bool" where
  "quiet c c' \<longleftrightarrow> c' = c\<lparr>hc_net := hc_net c', hc_pollMS := hc_pollMS c'\<rparr>"

lemma quiet_refl [simp]: "quiet c c"
  by (simp add: quiet_def)

lemma quiet_net [simp]: "quiet c (c\<lparr>hc_net := w\<rparr>)" "quiet c (c\<lparr>hc_pollMS := n\<rparr>)"
  by (simp_all add: quiet_def)

lemma quiet_trans [trans]: "quiet a b \<Longrightarrow> quiet b c \<Longrightarrow> quiet a c"
  unfolding quiet_def by (cases a; cases b; cases c) simp

lemma quiet_fields:
  "quiet c c' \<Longrightarrow> hc_sess c' = hc_sess c \<and> hc_mu c' = hc_mu c \<and> hc_stats c' = hc_stats c \<and>
     hc_env c' = hc_env c \<and> hc_skipEgress c' = hc_skipEgress c \<and> hc_dest c' = hc_dest c"
  unfolding quiet_def by (erule ssubst) simp

named_theorems quiet_intros \<open>calls that leave all but the world alone\<close>

lemma quiet_http_do [quiet_intros]: "http_do out c req = (c', r) \<Longrightarrow> quiet c c'"
  by (auto simp: http_do_def split: prod.splits)

lemma quiet_req202 [quiet_intros]: "req202 out c m p b = (c', r) \<Longrightarrow> quiet c c'"
  by (auto simp: req202_def split: prod.splits sum.splits dest: quiet_http_do)

lemma quiet_post202 [quiet_intros]: "post202 out c p b = (c', r) \<Longrightarrow> quiet c c'"
  unfolding post202_def by (rule quiet_req202)

lemma quiet_getJSON [quiet_intros]: "getJSON dec out c p = (c', r) \<Longrightarrow> quiet c c'"
  by (auto simp: getJSON_def split: prod.splits sum.splits dest: quiet_http_do)

lemma quiet_poll_once: "poll_once out c opID = (c', r) \<Longrightarrow> quiet c c'"
  by (auto simp: poll_once_def Let_def split: prod.splits sum.splits dest: quiet_http_do intro: quiet_trans)

lemma quiet_wait_loop: "wait_loop out opID c = Some r \<Longrightarrow> quiet c (fst r)"
proof (erule wait_loop.raw_induct [where P = "\<lambda>out opID c r. quiet c (fst r)", rotated], goal_cases)
  case (1 rec out opID c r)
  note IH = 1(1) and eq = 1(2)
  show ?case
  proof (cases "DeadlinePassed out (hc_net c)")
    case True
    with eq show ?thesis by auto
  next
    case False
    obtain c1 p where p: "poll_once out c opID = (c1, p)" by (cases "poll_once out c opID")
    note q = quiet_poll_once [OF p]
    show ?thesis
    proof (cases p)
      case (Finished e)
      with eq False p q show ?thesis by auto
    next
      case Pending
      obtain w ce where w: "After out (hc_net c1) (hc_poll c1) = (w, ce)" by (cases "After out (hc_net c1) (hc_poll c1)")
      have n: "quiet c (c1\<lparr>hc_net := w\<rparr>)" using q quiet_net(1) by (rule quiet_trans)
      show ?thesis
      proof (cases ce)
        case None
        with eq False p Pending w have "rec out opID (c1\<lparr>hc_net := w\<rparr>) = Some r" by simp
        from quiet_trans [OF n IH [OF this]] show ?thesis .
      next
        case (Some e)
        with eq False p Pending w n show ?thesis by auto
      qed
    qed
  qed
qed

lemma quiet_waitOperation [quiet_intros]: "waitOperation out c opID = Some (c', e) \<Longrightarrow> quiet c c'"
  by (auto simp: waitOperation_def split: if_splits dest: quiet_wait_loop)

lemma quiet_retry:
  assumes "\<And>c c' r. look c = (c', r) \<Longrightarrow> quiet c c'"
  shows "retry out d look n e0 c = (c', r) \<Longrightarrow> quiet c c'"
proof (induction n arbitrary: e0 c)
  case (Suc n)
  obtain c1 x where l: "look c = (c1, x)" by (cases "look c")
  note q = assms [OF l]
  show ?case
  proof (cases x)
    case (Inr y)
    with Suc.prems l q show ?thesis by simp
  next
    case (Inl e)
    obtain w ce where w: "After out (hc_net c1) d = (w, ce)" by (cases "After out (hc_net c1) d")
    have "quiet c (c1\<lparr>hc_net := w\<rparr>)" using q quiet_net(1) by (rule quiet_trans)
    then show ?thesis
      using Suc l Inl w by (cases ce) (auto intro: quiet_trans)
  qed
qed simp

lemma quiet_lookups [quiet_intros]:
  "getConfigHash out c i = (c', r1) \<Longrightarrow> quiet c c'"
  "findFilterByName out c nm = (c', r2) \<Longrightarrow> quiet c c'"
  "findBroadcaster out c ci dp tt fi = (c', r3) \<Longrightarrow> quiet c c'"
  "getBroadcasterHash out c i = (c', r1) \<Longrightarrow> quiet c c'"
  "listed path out c i = (c', r4) \<Longrightarrow> quiet c c'"
  "newUUID out c = (c', u) \<Longrightarrow> quiet c c'"
  by (auto simp: getConfigHash_def findFilterByName_def findBroadcaster_def getBroadcasterHash_def listed_def
      newUUID_def Let_def split: prod.splits sum.splits option.splits if_splits dest: quiet_getJSON)

lemma quiet_findFilterByNameWithRetry [quiet_intros]:
  "findFilterByNameWithRetry out c nm = (c', r) \<Longrightarrow> quiet c c'"
  unfolding findFilterByNameWithRetry_def by (erule quiet_retry [rotated]) (rule quiet_lookups(2))

lemma quiet_findBroadcasterWithRetry [quiet_intros]:
  "findBroadcasterWithRetry out c ci dp tt fi = (c', r) \<Longrightarrow> quiet c c'"
  unfolding findBroadcasterWithRetry_def by (erule quiet_retry [rotated]) (rule quiet_lookups(3))

lemma quiet_deletes [quiet_intros]:
  "deleteFilter out c i h = (c', r) \<Longrightarrow> quiet c c'"
  "deleteBroadcaster out c i h = (c', r) \<Longrightarrow> quiet c c'"
  "deleteConfig out c i h = (c', r) \<Longrightarrow> quiet c c'"
  unfolding deleteFilter_def deleteBroadcaster_def deleteConfig_def by (rule quiet_req202, assumption)+

lemma quiet_postFilterBody [quiet_intros]: "postFilterBody out c plan sid = (c', r) \<Longrightarrow> quiet c c'"
  by (auto simp: postFilterBody_def Let_def split: if_splits intro: quiet_post202)

section \<open>Calls that work on one session\<close>

definition touches :: "string \<Rightarrow> 'w HTTPClient \<Rightarrow> 'w HTTPClient \<Rightarrow> bool" where
  "touches sid c c' \<longleftrightarrow>
     hc_mu c' = hc_mu c \<and> hc_env c' = hc_env c \<and> hc_skipEgress c' = hc_skipEgress c \<and> hc_dest c' = hc_dest c \<and>
     (\<forall>x. x \<noteq> sid \<longrightarrow> map_of (hc_sess c') x = map_of (hc_sess c) x) \<and>
     (map_of (hc_sess c) sid \<noteq> None \<longrightarrow> map_of (hc_sess c') sid \<noteq> None)"

lemma touches_trans: "touches sid a b \<Longrightarrow> touches sid b c \<Longrightarrow> touches sid a c"
  by (simp add: touches_def)

lemma quiet_touches: "quiet c c' \<Longrightarrow> touches sid c c'"
  by (drule quiet_fields) (simp add: touches_def)

lemma touches_refl [simp]: "touches sid c c"
  by (simp add: touches_def)

lemma touches_upd_sess [simp]: "touches sid c (upd_sess sid f c)"
  by (simp add: touches_def upd_sess_def update_conv)

lemma touches_upd_stats [simp]: "touches sid c (upd_stats f c)"
  by (simp add: touches_def upd_stats_def)

lemma tracked_upd_sess [simp]: "map_of (hc_sess (upd_sess sid f c)) x =
    (if x = sid then Some (f (sess_of c sid)) else map_of (hc_sess c) x)"
  by (simp add: upd_sess_def update_conv)

lemma sess_of_upd [simp]: "sess_of (upd_sess sid f c) x = (if x = sid then f (sess_of c sid) else sess_of c x)"
  by (simp add: sess_of_def)

lemma sess_of_upd_stats [simp]: "sess_of (upd_stats f c) x = sess_of c x"
  by (simp add: sess_of_def upd_stats_def)

lemma quiet_sess_of: "quiet c c' \<Longrightarrow> sess_of c' x = sess_of c x"
  by (drule quiet_fields) (simp add: sess_of_def)

text \<open>Acquiring a configuration keeps the key of the session's plan.\<close>

definition keeps_key :: "string \<Rightarrow> 'w HTTPClient \<Rightarrow> 'w HTTPClient \<Rightarrow> bool" where
  "keeps_key sid c c' \<longleftrightarrow> touches sid c c' \<and> filterPlanKey (sess_of c' sid) = filterPlanKey (sess_of c sid)"

lemma keeps_key_trans: "keeps_key sid a b \<Longrightarrow> keeps_key sid b c \<Longrightarrow> keeps_key sid a c"
  by (auto simp: keeps_key_def intro: touches_trans)

lemma quiet_keeps_key: "quiet c c' \<Longrightarrow> keeps_key sid c c'"
  by (simp add: keeps_key_def quiet_touches quiet_sess_of)

lemma upd_keeps_key: "(\<And>st. filterPlanKey (f st) = filterPlanKey st) \<Longrightarrow> keeps_key sid c (upd_sess sid f c)"
  by (simp add: keeps_key_def)

lemma keeps_key_attach:
  "attachExistingConfigByEndpoint out c sid u = (c', e) \<Longrightarrow> keeps_key sid c c'"
  by (auto simp: attachExistingConfigByEndpoint_def split: prod.splits sum.splits option.splits
      dest: quiet_getJSON intro: quiet_keeps_key keeps_key_trans [OF quiet_keeps_key upd_keeps_key])

lemma keeps_key_fixed: "attach_fixed_config out c sid = (c', e) \<Longrightarrow> keeps_key sid c c'"
  by (auto simp: attach_fixed_config_def Let_def split: prod.splits sum.splits dest: quiet_lookups(1)
      intro: quiet_keeps_key keeps_key_trans [OF quiet_keeps_key upd_keeps_key])

lemma createConfig_facts:
  assumes "createConfig out c sid = Some (c', e)"
  shows "keeps_key sid c c'"
proof (cases "hc_fixedConfigID c = []")
  case False
  with assms show ?thesis by (auto simp: createConfig_def dest: keeps_key_fixed)
next
  case True
  obtain c0 i where u: "newUUID out c = (c0, i)" by (cases "newUUID out c")
  let ?body = "AObj [(''id'', AStr i), (''type'', AStr ''HTTP''), (''endpoint'', AObj [(''url'', AStr (hc_ingest c))]),
    (''cache'', AObj [(''expirationTime'', AStr ''5m'')])]"
  obtain c1 r where p: "post202 out c0 ''/api/v1/broadcaster-configurations'' ?body = (c1, r)"
    by (cases "post202 out c0 ''/api/v1/broadcaster-configurations'' ?body")
  have q1: "quiet c c1" using quiet_lookups(6) [OF u] quiet_post202 [OF p] by (rule quiet_trans)
  show ?thesis
  proof (cases r)
    case (Inl x)
    with assms True u p q1 show ?thesis by (auto simp: createConfig_def intro: quiet_keeps_key)
  next
    case (Inr op)
    with assms True u p obtain c2 e2 where w: "waitOperation out c1 op = Some (c2, e2)"
      by (auto simp: createConfig_def bind_eq_Some_conv)
    have q2: "keeps_key sid c c2" using quiet_trans [OF q1 quiet_waitOperation [OF w]] by (rule quiet_keeps_key)
    have "keeps_key sid c2 c'"
      using assms True u p Inr w
      by (auto simp: createConfig_def split: option.splits if_splits prod.splits sum.splits
          dest: keeps_key_attach quiet_lookups(1)
          intro: quiet_keeps_key keeps_key_trans [OF quiet_keeps_key upd_keeps_key])
    with q2 show ?thesis by (rule keeps_key_trans)
  qed
qed

lemma touches_createConfig: "createConfig out c sid = Some (c', e) \<Longrightarrow> touches sid c c'"
  and createConfig_key: "createConfig out c sid = Some (c', e) \<Longrightarrow>
    filterPlanKey (sess_of c' sid) = filterPlanKey (sess_of c sid)"
  by (drule createConfig_facts, simp add: keeps_key_def)+

text \<open>A broadcaster that was created is recorded.\<close>

lemma touches_record: "record_broadcaster out c sid op br = (c', e) \<Longrightarrow> touches sid c c'"
  by (auto simp: record_broadcaster_def Let_def split: prod.splits sum.splits if_splits dest: quiet_lookups(4)
      intro: quiet_touches touches_trans [OF quiet_touches])

lemma record_broadcaster_ok:
  assumes "record_broadcaster out c sid op br = (c', None)"
  shows "\<exists>h. sess_of c' sid = (sess_of c sid)\<lparr>broadcasterID := br_ID br, broadcasterHash := h, lastOpID := op\<rparr>"
  using assms
  by (auto simp: record_broadcaster_def Let_def quiet_sess_of split: prod.splits sum.splits if_splits
      dest!: quiet_lookups(4))

lemma retry_ok: "retry out d look n e0 c = (c', Inr x) \<Longrightarrow> \<exists>c0 c1. look c0 = (c1, Inr x)"
  by (induction n arbitrary: e0 c) (auto split: prod.splits sum.splits option.splits)

lemma best_broadcaster_id:
  assumes "best_broadcaster cand best rows = Some (br, s)" "\<And>row br s. cand row = Some (br, s) \<Longrightarrow> br_ID br \<noteq> []"
    and "\<And>br s. best = Some (br, s) \<Longrightarrow> br_ID br \<noteq> []"
  shows "br_ID br \<noteq> []"
  using assms
proof (induction cand best rows rule: best_broadcaster.induct)
  case (3 cand best row rows)
  show ?case
  proof (cases "cand row")
    case None
    with 3 show ?thesis by auto
  next
    case (Some p)
    then obtain b sc where p: "cand row = Some (b, sc)" by (cases p) auto
    let ?best = "case best of None \<Rightarrow> Some (b, sc)
      | Some (b', s') \<Rightarrow> if s' < sc \<or> sc = s' \<and> br_Hash b \<noteq> [] \<and> br_Hash b' = [] then Some (b, sc) else best"
    have "\<And>br s. ?best = Some (br, s) \<Longrightarrow> br_ID br \<noteq> []"
      using 3(4,5) p by (auto split: option.splits if_splits)
    with 3(2) [OF p refl _ 3(4)] 3(3) p show ?thesis by simp
  qed
qed auto

lemma broadcaster_candidate_id: "broadcaster_candidate ci dp tt fi row = Some (br, s) \<Longrightarrow> br_ID br \<noteq> []"
  by (auto simp: broadcaster_candidate_def Let_def split: option.splits if_splits)

lemma found_broadcaster_id:
  assumes "findBroadcasterWithRetry out c ci dp tt fi = (c', Inr br)"
  shows "br_ID br \<noteq> []"
proof -
  obtain c0 c1 where "findBroadcaster out c0 ci dp tt fi = (c1, Inr br)"
    using retry_ok [OF assms [unfolded findBroadcasterWithRetry_def]] by blast
  then obtain rows s where "best_broadcaster (broadcaster_candidate (TrimSpace ci) dp tt fi) None rows = Some (br, s)"
    by (auto simp: findBroadcaster_def split: prod.splits sum.splits option.splits)
  then show ?thesis using broadcaster_candidate_id by (rule best_broadcaster_id) auto
qed

lemma createBroadcaster_steps:
  assumes "createBroadcaster out c sid fi tt = Some (c', e)"
  obtains (early) "quiet c c'" "e \<noteq> None"
  | (found) c3 op br where "quiet c c3" "configID (sess_of c sid) \<noteq> []"
      "br_ID br \<noteq> []" "record_broadcaster out c3 sid op br = (c', e)"
proof -
  let ?st = "sess_of c sid" and ?dp = "ingestDestinationPath c sid"
  let ?body = "AObj [(''configurationId'', AStr (configID ?st)),
                    (''target'', AObj ([(''type'', AStr tt), (''destinations'', AStrs [?dp])] @
                       (if tt = ''FILTER'' then [(''filterId'', AStr fi)] else [])))]"
  show ?thesis
  proof (cases "configID ?st = [] \<or> tt = ''FILTER'' \<and> fi = []")
    case True
    with assms early show ?thesis by (auto simp: createBroadcaster_def Let_def split: if_splits)
  next
    case False
    obtain c1 r where p: "post202 out c ''/api/v1/broadcasters'' ?body = (c1, r)"
      by (cases "post202 out c ''/api/v1/broadcasters'' ?body")
    note q1 = quiet_post202 [OF p]
    show ?thesis
    proof (cases r)
      case (Inl x)
      with assms False p q1 early show ?thesis by (auto simp: createBroadcaster_def Let_def)
    next
      case (Inr op)
      with assms False p obtain c2 e2 where w: "waitOperation out c1 op = Some (c2, e2)"
        by (auto simp: createBroadcaster_def Let_def bind_eq_Some_conv)
      have q2: "quiet c c2" using q1 quiet_waitOperation [OF w] by (rule quiet_trans)
      show ?thesis
      proof (cases e2)
        case (Some x)
        with assms False p Inr w q2 early show ?thesis by (auto simp: createBroadcaster_def Let_def)
      next
        case None
        obtain c3 f where f: "findBroadcasterWithRetry out c2 (configID ?st) ?dp tt fi = (c3, f)"
          by (cases "findBroadcasterWithRetry out c2 (configID ?st) ?dp tt fi")
        have q3: "quiet c c3" using q2 quiet_findBroadcasterWithRetry [OF f] by (rule quiet_trans)
        show ?thesis
        proof (cases f)
          case (Inl x)
          with assms False p Inr w None f q3 early show ?thesis by (auto simp: createBroadcaster_def Let_def)
        next
          case (Inr br)
          have "br_ID br \<noteq> []" using found_broadcaster_id f Inr by blast
          with assms False p \<open>r = Inr op\<close> w None f Inr q3 found show ?thesis
            by (auto simp: createBroadcaster_def Let_def)
        qed
      qed
    qed
  qed
qed

lemma touches_createBroadcaster: "createBroadcaster out c sid fi tt = Some (c', e) \<Longrightarrow> touches sid c c'"
  by (erule createBroadcaster_steps) (blast intro: quiet_touches touches_trans touches_record)+

lemma createBroadcaster_ok:
  assumes "createBroadcaster out c sid fi tt = Some (c', None)"
  shows "broadcasterID (sess_of c' sid) \<noteq> [] \<and> configID (sess_of c' sid) \<noteq> [] \<and>
    filterID (sess_of c' sid) = filterID (sess_of c sid) \<and>
    filterPlanKey (sess_of c' sid) = filterPlanKey (sess_of c sid)"
  using assms
proof (cases rule: createBroadcaster_steps)
  case (found c3 op br)
  with record_broadcaster_ok [OF found(4)] show ?thesis by (auto simp: quiet_sess_of)
qed simp

lemma touches_drop_filter: "drop_filter out c sid = Some c' \<Longrightarrow> touches sid c c'"
  by (auto simp: drop_filter_def Let_def bind_eq_Some_conv split: prod.splits sum.splits
      dest!: quiet_deletes(1) quiet_waitOperation intro: touches_trans [OF quiet_touches] quiet_trans)

lemma drop_filter_ok:
  "drop_filter out c sid = Some c' \<Longrightarrow> sess_of c' sid = (sess_of c sid)\<lparr>filterID := [], filterHash := []\<rparr>"
  by (auto simp: drop_filter_def Let_def bind_eq_Some_conv quiet_sess_of split: prod.splits sum.splits
      dest!: quiet_deletes(1) quiet_waitOperation)

lemma touches_provisionALL: "provisionALLBroadcasterUnlocked out c sid = Some (c', e) \<Longrightarrow> touches sid c c'"
  by (auto simp: provisionALLBroadcasterUnlocked_def bind_eq_Some_conv split: if_splits
      dest!: touches_drop_filter touches_createBroadcaster intro: touches_trans)

lemma provisionALL_ok:
  assumes "provisionALLBroadcasterUnlocked out c sid = Some (c', None)"
  shows "broadcasterID (sess_of c' sid) \<noteq> [] \<and> configID (sess_of c' sid) \<noteq> [] \<and> filterID (sess_of c' sid) = [] \<and>
    filterPlanKey (sess_of c' sid) = filterPlanKey (sess_of c sid)"
  using assms
  by (auto simp: provisionALLBroadcasterUnlocked_def bind_eq_Some_conv split: if_splits
      dest!: drop_filter_ok createBroadcaster_ok)

lemma touches_fallback:
  "fallbackALLAfterRevisionHookFailure out c sid e = Some (c', r) \<Longrightarrow> touches sid c c'"
  by (auto simp: fallbackALLAfterRevisionHookFailure_def bind_eq_Some_conv split: if_splits option.splits
      dest!: touches_provisionALL intro: touches_trans [OF touches_upd_sess])

lemma fallback_ok:
  assumes "fallbackALLAfterRevisionHookFailure out c sid e = Some (c', Inr i)"
  shows "broadcasterID (sess_of c' sid) \<noteq> [] \<and> configID (sess_of c' sid) \<noteq> [] \<and> filterID (sess_of c' sid) = [] \<and>
    filterPlanKey (sess_of c' sid) = ''ALL''"
  using assms
  by (auto simp: fallbackALLAfterRevisionHookFailure_def bind_eq_Some_conv split: if_splits option.splits
      dest!: provisionALL_ok)
end
