(* ===== verification/Naryo_Ensure.thy ===== *)
theory Naryo_Ensure
  imports Naryo_Facts
begin

section \<open>Provisioning\<close>

lemma ensure_ok_simps [simp]:
  "sess_of (ensure_ok c) x = sess_of c x" "touches sid c (ensure_ok c)"
  by (simp_all add: ensure_ok_def clearErrUnlocked_def touches_def upd_stats_def sess_of_def)

lemma touches_ensure_ok: "touches sid a c \<Longrightarrow> touches sid a (ensure_ok c)"
  by (erule touches_trans) simp

lemma touches_ensure_failed: "touches sid a c \<Longrightarrow> touches sid a (fst (ensure_failed out c e))"
  by (erule touches_trans) (simp add: ensure_failed_def recordErrUnlocked_def)

text \<open>What a successful provisioning of plan \<open>k\<close> leaves in the session's entry.\<close>

definition provisioned :: "string \<Rightarrow> httpSessState \<Rightarrow> bool" where
  "provisioned k st \<longleftrightarrow> broadcasterID st \<noteq> [] \<and> (filterPlanKey st = k \<or> filterPlanKey st = ''ALL'')"

lemma ensure_fallback_facts:
  assumes "ensure_fallback out c sid e = Some (c', r)"
  shows "touches sid c c' \<and> (\<forall>i. r = Inr i \<longrightarrow> provisioned k (sess_of c' sid))"
proof -
  from assms obtain c1 r1 where f: "fallbackALLAfterRevisionHookFailure out c sid e = Some (c1, r1)"
    by (auto simp: ensure_fallback_def bind_eq_Some_conv)
  note t = touches_fallback [OF f]
  show ?thesis
  proof (cases r1)
    case (Inl x)
    with assms f have "c' = fst (ensure_failed out c1 x)" "r = Inl x"
      by (auto simp: ensure_fallback_def ensure_failed_def)
    with t show ?thesis by (auto intro: touches_ensure_failed)
  next
    case (Inr i)
    with assms f have "c' = ensure_ok c1" "r = Inr i" by (auto simp: ensure_fallback_def)
    with t fallback_ok [OF f [unfolded Inr]] show ?thesis by (auto intro: touches_ensure_ok simp: provisioned_def)
  qed
qed

lemma create_filter_facts:
  assumes "create_filter out c sid plan = Some r"
  shows "(case r of
      Inl (c', res) \<Rightarrow> touches sid c c' \<and> (\<forall>i. res = Inr i \<longrightarrow> provisioned k (sess_of c' sid))
    | Inr c' \<Rightarrow> touches sid c c' \<and> filterPlanKey (sess_of c' sid) = filterPlanKey (sess_of c sid))"
proof -
  obtain c1 x where p: "postFilterBody out c plan sid = (c1, x)" by (cases "postFilterBody out c plan sid")
  note q1 = quiet_postFilterBody [OF p]
  show ?thesis
  proof (cases x)
    case (Inl e)
    with assms p have "r = Inl (ensure_failed out c1 e)" by (simp add: create_filter_def)
    then show ?thesis
      using touches_ensure_failed [OF quiet_touches [OF q1], where out = out and e = e] by (simp add: ensure_failed_def)
  next
    case (Inr op)
    with assms p obtain c2 e where w: "waitOperation out c1 op = Some (c2, e)"
      by (auto simp: create_filter_def bind_eq_Some_conv)
    have q2: "quiet c c2" using q1 quiet_waitOperation [OF w] by (rule quiet_trans)
    show ?thesis
    proof (cases e)
      case (Some y)
      with assms p Inr w obtain c' res where "ensure_fallback out c2 sid y = Some (c', res)" "r = Inl (c', res)"
        by (auto simp: create_filter_def bind_eq_Some_conv)
      with ensure_fallback_facts [OF this(1), where k = k] quiet_touches [OF q2] show ?thesis
        by (auto intro: touches_trans)
    next
      case None
      obtain c3 f where f: "findFilterByNameWithRetry out c2 (pipelineFilterName sid plan) = (c3, f)"
        by (cases "findFilterByNameWithRetry out c2 (pipelineFilterName sid plan)")
      have q3: "quiet c c3" using q2 quiet_findFilterByNameWithRetry [OF f] by (rule quiet_trans)
      show ?thesis
      proof (cases f)
        case (Inl y)
        with assms p Inr w None f have "r = Inl (ensure_failed out c3 y)" by (simp add: create_filter_def)
        then show ?thesis
          using touches_ensure_failed [OF quiet_touches [OF q3], where out = out and e = y] by (simp add: ensure_failed_def)
      next
        case (Inr fr)
        with assms p \<open>x = Inr op\<close> w None f
        have "r = Inr (upd_sess sid (\<lambda>st. st\<lparr>filterID := fr_ID fr, filterHash := fr_Hash fr, lastOpID := op\<rparr>) c3)"
          by (simp add: create_filter_def)
        then show ?thesis
          using touches_trans [OF quiet_touches [OF q3] touches_upd_sess] by (simp add: quiet_sess_of [OF q3])
      qed
    qed
  qed
qed

lemma ensure_filter_facts:
  assumes "ensure_filter out c sid plan = Some r"
  shows "(case r of
      Inl (c', res) \<Rightarrow> touches sid c c' \<and> (\<forall>i. res = Inr i \<longrightarrow> provisioned k (sess_of c' sid))
    | Inr c' \<Rightarrow> touches sid c c' \<and> filterPlanKey (sess_of c' sid) = filterPlanKey (sess_of c sid))"
proof (cases "filterID (sess_of c sid) = []")
  case True
  with assms create_filter_facts [where k = k] show ?thesis by (simp add: ensure_filter_def)
next
  case False
  obtain c1 ok where f: "filterExists out c (filterID (sess_of c sid)) = (c1, ok)"
    by (cases "filterExists out c (filterID (sess_of c sid))")
  have q: "quiet c c1" using f unfolding filterExists_def by (rule quiet_lookups(5))
  show ?thesis
  proof (cases ok)
    case True
    with assms False f q show ?thesis
      by (auto simp: ensure_filter_def quiet_sess_of intro: quiet_touches)
  next
    case no: False
    let ?c = "upd_sess sid (\<lambda>st. st\<lparr>filterID := [], filterHash := []\<rparr>) c1"
    have t: "touches sid c ?c" using quiet_touches [OF q] touches_upd_sess by (rule touches_trans)
    from assms False f no have "create_filter out ?c sid plan = Some r" by (simp add: ensure_filter_def)
    from create_filter_facts [OF this, where k = k] t show ?thesis
      by (auto simp: quiet_sess_of [OF q] split: sum.splits prod.splits intro: touches_trans)
  qed
qed

lemma ensure_scoped_facts:
  assumes "ensure_scoped out c sid plan = Some (c', r)" "filterPlanKey (sess_of c sid) = k"
  shows "touches sid c c' \<and> (\<forall>i. r = Inr i \<longrightarrow> provisioned k (sess_of c' sid))"
proof -
  from assms obtain f where f: "ensure_filter out c sid plan = Some f"
    by (auto simp: ensure_scoped_def bind_eq_Some_conv)
  show ?thesis
  proof (cases f)
    case (Inl res)
    with assms f ensure_filter_facts [OF f, where k = k] show ?thesis by (auto simp: ensure_scoped_def)
  next
    case (Inr c1)
    note t1 = ensure_filter_facts [OF f [unfolded Inr], where k = k, simplified]
    from assms f Inr obtain c2 e where b:
      "createBroadcaster out c1 sid (filterID (sess_of c1 sid)) ''FILTER'' = Some (c2, e)"
      by (auto simp: ensure_scoped_def bind_eq_Some_conv)
    have t2: "touches sid c c2" using t1 touches_createBroadcaster [OF b] by (blast intro: touches_trans)
    show ?thesis
    proof (cases e)
      case None
      with assms f Inr b have "c' = ensure_ok c2" by (auto simp: ensure_scoped_def)
      with t2 createBroadcaster_ok [OF b [unfolded None]] t1 assms(2) show ?thesis
        by (auto simp: provisioned_def intro: touches_ensure_ok)
    next
      case (Some y)
      with assms f Inr b have "ensure_fallback out c2 sid y = Some (c', r)" by (auto simp: ensure_scoped_def)
      from ensure_fallback_facts [OF this, where k = k] t2 show ?thesis by (blast intro: touches_trans)
    qed
  qed
qed

lemma ensure_all_facts:
  assumes "ensure_all out c sid = Some (c', r)" "filterPlanKey (sess_of c sid) = k"
  shows "touches sid c c' \<and> (\<forall>i. r = Inr i \<longrightarrow> provisioned k (sess_of c' sid))"
proof -
  from assms obtain c1 e where p: "provisionALLBroadcasterUnlocked out c sid = Some (c1, e)"
    by (auto simp: ensure_all_def bind_eq_Some_conv)
  note t = touches_provisionALL [OF p]
  show ?thesis
  proof (cases e)
    case None
    with assms p have "c' = ensure_ok c1" by (auto simp: ensure_all_def)
    with t provisionALL_ok [OF p [unfolded None]] assms(2) show ?thesis
      by (auto simp: provisioned_def intro: touches_ensure_ok)
  next
    case (Some x)
    with assms p have "c' = fst (ensure_failed out c1 x)" "r = Inl x" by (auto simp: ensure_all_def ensure_failed_def)
    with t show ?thesis by (auto intro: touches_ensure_failed)
  qed
qed

lemma ensure_new_facts:
  assumes "ensure_new out c sid plan = Some (c', r)"
  shows "touches sid c c' \<and> (\<forall>i. r = Inr i \<longrightarrow> provisioned (Key plan) (sess_of c' sid))"
proof -
  let ?st = "sess_of c sid"
  from assms obtain c1 where d: "(if filterID ?st \<noteq> [] \<and> filterPlanKey ?st \<noteq> Key plan
      then drop_filter out c sid else Some c) = Some c1"
    by (auto simp: ensure_new_def Let_def bind_eq_Some_conv)
  have t1: "touches sid c c1" using d by (auto split: if_splits dest: touches_drop_filter)
  let ?c2 = "upd_sess sid (\<lambda>st. st\<lparr>filterPlanKey := Key plan\<rparr>) c1"
  from assms d obtain c3 e where cc: "(if configID (sess_of ?c2 sid) = [] then createConfig out ?c2 sid
      else Some (?c2, None)) = Some (c3, e)"
    by (auto simp: ensure_new_def Let_def bind_eq_Some_conv)
  have t3: "touches sid c c3"
    using cc touches_trans [OF t1 touches_upd_sess] by (auto split: if_splits dest: touches_createConfig intro: touches_trans)
  have key: "filterPlanKey (sess_of c3 sid) = Key plan"
    using cc by (auto split: if_splits dest: createConfig_key)
  show ?thesis
  proof (cases e)
    case (Some x)
    with assms d cc have "c' = fst (ensure_failed out c3 x)" "r = Inl x"
      by (auto simp: ensure_new_def Let_def ensure_failed_def)
    with t3 show ?thesis by (auto intro: touches_ensure_failed)
  next
    case None
    with assms d cc have "(if UseALLFallback plan then ensure_all out c3 sid else ensure_scoped out c3 sid plan) =
        Some (c', r)"
      by (auto simp: ensure_new_def Let_def)
    then show ?thesis
      using ensure_all_facts [OF _ key] ensure_scoped_facts [OF _ key] t3
      by (auto split: if_splits intro: touches_trans)
  qed
qed

lemma ensure_locked_facts:
  assumes "ensure_locked out c sid plan = Some (c', r)"
  shows "touches sid c c' \<and> map_of (hc_sess c') sid \<noteq> None \<and>
    (\<forall>i. r = Inr i \<longrightarrow> provisioned (Key plan) (sess_of c' sid))"
proof -
  let ?c = "upd_sess sid (\<lambda>st. st) c"
  have tracked: "map_of (hc_sess c') sid \<noteq> None" if "touches sid ?c c'"
    using that by (simp add: touches_def)
  have lift: ?thesis if "touches sid ?c c'" "\<forall>i. r = Inr i \<longrightarrow> provisioned (Key plan) (sess_of c' sid)"
    using that tracked touches_trans [OF touches_upd_sess that(1)] by blast
  show ?thesis
  proof (cases "broadcasterID (sess_of ?c sid) = []")
    case True
    with assms have "ensure_new out ?c sid plan = Some (c', r)" by (simp add: ensure_locked_def Let_def)
    from ensure_new_facts [OF this] show ?thesis by (intro lift) auto
  next
    case False
    obtain c1 ok where b: "broadcasterExists out ?c (broadcasterID (sess_of ?c sid)) = (c1, ok)"
      by (cases "broadcasterExists out ?c (broadcasterID (sess_of ?c sid))")
    have q: "quiet ?c c1" using b unfolding broadcasterExists_def by (rule quiet_lookups(5))
    show ?thesis
    proof (cases "ok \<and> Key plan = filterPlanKey (sess_of ?c sid)")
      case True
      with assms False b have "c' = ensure_ok c1" by (auto simp: ensure_locked_def Let_def)
      then show ?thesis
        using quiet_touches [OF q] False True
        by (intro lift) (auto intro: touches_ensure_ok simp: provisioned_def quiet_sess_of [OF q])
    next
      case no: False
      let ?c1 = "upd_sess sid (\<lambda>st. st\<lparr>broadcasterID := [], broadcasterHash := []\<rparr>) c1"
      from assms False b no have "ensure_new out ?c1 sid plan = Some (c', r)"
        by (auto simp: ensure_locked_def Let_def)
      from ensure_new_facts [OF this] touches_trans [OF quiet_touches [OF q] touches_upd_sess]
      show ?thesis by (intro lift) (auto intro: touches_trans)
    qed
  qed
qed

end
