(* ===== verification/Naryo_Live.thy ===== *)
theory Naryo_Live
  imports Naryo_Ensure Lifecycle
begin

text \<open>
  The session service over the HTTP client: the service reaches its client only through the calls of
  the interface, a session comes up only by a successful provisioning, and a client that remembers
  its pipelines therefore knows every running or paused session.  For the HTTP client this decides
  which sessions can be stopped.
\<close>
section \<open>Calls of the service to its client\<close>

inductive client_call :: "'n naryo_client \<Rightarrow> 'n \<Rightarrow> 'n \<Rightarrow> bool" for nc where
  ensure_call: "EnsurePipeline nc n sid cfg = Some (n', r) \<Longrightarrow> client_call nc n n'"
| pause_call: "PauseEgress nc n sid = Some (n', e) \<Longrightarrow> client_call nc n n'"
| resume_call: "ResumeEgress nc n sid cfg = Some (n', e) \<Longrightarrow> client_call nc n n'"
| stop_call: "StopPipeline nc n sid = Some (n', e) \<Longrightarrow> client_call nc n n'"

definition calls :: "'n naryo_client \<Rightarrow> 'n \<Rightarrow> 'n \<Rightarrow> bool" where
  "calls nc = (client_call nc)\<^sup>*\<^sup>*"

lemma calls_refl [simp]: "calls nc n n"
  by (simp add: calls_def)

lemma calls_trans: "calls nc a b \<Longrightarrow> calls nc b c \<Longrightarrow> calls nc a c"
  unfolding calls_def by (rule rtranclp_trans)

lemma calls_one: "client_call nc n n' \<Longrightarrow> calls nc n n'"
  unfolding calls_def by (rule r_into_rtranclp)

lemmas calls_intros = client_call.intros [THEN calls_one]

lemma naryo_frames [simp]:
  "naryo (emit s call) = naryo s" "naryo (recordActivity s typ sid data) = naryo s"
  "naryo (rejectStart s sid a e) = naryo s" "naryo (at_time t s) = naryo s"
  by (simp_all add: emit_def recordActivity_def rejectStart_def at_time_def split: option.split)

lemma calls_start_session:
  "start_session nc sid v (n, op, a) = Some (v', (n', c'), r) \<Longrightarrow> calls nc n n'"
  unfolding start_session_def
  by (cases "EnsurePipeline nc n sid (Config v)")
     (auto split: if_splits sum.splits dest: calls_intros(1))

lemma calls_start: "Start nc s sid = Some (s', r) \<Longrightarrow> calls nc (naryo s) (naryo s')"
proof (cases "Update (store s) sid (start_session nc sid) (naryo s, [], [])")
  case None
  assume "Start nc s sid = Some (s', r)"
  with None show ?thesis by (auto simp: Start_def split: sum.splits option.splits)
next
  case (Some u)
  obtain st' n' op a r' where u: "u = (st', (n', op, a), r')" by (cases u) auto
  have n: "calls nc (naryo s) n'"
    using Some unfolding u
    by (auto simp: Update_def Let_def split: option.splits sum.splits dest: calls_start_session)
  assume "Start nc s sid = Some (s', r)"
  then have "naryo s' = n' \<or> naryo s' = naryo s"
    using Some unfolding u by (cases r') (auto simp: Start_def Let_def split: sum.splits option.splits)
  with n show ?thesis by auto
qed

text \<open>The other operations make one call, unless they fail before it.\<close>

lemma calls_stop:
  assumes "Stop nc s sid = Some (s', r)"
  shows "calls nc (naryo s) (naryo s')"
proof (cases "Get (store s) sid")
  case (Inr sess)
  with assms obtain n e where "StopPipeline nc (naryo s) sid = Some (n, e)" "naryo s' = n"
    by (cases "StopPipeline nc (naryo s) sid")
       (auto simp: Stop_def bind_eq_Some_conv Let_def split: option.splits if_splits)
  then show ?thesis by (blast intro: calls_intros(4))
qed (use assms in \<open>simp add: Stop_def\<close>)

lemma calls_pause:
  assumes "Pause nc s sid = Some (s', r)"
  shows "calls nc (naryo s) (naryo s')"
proof -
  from assms obtain n e where "PauseEgress nc (naryo s) sid = Some (n, e)" "naryo s' = n"
    by (cases "PauseEgress nc (naryo s) sid")
       (auto simp: Pause_def bind_eq_Some_conv Let_def split: option.splits)
  then show ?thesis by (blast intro: calls_intros(2))
qed

lemma calls_resume:
  assumes "Resume nc s sid = Some (s', r)"
  shows "calls nc (naryo s) (naryo s')"
proof (cases "Get (store s) sid")
  case (Inr sess)
  show ?thesis
  proof (cases "checkPrepaid s (AgentID sess)")
    case None
    with Inr assms obtain n e where "ResumeEgress nc (naryo s) sid (Config sess) = Some (n, e)" "naryo s' = n"
      by (cases "ResumeEgress nc (naryo s) sid (Config sess)")
         (auto simp: Resume_def bind_eq_Some_conv Let_def split: option.splits)
    then show ?thesis by (blast intro: calls_intros(3))
  qed (use assms Inr in \<open>auto simp: Resume_def\<close>)
qed (use assms in \<open>simp add: Resume_def\<close>)

lemma calls_pause_sessions: "pause_sessions nc s sids = Some s' \<Longrightarrow> calls nc (naryo s) (naryo s')"
proof (induction sids arbitrary: s)
  case (Cons sid sids)
  then obtain n e where p: "PauseEgress nc (naryo s) sid = Some (n, e)"
    by (auto simp: bind_eq_Some_conv)
  have "\<exists>s1. naryo s1 = n \<and> pause_sessions nc s1 sids = Some s'"
    using p Cons.prems
    by (cases e) (auto simp: Let_def intro: exI [of _ "s\<lparr>naryo := n\<rparr>"]
        exI [of _ "recordActivity (s\<lparr>naryo := n\<rparr>) ''pipeline_paused'' sid [(''reason'', AStr ''insufficient_balance'')]"])
  then obtain s1 where s1: "naryo s1 = n" "pause_sessions nc s1 sids = Some s'" by blast
  have "calls nc (naryo s) n" using p by (rule calls_intros(2))
  also have "calls nc n (naryo s')" using Cons.IH [OF s1(2)] s1(1) by simp
  finally (calls_trans) show ?case .
qed simp

lemma tick_one_naryo: "tick_one now s pids sid = Some (s', p) \<Longrightarrow> naryo s' = naryo s"
  by (auto simp: tick_one_def bind_eq_Some_conv Let_def split: if_splits option.splits)

lemma tick_sessions_naryo: "tick_sessions now s pids sids = Some (s', p) \<Longrightarrow> naryo s' = naryo s"
proof (induction sids arbitrary: s pids)
  case (Cons sid sids)
  then obtain s1 p1 where "tick_one now s pids sid = Some (s1, p1)" "tick_sessions now s1 p1 sids = Some (s', p)"
    by (auto simp: bind_eq_Some_conv)
  then show ?case using Cons.IH tick_one_naryo by metis
qed simp

lemma calls_tick: "runBillingTick nc order s = Some s' \<Longrightarrow> calls nc (naryo s) (naryo s')"
  by (auto simp: runBillingTick_def bind_eq_Some_conv dest!: calls_pause_sessions tick_sessions_naryo)

text \<open>Whatever the service does, its client only goes through calls of the interface.\<close>

lemma svc_step_calls: "svc_step nc s s' \<Longrightarrow> calls nc (naryo s) (naryo s')"
proof (induction rule: svc_step.induct)
  case (create rnd sid s agent)
  then show ?case by (simp add: Create_def Let_def split: option.split)
next
  case (reconfigure s sid patch s' r)
  then show ?case
    by (auto simp: Reconfigure_def bind_eq_Some_conv Let_def split: if_splits option.splits prod.splits sum.splits)
next
  case (stream s sid b s' r)
  then show ?case
    by (auto simp: SetPaymentStreamActive_def bind_eq_Some_conv Let_def split: option.splits prod.splits)
next
  case (topup s args)
  then show ?case by (simp add: CreditTopUp_def split: option.split prod.split)
next
  case (event s sid eid payload)
  then show ?case by (simp add: IngestNaryoEvent_def Let_def split: option.split prod.split)
qed (auto intro: calls_start calls_stop calls_pause calls_resume calls_tick)

section \<open>Sessions whose pipeline is up\<close>

definition live :: "session \<Rightarrow> bool" where
  "live v \<longleftrightarrow> State v = StateRunning \<or> State v = StatePaused"

lemma live_callbacks:
  "stop_session v c1 = Some (v', c1', r) \<Longrightarrow> live v' \<Longrightarrow> live v"
  "pause_session v c1 = Some (v', c1', r) \<Longrightarrow> live v' \<Longrightarrow> live v"
  "resume_session v c1 = Some (v', c1', r) \<Longrightarrow> live v' \<Longrightarrow> live v"
  "reconfigure_session p v c1 = Some (v', c1', r) \<Longrightarrow> live v' \<Longrightarrow> live v"
  "stream_session b v c1 = Some (v', c1', r) \<Longrightarrow> live v' \<Longrightarrow> live v"
  by (auto simp: live_def stop_session_def pause_session_def resume_session_def reconfigure_session_def
      stream_session_def split: if_splits)

lemma live_tick: "tick_session s sid now i v env = Some (v', env', r) \<Longrightarrow> live v' \<Longrightarrow> live v"
  by (erule tick_sessionE) (auto simp: live_def)

lemma updated_live:
  assumes "updated s sid fn s'" "\<And>v v' c c' r. fn v c = Some (v', c', r) \<Longrightarrow> live v' \<Longrightarrow> live v"
    and "sessions s' x = Some v'" "live v'"
  shows "\<exists>v. sessions s x = Some v \<and> live v"
proof (cases "s' = s")
  case False
  with assms(1) obtain c c' r where u: "Update s sid fn c = Some (s', c', r)" by (auto simp: updated_def)
  show ?thesis
  proof (cases "x = sid")
    case True
    with st.update_lookup [OF u] False assms(3) obtain v r' where "sessions s sid = Some v" "fn v c = Some (v', c', r')"
      by auto
    with assms(2,4) True show ?thesis by blast
  next
    case False
    with st.update_other [OF u] assms(3,4) show ?thesis by auto
  qed
qed (use assms in auto)

lemma tick_sessions_live:
  assumes "tick_sessions now s pids sids = Some (s', p)" "sessions (store s') x = Some v'" "live v'"
  shows "\<exists>v. sessions (store s) x = Some v \<and> live v"
  using assms(1)
proof (induction sids arbitrary: s pids)
  case Nil
  with assms show ?case by auto
next
  case (Cons sid sids)
  then obtain s1 p1 where one: "tick_one now s pids sid = Some (s1, p1)"
    and rest: "tick_sessions now s1 p1 sids = Some (s', p)"
    by (auto simp: bind_eq_Some_conv)
  from Cons.IH [OF rest] obtain v1 where "sessions (store s1) x = Some v1" "live v1" by blast
  then show ?case by (rule updated_live [OF updated_tick_one [OF one], rotated]) (rule live_tick)
qed

text \<open>A session comes up only by a successful \<open>EnsurePipeline\<close> of \<open>Start\<close>.\<close>

lemma start_live:
  assumes "Start nc s sid = Some (s', r)" "sessions (store s') x = Some v'" "live v'"
  shows "(\<exists>v. sessions (store s) x = Some v \<and> live v) \<or>
    (\<exists>n cfg op. EnsurePipeline nc n x cfg = Some (naryo s', Inr op))"
proof (cases "store s' = store s")
  case False
  with assms(1) obtain n' opID agentID r' where
    u: "Update (store s) sid (start_session nc sid) (naryo s, [], []) = Some (store s', (n', opID, agentID), r')"
    and n: "naryo s' = n'"
    by (auto simp: Start_def bind_eq_Some_conv Let_def split: sum.splits option.splits prod.splits)
  show ?thesis
  proof (cases "x = sid")
    case True
    with st.update_lookup [OF u] False assms(2) obtain v r1 where
      "start_session nc sid v (naryo s, [], []) = Some (v', (n', opID, agentID), r1)" "sessions (store s) sid = Some v"
      by auto
    then show ?thesis using True n assms(3)
      by (auto simp: start_session_def live_def split: if_splits option.splits prod.splits sum.splits)
  next
    case False
    with st.update_other [OF u] assms(2,3) show ?thesis by auto
  qed
qed (use assms in auto)

lemma svc_step_live:
  assumes "svc_step nc s s'" "sessions (store s') x = Some v'" "live v'"
  shows "(\<exists>v. sessions (store s) x = Some v \<and> live v) \<or>
    (\<exists>n cfg op. EnsurePipeline nc n x cfg = Some (naryo s', Inr op))"
  using assms
proof (induction rule: svc_step.induct)
  case (create rnd sid s agent)
  obtain s' r where c: "Create s rnd agent = (s', r)" by (cases "Create s rnd agent")
  with sessions_Create [OF c] create show ?case by (cases r) (auto simp: live_def split: if_splits)
next
  case (tick s order s')
  then show ?case by (auto simp: runBillingTick_def bind_eq_Some_conv dest!: store_pause_sessions tick_sessions_live)
qed (auto simp: at_time_def dest: start_live
      updated_live [OF updated_Stop live_callbacks(1)] updated_live [OF updated_Pause live_callbacks(2)]
      updated_live [OF updated_Resume live_callbacks(3)] updated_live [OF updated_Reconfigure live_callbacks(4)]
      updated_live [OF updated_Stream live_callbacks(5)])

section \<open>Clients that remember their pipelines\<close>

text \<open>A client that knows a pipeline from its first provisioning on, whatever returns.\<close>

locale tracking_client =
  fixes nc :: "'n naryo_client" and up :: "'n \<Rightarrow> string \<Rightarrow> bool"
  assumes call_keeps: "client_call nc n n' \<Longrightarrow> up n sid \<Longrightarrow> up n' sid"
    and ensure_up: "EnsurePipeline nc n sid cfg = Some (n', Inr op) \<Longrightarrow> up n' sid"
begin

lemma calls_keep: "calls nc n n' \<Longrightarrow> up n sid \<Longrightarrow> up n' sid"
  unfolding calls_def by (induction rule: rtranclp_induct) (auto intro: call_keeps)

lemma live_up:
  assumes "(svc_step nc)\<^sup>*\<^sup>* s s'" "\<And>v. sessions (store s) sid = Some v \<Longrightarrow> live v \<Longrightarrow> up (naryo s) sid"
    and "sessions (store s') sid = Some v" "live v"
  shows "up (naryo s') sid"
  using assms(1,3,4)
proof (induction arbitrary: v rule: rtranclp_induct)
  case base
  then show ?case by (rule assms(2))
next
  case (step s1 s2)
  from svc_step_live [OF step.hyps(2) step.prems] show ?case
  proof (elim disjE exE conjE)
    fix v1
    assume "sessions (store s1) sid = Some v1" "live v1"
    then show ?thesis by (rule calls_keep [OF svc_step_calls [OF step.hyps(2)] step.IH])
  next
    fix n cfg op
    assume "EnsurePipeline nc n sid cfg = Some (naryo s2, Inr op)"
    then show ?thesis by (rule ensure_up)
  qed
qed

end

section \<open>The HTTP client\<close>

text \<open>No call of the HTTP client that returns forgets a session.\<close>

definition remembers :: "'w HTTPClient \<Rightarrow> 'w HTTPClient \<Rightarrow> bool" where
  "remembers c c' \<longleftrightarrow> hc_skipEgress c' = hc_skipEgress c \<and>
     (\<forall>x. map_of (hc_sess c) x \<noteq> None \<longrightarrow> map_of (hc_sess c') x \<noteq> None)"

lemma remembers_touches: "touches sid c c' \<Longrightarrow> remembers c c'"
  unfolding remembers_def touches_def by metis

lemma remembers_trans: "remembers a b \<Longrightarrow> remembers b c \<Longrightarrow> remembers a c"
  by (simp add: remembers_def)

lemma remembers_simps [simp]:
  "remembers c c" "remembers (c\<lparr>hc_mu := b\<rparr>) c' = remembers c c'" "remembers c (c'\<lparr>hc_mu := b\<rparr>) = remembers c c'"
  "remembers c (unlock c') = remembers c c'" "remembers c (upd_stats f c') = remembers c c'"
  "remembers c (ensure_ok c') = remembers c c'"
  by (simp_all add: remembers_def unlock_def upd_stats_def ensure_ok_def clearErrUnlocked_def)

lemma lock_eq: "lock c = Some c' \<longleftrightarrow> \<not> hc_mu c \<and> c' = c\<lparr>hc_mu := True\<rparr>"
  by (auto simp: lock_def)

lemma unlock_fields [simp]: "hc_sess (unlock c) = hc_sess c" "hc_skipEgress (unlock c) = hc_skipEgress c" "\<not> hc_mu (unlock c)"
  by (simp_all add: unlock_def)

lemma ensure_remembers:
  assumes "http_EnsurePipeline out c sid cfg = Some (c', r)"
  shows "remembers c c' \<and> (\<forall>op. r = Inr op \<longrightarrow> hc_skipEgress c' \<or> map_of (hc_sess c') (TrimSpace sid) \<noteq> None)"
proof -
  let ?sid = "TrimSpace sid" and ?plan = "resolvePipelineFilterPlan (hc_env c) cfg"
  show ?thesis
  proof (cases "?sid = [] \<or> hc_skipEgress c \<or>
      \<not> UseALLFallback ?plan \<and> HederaTopicID ?plan = [] \<and> EVMContract ?plan = []")
    case True
    then have "(\<exists>e. r = Inl e) \<and> c' = c \<or> hc_skipEgress c \<and> c' = unlock (ensure_ok (c\<lparr>hc_mu := True\<rparr>))"
      using assms by (auto simp: http_EnsurePipeline_def Let_def lock_eq bind_eq_Some_conv split: if_splits)
    then show ?thesis by (auto simp: remembers_def ensure_ok_def clearErrUnlocked_def upd_stats_def)
  next
    case False
    then obtain c1 where e: "ensure_locked out (c\<lparr>hc_mu := True\<rparr>) ?sid ?plan = Some (c1, r)" "c' = unlock c1"
      using assms by (auto simp: http_EnsurePipeline_def Let_def lock_eq bind_eq_Some_conv)
    note f = ensure_locked_facts [OF e(1)]
    then have "remembers (c\<lparr>hc_mu := True\<rparr>) c1" by (blast intro: remembers_touches)
    with f e(2) show ?thesis by auto
  qed
qed

lemma touches_record_clear [simp]:
  "touches sid a (recordErrUnlocked out e c) = touches sid a c" "touches sid a (clearErrUnlocked c) = touches sid a c"
  "touches sid a (upd_stats f c) = touches sid a c"
  by (simp_all add: recordErrUnlocked_def clearErrUnlocked_def upd_stats_def touches_def)

lemma touches_pause:
  assumes "pause_locked out c sid = Some (c', e)"
  shows "touches sid c c'"
proof (cases "map_of (hc_sess c) sid")
  case (Some st)
  show ?thesis
  proof (cases "broadcasterID st = []")
    case False
    obtain c1 r where d: "deleteBroadcaster out c (broadcasterID st) (broadcasterHash st) = (c1, r)"
      by (cases "deleteBroadcaster out c (broadcasterID st) (broadcasterHash st)")
    note q1 = quiet_deletes(2) [OF d]
    show ?thesis
    proof (cases r)
      case (Inl x)
      with assms Some False d show ?thesis using quiet_touches [OF q1] by (auto simp: pause_locked_def)
    next
      case (Inr op)
      with assms Some False d obtain c2 e2 where w: "waitOperation out c1 op = Some (c2, e2)"
        by (auto simp: pause_locked_def bind_eq_Some_conv)
      have t: "touches sid c c2" using quiet_trans [OF q1 quiet_waitOperation [OF w]] by (rule quiet_touches)
      with assms Some False d Inr w show ?thesis
        by (auto simp: pause_locked_def Let_def split: option.splits if_splits intro: touches_trans [OF t])
    qed
  qed (use assms Some in \<open>simp add: pause_locked_def\<close>)
qed (use assms in \<open>simp add: pause_locked_def\<close>)

lemma pause_remembers:
  assumes "http_PauseEgress out c sid = Some (c', e)"
  shows "remembers c c'"
proof -
  from assms obtain c1 where p: "pause_locked out (c\<lparr>hc_mu := True\<rparr>) sid = Some (c1, e)" and c': "c' = unlock c1"
    by (auto simp: http_PauseEgress_def lock_eq bind_eq_Some_conv)
  have "touches sid (c\<lparr>hc_mu := True\<rparr>) c1" using p by (rule touches_pause)
  then have "remembers (c\<lparr>hc_mu := True\<rparr>) c1" by (rule remembers_touches)
  with c' show ?thesis by simp
qed

lemma resume_remembers:
  assumes "http_ResumeEgress out c sid cfg = Some (c', e)"
  shows "remembers c c'"
proof -
  from assms obtain c1 r where e: "http_EnsurePipeline out c sid cfg = Some (c1, r)"
    by (auto simp: http_ResumeEgress_def bind_eq_Some_conv)
  with assms have "remembers c1 c'"
    by (cases r) (auto simp: http_ResumeEgress_def bind_eq_Some_conv lock_eq)
  moreover have "remembers c c1" using e by (blast dest: ensure_remembers)
  ultimately show ?thesis by (blast intro: remembers_trans)
qed

text \<open>
  \<open>StopPipeline\<close> of a tracked session takes the mutex for its statistics and then calls
  \<open>clearErr\<close>, which takes it again.
\<close>

lemma clearErr_locked: "hc_mu c \<Longrightarrow> clearErr c = None"
  by (simp add: clearErr_def lock_def)

lemma stop_tracked: "map_of (hc_sess c) sid = Some st \<Longrightarrow> http_StopPipeline out c sid = None"
  by (cases "hc_mu c"; simp add: http_StopPipeline_def lock_def Let_def)
     (auto simp: bind_eq_None_conv lock_def upd_stats_def intro!: clearErr_locked split: bind_splits)

lemma stop_untracked:
  "map_of (hc_sess c) sid = None \<Longrightarrow> http_StopPipeline out c sid = (if hc_mu c then None else Some (unlock c, None))"
  by (auto simp: http_StopPipeline_def lock_def unlock_def Let_def)

lemma stop_remembers: "http_StopPipeline out c sid = Some (c', e) \<Longrightarrow> remembers c c'"
  by (cases "map_of (hc_sess c) sid") (auto simp: stop_tracked stop_untracked split: if_splits)

lemma http_call_remembers: "client_call (http_client out) c c' \<Longrightarrow> remembers c c'"
  by (erule client_call.cases)
     (auto simp: http_client_def dest: ensure_remembers pause_remembers resume_remembers stop_remembers)

interpretation http: tracking_client "http_client out" "\<lambda>c sid. hc_skipEgress c \<or> map_of (hc_sess c) (TrimSpace sid) \<noteq> None"
proof
  fix c c' sid
  assume "client_call (http_client out) c c'"
  then have "remembers c c'" by (rule http_call_remembers)
  then show "hc_skipEgress c \<or> map_of (hc_sess c) (TrimSpace sid) \<noteq> None \<Longrightarrow>
      hc_skipEgress c' \<or> map_of (hc_sess c') (TrimSpace sid) \<noteq> None"
    unfolding remembers_def by metis
next
  fix c sid cfg c' op
  assume "EnsurePipeline (http_client out) c sid cfg = Some (c', Inr op)"
  then have "http_EnsurePipeline out c sid cfg = Some (c', Inr op)" by (simp add: http_client_def)
  then show "hc_skipEgress c' \<or> map_of (hc_sess c') (TrimSpace sid) \<noteq> None"
    using ensure_remembers by blast
qed

lemma run_remembers: "(svc_step (http_client out))\<^sup>*\<^sup>* s s' \<Longrightarrow> remembers (naryo s) (naryo s')"
proof (induction rule: rtranclp_induct)
  case (step s1 s2)
  have "calls (http_client out) (naryo s1) (naryo s2)" using step(2) by (rule svc_step_calls)
  then have "remembers (naryo s1) (naryo s2)"
    unfolding calls_def by (induction rule: rtranclp_induct) (auto intro: remembers_trans http_call_remembers)
  with step(3) show ?case by (rule remembers_trans)
qed simp

section \<open>Session ids\<close>

lemma svc_step_hex:
  assumes "svc_step nc s s'" "\<And>x. x \<in> dom (sessions (store s)) \<Longrightarrow> \<exists>bs. hex bs = x"
    and "x \<in> dom (sessions (store s'))"
  shows "\<exists>bs. hex bs = x"
proof (cases "x \<in> dom (sessions (store s))")
  case False
  with assms(3) obtain v where "sessions (store s) x = None" "sessions (store s') x = Some v" by (auto simp: dom_def)
  with assms(1) show ?thesis
  proof (induction rule: svc_step.induct)
    case (create rnd sid s agent)
    obtain s' r where c: "Create s rnd agent = (s', r)" by (cases "Create s rnd agent")
    with sessions_Create [OF c] create show ?case
      by (cases r) (auto simp: newSessionID_def split: if_splits option.splits)
  qed (auto simp: at_time_def dest!: updated_Start updated_Stop updated_Pause updated_Resume updated_Reconfigure
      updated_Stream tick_dom updated_dom simp: dom_def set_eq_iff)
qed (rule assms(2))

lemma run_hex:
  assumes "(svc_step nc)\<^sup>*\<^sup>* s s'" "store s = NewMemoryStore" "x \<in> dom (sessions (store s'))"
  shows "\<exists>bs. hex bs = x"
  using assms(1,3)
proof (induction arbitrary: x rule: rtranclp_induct)
  case base
  with assms(2) show ?case by (simp add: NewMemoryStore_def)
next
  case (step s1 s2)
  then show ?case using svc_step_hex by blast
qed

lemma space_not_hex: "list_all (\<lambda>w. w \<noteq> [] \<and> list_all (\<lambda>c. c \<notin> set ''0123456789abcdef'') w) unicode_space"
  by code_simp

lemma hex_digits: "list_all (\<lambda>d. hex_digit d \<in> set ''0123456789abcdef'') [0..<16]"
  by code_simp

lemma hex_digit_in: "d < 16 \<Longrightarrow> hex_digit d \<in> set ''0123456789abcdef''"
proof -
  assume "d < 16"
  then have "d \<in> set [0..<16]" by simp
  with hex_digits show ?thesis unfolding list_all_iff by blast
qed

lemma set_hex: "set (hex bs) \<subseteq> set ''0123456789abcdef''"
proof (induction bs)
  case (Cons c bs)
  have "(of_char c :: nat) < 256" by simp
  then have "(of_char c :: nat) div 16 < 16" "(of_char c :: nat) mod 16 < 16" by (simp_all add: div_less_iff_less_mult)
  then have "hex_digit (of_char c div 16) \<in> set ''0123456789abcdef''" "hex_digit (of_char c mod 16) \<in> set ''0123456789abcdef''"
    by (blast intro: hex_digit_in)+
  with Cons show ?case by (simp only: hex.simps list.set insert_subset simp_thms)
qed simp

lemma TrimSpace_hex: "TrimSpace (hex bs) = hex bs"
proof (rule TrimSpace_fixed)
  fix w
  assume "w \<in> set unicode_space"
  then have "w \<noteq> []" "\<forall>c \<in> set w. c \<notin> set ''0123456789abcdef''"
    using space_not_hex unfolding list_all_iff by blast+
  then obtain c where "c \<in> set w" "c \<notin> set ''0123456789abcdef''" by (meson last_in_set)
  then have no: "\<not> set w \<subseteq> set (hex bs)" using set_hex [of bs] by blast
  then show "\<not> prefix w (hex bs)" by (blast dest: set_mono_prefix)
  from no show "\<not> prefix (rev w) (rev (hex bs))" using set_mono_prefix [of "rev w" "rev (hex bs)"] by auto
qed

section \<open>Properties\<close>

text \<open>
  C26: with the HTTP client and egress provisioning on, \<open>Stop\<close> of a running or paused session never
  returns: \<open>StopPipeline\<close> waits for the mutex it holds itself.
\<close>

theorem live_pipeline_never_stops:
  assumes "store s = NewMemoryStore" "(svc_step (http_client out))\<^sup>*\<^sup>* s s'" "\<not> hc_skipEgress (naryo s)"
    and "sessions (store s') sid = Some v" "State v = StateRunning \<or> State v = StatePaused"
  shows "Stop (http_client out) s' sid = None"
proof -
  have "hc_skipEgress (naryo s') \<or> map_of (hc_sess (naryo s')) (TrimSpace sid) \<noteq> None"
    using http.live_up [OF assms(2) _ assms(4)] assms(1,5) by (simp add: NewMemoryStore_def live_def)
  moreover have "hc_skipEgress (naryo s') = hc_skipEgress (naryo s)"
    using run_remembers [OF assms(2)] by (simp add: remembers_def)
  moreover obtain bs where "hex bs = sid" using run_hex [OF assms(2,1)] assms(4) by blast
  ultimately obtain st where "map_of (hc_sess (naryo s')) sid = Some st" using assms(3) using TrimSpace_hex by auto
  then have "StopPipeline (http_client out) (naryo s') sid = None" by (simp add: http_client_def stop_tracked)
  then show ?thesis using assms(4) by (simp add: Stop_def Get_def)
qed

section \<open>A concrete Naryo service\<close>

text \<open>It accepts every request, applies it at once and lists one configuration and one broadcaster.\<close>

definition demo_reply :: "any \<Rightarrow> http_resp" where
  "demo_reply v = \<lparr>StatusCode = 200, StatusText = ''200 OK'', RawBody = [], Decoded = Inr v\<rparr>"

definition demo_rows :: "string \<Rightarrow> any" where
  "demo_rows url =
     (if HasSuffix url ''/broadcaster-configurations''
      then AArr [AObj [(''id'', AStr ''cfg''), (''currentItemHash'', AStr ''h1'')]]
      else AArr [AObj [(''id'', AStr ''br''), (''currentItemHash'', AStr ''h2''),
             (''target'', AObj [(''type'', AStr ''ALL''),
                (''destinations'', AArr [AStr ''/internal/naryo/v1/events/0102030405060708''])])]])"

definition demo_outside :: "unit outside" where
  "demo_outside = \<lparr>
     Do = (\<lambda>w req. (w, Inr
       (if Method req = ''GET''
        then demo_reply (if Contains (Url req) ''/operations/'' then AObj [(''state'', AStr ''SUCCEEDED'')]
               else demo_rows (Url req))
        else (demo_reply (AObj [(''value'', AStr ''op'')]))\<lparr>StatusCode := 202\<rparr>))),
     After = (\<lambda>w d. (w, None)), DeadlinePassed = (\<lambda>w. False),
     RandomBytes = (\<lambda>w n. (w, [])), Now = (\<lambda>w. 0)\<rparr>"

definition demo_env :: env where
  "demo_env k =
     (if k = ''NARYO_CONFIG_API_BASE'' then ''http://naryo:6060''
      else if k = ''NARYO_PLATFORM_INGEST_URL'' then ''http://platform:8080''
      else if k = ''NARYO_BROADCASTER_CONFIGURATION_ID'' then ''cfg'' else [])"

definition demo_http :: "unit HTTPClient" where
  "demo_http = projr (NewFromEnv demo_env ())"

definition http_service :: "unit HTTPClient service" where
  "http_service = NewService NewMemoryStore demo_http None 1 None 0 []"

definition http_sid :: string where
  "http_sid = ''0102030405060708''"

definition http_created :: "unit HTTPClient service" where
  "http_created = fst (Create http_service (Some (map (char_of :: nat \<Rightarrow> char) [1, 2, 3, 4, 5, 6, 7, 8])) [])"

definition http_started :: "unit HTTPClient service" where
  "http_started = fst (the (Start (http_client demo_outside) http_created http_sid))"

lemma http_trim: "TrimSpace http_sid = http_sid"
  by code_simp

lemma http_start_ok: "map_option snd (Start (http_client demo_outside) http_created http_sid) = Some None"
  by code_simp

lemma http_steps: "(svc_step (http_client demo_outside))\<^sup>*\<^sup>* http_service http_started"
proof -
  have "svc_step (http_client demo_outside) http_service http_created"
    unfolding http_created_def by (rule svc_step.create) (simp add: newSessionID_def, simp add: http_service_def NewService_def Let_def NewMemoryStore_def)
  moreover have "svc_step (http_client demo_outside) http_created http_started"
    using http_start_ok by (auto simp: http_started_def intro: svc_step.start)
  ultimately show ?thesis by (meson rtranclp.simps)
qed

theorem live_pipeline_never_stops_witness:
  "Stop (http_client demo_outside) http_started http_sid = None"
proof -
  have "map_option State (sessions (store http_started) http_sid) = Some StateRunning" by code_simp
  then obtain v where "sessions (store http_started) http_sid = Some v" "State v = StateRunning" by auto
  moreover have "store http_service = NewMemoryStore" by (simp add: http_service_def NewService_def Let_def)
  moreover have "\<not> hc_skipEgress (naryo http_service)" by code_simp
  ultimately show ?thesis using live_pipeline_never_stops [OF _ http_steps] by blast
qed

end
