(* ===== verification/Naryo_Outcomes.thy ===== *)
theory Naryo_Outcomes
  imports Naryo_Live
begin

text \<open>
  What the calls of the HTTP client achieve: when waiting for an operation ends, how the client
  recognises the broadcaster of a session, what a provisioning leaves in the session table and what
  it reports.
\<close>

section \<open>Waiting for an operation\<close>

text \<open>
  The answers to the question for an operation, in the words of the API: the state they carry when they
  have status 200 and a JSON object, and the ways in which they end the wait with an error.
\<close>

definition op_request :: "'w HTTPClient \<Rightarrow> string \<Rightarrow> http_req" where
  "op_request c opID = \<lparr>Method = ''GET'', Url = hc_base c @ ''/api/v1/operations/'' @ opID, ReqBody = None\<rparr>"

inductive op_state :: "string + http_resp \<Rightarrow> string \<Rightarrow> bool" where
  "StatusCode resp = 200 \<Longrightarrow> Decoded resp = Inr v \<Longrightarrow> unmarshal_map v = Inr st \<Longrightarrow>
     op_state (Inr resp) (string_or_empty (field st ''state''))"

definition deadline_message :: "string \<Rightarrow> string" where
  "deadline_message opID = ''naryo: operation '' @ opID @ '': context deadline exceeded''"

definition status_message :: "string \<Rightarrow> http_resp \<Rightarrow> string" where
  "status_message opID resp =
     ''naryo: poll operation '' @ opID @ '': '' @ StatusText resp @ '': '' @ TrimSpace (RawBody resp)"

definition failed_message :: "string \<Rightarrow> obj \<Rightarrow> string" where
  "failed_message opID st = ''naryo: operation '' @ opID @ '' failed: '' @
     string_or_empty (field st ''errorCode'') @ '' '' @ string_or_empty (field st ''errorMessage'')"

inductive op_failure :: "string \<Rightarrow> string + http_resp \<Rightarrow> string \<Rightarrow> bool" for opID where
  transport: "op_failure opID (Inl t) t"
| status: "StatusCode resp \<noteq> 200 \<Longrightarrow> op_failure opID (Inr resp) (status_message opID resp)"
| no_json: "StatusCode resp = 200 \<Longrightarrow> Decoded resp = Inl t \<Longrightarrow> op_failure opID (Inr resp) t"
| no_object: "StatusCode resp = 200 \<Longrightarrow> Decoded resp = Inr v \<Longrightarrow> unmarshal_map v = Inl t \<Longrightarrow>
     op_failure opID (Inr resp) t"
| failed: "StatusCode resp = 200 \<Longrightarrow> Decoded resp = Inr v \<Longrightarrow> unmarshal_map v = Inr st \<Longrightarrow>
     field st ''state'' = AStr ''FAILED'' \<Longrightarrow> op_failure opID (Inr resp) (failed_message opID st)"

inductive_simps op_state_simps [simp]: "op_state (Inl t) st" "op_state (Inr resp) st"
inductive_simps op_failure_simps [simp]: "op_failure opID (Inl e) t" "op_failure opID (Inr resp) t"

text \<open>
  Round \<open>n\<close> begins in the world \<open>op_world out c opID n\<close>; \<open>op_answer\<close> is what the request of the round gets,
  \<open>op_pause\<close> how the pause after it ends: with the context's error, or \<open>None\<close> at the end of the interval.
\<close>

definition op_world :: "'w outside \<Rightarrow> 'w HTTPClient \<Rightarrow> string \<Rightarrow> nat \<Rightarrow> 'w" where
  "op_world out c opID n =
     ((\<lambda>w. fst (After out (fst (Do out w (op_request c opID))) (hc_poll c))) ^^ n) (hc_net c)"

definition op_answer :: "'w outside \<Rightarrow> 'w HTTPClient \<Rightarrow> string \<Rightarrow> nat \<Rightarrow> string + http_resp" where
  "op_answer out c opID n = snd (Do out (op_world out c opID n) (op_request c opID))"

definition op_pause :: "'w outside \<Rightarrow> 'w HTTPClient \<Rightarrow> string \<Rightarrow> nat \<Rightarrow> string option" where
  "op_pause out c opID n =
     snd (After out (fst (Do out (op_world out c opID n) (op_request c opID))) (hc_poll c))"

text \<open>An answer of a running operation carries any other state: PENDING, RUNNING, none, or an unknown one.\<close>

definition op_runs :: "string + http_resp \<Rightarrow> bool" where
  "op_runs ans \<longleftrightarrow> (\<exists>st. op_state ans st \<and> st \<noteq> ''SUCCEEDED'' \<and> st \<noteq> ''FAILED'')"

lemma op_runs_Inl [simp]: "\<not> op_runs (Inl t)"
  by (simp add: op_runs_def)

definition polls_on :: "'w outside \<Rightarrow> 'w HTTPClient \<Rightarrow> string \<Rightarrow> nat \<Rightarrow> bool" where
  "polls_on out c opID n \<longleftrightarrow> \<not> DeadlinePassed out (op_world out c opID n) \<and>
     op_runs (op_answer out c opID n) \<and> op_pause out c opID n = None"

inductive wait_outcome :: "'w outside \<Rightarrow> 'w HTTPClient \<Rightarrow> string \<Rightarrow> nat \<Rightarrow> err option \<Rightarrow> bool"
  for out c opID n where
  deadline: "DeadlinePassed out (op_world out c opID n) \<Longrightarrow>
    wait_outcome out c opID n (Some (ErrOther (deadline_message opID)))"
| succeeded: "\<not> DeadlinePassed out (op_world out c opID n) \<Longrightarrow> op_state (op_answer out c opID n) ''SUCCEEDED'' \<Longrightarrow>
    wait_outcome out c opID n None"
| failed: "\<not> DeadlinePassed out (op_world out c opID n) \<Longrightarrow> op_failure opID (op_answer out c opID n) t \<Longrightarrow>
    wait_outcome out c opID n (Some (ErrOther t))"
| context_ended: "\<not> DeadlinePassed out (op_world out c opID n) \<Longrightarrow> op_runs (op_answer out c opID n) \<Longrightarrow>
    op_pause out c opID n = Some t \<Longrightarrow> wait_outcome out c opID n (Some (ErrOther t))"

inductive_simps wait_outcome_simps: "wait_outcome out c opID n r"

text \<open>The model's loop in these words.\<close>

lemma state_failed: "string_or_empty v = ''FAILED'' \<longleftrightarrow> v = AStr ''FAILED''"
  by (cases v) (simp_all add: string_or_empty_def)

lemma poll_result_simps:
  "poll_result opID resp = Finished None \<longleftrightarrow> op_state (Inr resp) ''SUCCEEDED''"
  "poll_result opID resp = Finished (Some e) \<longleftrightarrow> (\<exists>t. e = ErrOther t \<and> op_failure opID (Inr resp) t)"
  "poll_result opID resp = Pending \<longleftrightarrow> op_runs (Inr resp)"
proof -
  have "(poll_result opID resp = Finished None \<longleftrightarrow> op_state (Inr resp) ''SUCCEEDED'') \<and>
    (poll_result opID resp = Finished (Some e) \<longleftrightarrow> (\<exists>t. e = ErrOther t \<and> op_failure opID (Inr resp) t)) \<and>
    (poll_result opID resp = Pending \<longleftrightarrow> op_runs (Inr resp))"
  proof (cases "StatusCode resp = 200 \<and> (\<exists>v st. Decoded resp = Inr v \<and> unmarshal_map v = Inr st)")
    case True
    then obtain v st where v: "StatusCode resp = 200" "Decoded resp = Inr v" "unmarshal_map v = Inr st" by blast
    define x where "x = string_or_empty (field st ''state'')"
    have p: "poll_result opID resp = (if x = ''SUCCEEDED'' then Finished None
        else if x = ''FAILED'' then Finished (Some (ErrOther (failed_message opID st)))
        else Pending)"
      using v by (simp only: poll_result_def failed_message_def x_def Let_def if_False simp_thms sum.case)
    have o: "op_state (Inr resp) y \<longleftrightarrow> y = x" for y using v by (simp add: x_def)
    have f: "op_failure opID (Inr resp) t \<longleftrightarrow> x = ''FAILED'' \<and> t = failed_message opID st" for t
      using v by (auto simp: x_def state_failed)
    show ?thesis
      unfolding p o f op_runs_def by (cases "x = ''SUCCEEDED''"; cases "x = ''FAILED''") auto
  next
    case False
    then show ?thesis
      by (cases "Decoded resp"; cases "StatusCode resp = 200"; cases "unmarshal_map (projr (Decoded resp))")
         (auto simp: poll_result_def op_runs_def status_message_def)
  qed
  then show "poll_result opID resp = Finished None \<longleftrightarrow> op_state (Inr resp) ''SUCCEEDED''"
    "poll_result opID resp = Finished (Some e) \<longleftrightarrow> (\<exists>t. e = ErrOther t \<and> op_failure opID (Inr resp) t)"
    "poll_result opID resp = Pending \<longleftrightarrow> op_runs (Inr resp)" by blast+
qed

definition wait_round :: "'w outside \<Rightarrow> string \<Rightarrow> 'w HTTPClient \<Rightarrow> 'w HTTPClient" where
  "wait_round out opID c =
     (let c1 = fst (poll_once out c opID) in c1\<lparr>hc_net := fst (After out (hc_net c1) (hc_poll c1))\<rparr>)"

lemma poll_once_net:
  "hc_net (fst (poll_once out c opID)) = fst (Do out (hc_net c) (op_request c opID))"
  "hc_poll (fst (poll_once out c opID)) = hc_poll c" "hc_base (fst (poll_once out c opID)) = hc_base c"
  "snd (poll_once out c opID) = (case snd (Do out (hc_net c) (op_request c opID)) of
     Inl e \<Rightarrow> Finished (Some (ErrOther e)) | Inr resp \<Rightarrow> poll_result opID resp)"
  by (simp_all add: poll_once_def http_do_def op_request_def Let_def split: prod.split sum.split)

lemma wait_round_net:
  "hc_poll ((wait_round out opID ^^ n) c) = hc_poll c" "hc_base ((wait_round out opID ^^ n) c) = hc_base c"
  "hc_net ((wait_round out opID ^^ n) c) = op_world out c opID n"
  by (induction n) (simp_all add: wait_round_def Let_def poll_once_net op_world_def op_request_def)

lemma first_round [simp]:
  "op_world out c opID 0 = hc_net c"
  "op_request ((wait_round out opID ^^ n) c) opID = op_request c opID"
  by (simp_all add: op_world_def op_request_def wait_round_net)

lemma later_round:
  "polls_on out ((wait_round out opID ^^ n) c) opID 0 = polls_on out c opID n"
  "wait_outcome out ((wait_round out opID ^^ n) c) opID 0 r = wait_outcome out c opID n r"
  by (simp_all add: polls_on_def wait_outcome_simps op_answer_def op_pause_def wait_round_net)

text \<open>What one poll yields, in these words.\<close>

lemma poll_answer:
  assumes "poll_once out c opID = (c1, p)"
  shows "p = Finished None \<longleftrightarrow> op_state (op_answer out c opID 0) ''SUCCEEDED''"
    "p = Finished (Some e) \<longleftrightarrow> (\<exists>t. e = ErrOther t \<and> op_failure opID (op_answer out c opID 0) t)"
    "p = Pending \<longleftrightarrow> op_runs (op_answer out c opID 0)"
    "snd (After out (hc_net c1) (hc_poll c1)) = op_pause out c opID 0"
proof -
  have p: "p = (case op_answer out c opID 0 of Inl e \<Rightarrow> Finished (Some (ErrOther e)) | Inr resp \<Rightarrow> poll_result opID resp)"
    using poll_once_net(4) [of out c opID] assms by (simp add: op_answer_def)
  have "(p = Finished None \<longleftrightarrow> op_state (op_answer out c opID 0) ''SUCCEEDED'') \<and>
    (p = Finished (Some e) \<longleftrightarrow> (\<exists>t. e = ErrOther t \<and> op_failure opID (op_answer out c opID 0) t)) \<and>
    (p = Pending \<longleftrightarrow> op_runs (op_answer out c opID 0))"
  proof (cases "op_answer out c opID 0")
    case (Inl t)
    then show ?thesis using p by auto
  next
    case (Inr resp)
    then have "p = poll_result opID resp" using p by simp
    then show ?thesis unfolding Inr by (simp only: poll_result_simps simp_thms)
  qed
  then show "p = Finished None \<longleftrightarrow> op_state (op_answer out c opID 0) ''SUCCEEDED''"
    "p = Finished (Some e) \<longleftrightarrow> (\<exists>t. e = ErrOther t \<and> op_failure opID (op_answer out c opID 0) t)"
    "p = Pending \<longleftrightarrow> op_runs (op_answer out c opID 0)" by blast+
  show "snd (After out (hc_net c1) (hc_poll c1)) = op_pause out c opID 0"
    using poll_once_net(1,2) [of out c opID] assms by (simp add: op_pause_def)
qed

lemma wait_loop_goes_on:
  assumes "polls_on out c opID 0"
  shows "wait_loop out opID c = wait_loop out opID (wait_round out opID c)"
proof -
  obtain c1 p where p: "poll_once out c opID = (c1, p)" by (cases "poll_once out c opID")
  note a = poll_answer [OF p]
  have "p = Pending" "\<not> DeadlinePassed out (hc_net c)" using assms a(3) by (auto simp: polls_on_def)
  moreover obtain w where "After out (hc_net c1) (hc_poll c1) = (w, None)"
    using assms a(4) by (cases "After out (hc_net c1) (hc_poll c1)") (simp add: polls_on_def)
  ultimately show ?thesis by (subst wait_loop.simps) (simp add: wait_round_def p)
qed

lemma wait_loop_ends:
  assumes "\<not> polls_on out c opID 0"
  shows "\<exists>c' r. wait_loop out opID c = Some (c', r) \<and> (\<forall>r'. wait_outcome out c opID 0 r' \<longleftrightarrow> r' = r)"
proof (cases "DeadlinePassed out (hc_net c)")
  case True
  then show ?thesis by (subst wait_loop.simps) (auto simp: wait_outcome_simps deadline_message_def)
next
  case False
  obtain c1 p where p: "poll_once out c opID = (c1, p)" by (cases "poll_once out c opID")
  note a = poll_answer [OF p]
  have out: "wait_outcome out c opID 0 r \<longleftrightarrow> (r = None \<and> p = Finished None \<or> (\<exists>e. r = Some e \<and> p = Finished (Some e)) \<or>
      (\<exists>t. r = Some (ErrOther t) \<and> p = Pending \<and> op_pause out c opID 0 = Some t))" for r
    using False by (auto simp: wait_outcome_simps a)
  show ?thesis
  proof (cases p)
    case (Finished r)
    then have "wait_loop out opID c = Some (c1, r)" using False p by (subst wait_loop.simps) simp
    moreover have "wait_outcome out c opID 0 r' \<longleftrightarrow> r' = r" for r' unfolding out Finished by (cases r; cases r') auto
    ultimately show ?thesis by blast
  next
    case Pending
    then obtain t where t: "op_pause out c opID 0 = Some t"
      using assms False a(3) by (auto simp: polls_on_def)
    obtain w where "After out (hc_net c1) (hc_poll c1) = (w, Some t)"
      using t a(4) by (cases "After out (hc_net c1) (hc_poll c1)") simp
    then have "wait_loop out opID c = Some (c1\<lparr>hc_net := w\<rparr>, Some (ErrOther t))"
      using False p Pending by (subst wait_loop.simps) simp
    moreover have "wait_outcome out c opID 0 r' \<longleftrightarrow> r' = Some (ErrOther t)" for r' unfolding out Pending t by auto
    ultimately show ?thesis by blast
  qed
qed

lemma wait_loop_rounds:
  "\<forall>m < n. polls_on out c opID m \<Longrightarrow> wait_loop out opID c = wait_loop out opID ((wait_round out opID ^^ n) c)"
proof (induction n)
  case (Suc n)
  then have "polls_on out ((wait_round out opID ^^ n) c) opID 0" by (simp add: later_round)
  from wait_loop_goes_on [OF this] Suc show ?case by simp
qed simp

lemma wait_loop_returned: "wait_loop out opID c = Some r \<Longrightarrow> \<exists>n. \<not> polls_on out c opID n"
proof (erule wait_loop.raw_induct [where P = "\<lambda>out opID c r. \<exists>n. \<not> polls_on out c opID n", rotated], goal_cases)
  case (1 rec out opID c r)
  show ?case
  proof (cases "polls_on out c opID 0")
    case True
    obtain c1 p where p: "poll_once out c opID = (c1, p)" by (cases "poll_once out c opID")
    note a = poll_answer [OF p]
    have "p = Pending" "\<not> DeadlinePassed out (hc_net c)" using True a(3) by (auto simp: polls_on_def)
    moreover obtain w where "After out (hc_net c1) (hc_poll c1) = (w, None)"
      using True a(4) by (cases "After out (hc_net c1) (hc_poll c1)") (simp add: polls_on_def)
    ultimately have "rec out opID (wait_round out opID c) = Some r" using 1(2) p by (simp add: wait_round_def)
    from 1(1) [OF this] obtain n where "\<not> polls_on out (wait_round out opID c) opID n" by blast
    then have "\<not> polls_on out ((wait_round out opID ^^ Suc n) c) opID 0"
      by (simp add: funpow_swap1 later_round)
    then show ?thesis by (auto simp only: later_round)
  qed blast
qed

lemma first_failure:
  fixes P :: "nat \<Rightarrow> bool"
  assumes "\<not> P n"
  obtains m where "\<not> P m" "\<forall>k < m. P k"
  using assms exists_least_iff [of "\<lambda>n. \<not> P n"] by blast

lemma wait_loop_result:
  "(\<exists>c'. wait_loop out opID c = Some (c', r)) \<longleftrightarrow>
     (\<exists>n. (\<forall>m < n. polls_on out c opID m) \<and> \<not> polls_on out c opID n \<and> wait_outcome out c opID n r)"
proof -
  have at: "\<exists>c' r'. wait_loop out opID c = Some (c', r') \<and> (\<forall>r. wait_outcome out c opID n r \<longleftrightarrow> r = r')"
    if "\<forall>m < n. polls_on out c opID m" "\<not> polls_on out c opID n" for n
    using wait_loop_ends [of out "(wait_round out opID ^^ n) c" opID] wait_loop_rounds [OF that(1)] that(2)
    by (simp add: later_round)
  show ?thesis
  proof
    assume "\<exists>c'. wait_loop out opID c = Some (c', r)"
    then obtain c' where c': "wait_loop out opID c = Some (c', r)" by blast
    then obtain n where "\<not> polls_on out c opID n" using wait_loop_returned by blast
    then obtain m where m: "\<not> polls_on out c opID m" "\<forall>k < m. polls_on out c opID k"
      using first_failure [of "polls_on out c opID"] by blast
    with at [OF m(2,1)] c' show "\<exists>n. (\<forall>m < n. polls_on out c opID m) \<and> \<not> polls_on out c opID n \<and> wait_outcome out c opID n r"
      by auto
  next
    assume "\<exists>n. (\<forall>m < n. polls_on out c opID m) \<and> \<not> polls_on out c opID n \<and> wait_outcome out c opID n r"
    then obtain n where n: "\<forall>m < n. polls_on out c opID m" "\<not> polls_on out c opID n" "wait_outcome out c opID n r"
      by blast
    with at [OF n(1,2)] show "\<exists>c'. wait_loop out opID c = Some (c', r)" by auto
  qed
qed

lemma outcome_ends: "wait_outcome out c opID n r \<Longrightarrow> \<not> polls_on out c opID n"
proof -
  assume "wait_outcome out c opID n r"
  moreover have False if "op_runs ans" "op_failure opID ans t" for ans t
    using that by (cases ans) (auto simp: op_runs_def string_or_empty_def)
  moreover have False if "op_runs ans" "op_state ans ''SUCCEEDED''" for ans
    using that by (cases ans) (auto simp: op_runs_def)
  ultimately show ?thesis by (auto simp: wait_outcome_simps polls_on_def)
qed

text \<open>
  C29: how waiting for an operation ends.  A round asks for the operation and reads its state; \<open>PENDING\<close>,
  \<open>RUNNING\<close>, an empty or an unknown state are polled on while neither the deadline nor the context has
  ended.  \<open>waitOperation\<close> succeeds exactly when, after such rounds, one reads \<open>SUCCEEDED\<close> before the
  deadline.  It fails exactly when the operation id is empty, or when after such rounds the deadline has
  passed, or the answer is a transport error, has a status other than 200, is no JSON object or reports
  \<open>FAILED\<close>, or the context ends in the pause after a running state, each with its own error.  And it
  never returns exactly when all rounds are of this kind: a service that keeps reporting a running
  operation to a caller without deadline is polled for ever.
\<close>

theorem waiting_ends_iff:
  "((\<exists>c'. waitOperation out c opID = Some (c', None)) \<longleftrightarrow>
      opID \<noteq> [] \<and> (\<exists>n. (\<forall>m < n. polls_on out c opID m) \<and> \<not> DeadlinePassed out (op_world out c opID n) \<and>
        op_state (op_answer out c opID n) ''SUCCEEDED'')) \<and>
   ((\<exists>c'. waitOperation out c opID = Some (c', Some e)) \<longleftrightarrow>
      opID = [] \<and> e = ErrOther ''naryo: empty operation id'' \<or>
      opID \<noteq> [] \<and> (\<exists>n. (\<forall>m < n. polls_on out c opID m) \<and>
        (DeadlinePassed out (op_world out c opID n) \<and>
           e = ErrOther (deadline_message opID) \<or>
         \<not> DeadlinePassed out (op_world out c opID n) \<and>
           (\<exists>t. e = ErrOther t \<and> (op_failure opID (op_answer out c opID n) t \<or>
              op_runs (op_answer out c opID n) \<and> op_pause out c opID n = Some t))))) \<and>
   (waitOperation out c opID = None \<longleftrightarrow> opID \<noteq> [] \<and> (\<forall>n. polls_on out c opID n))"
proof (cases "opID = []")
  case True
  then show ?thesis by (auto simp: waitOperation_def)
next
  case False
  then have w: "waitOperation out c opID = wait_loop out opID c" by (simp add: waitOperation_def)
  have result: "(\<exists>c'. wait_loop out opID c = Some (c', r)) \<longleftrightarrow>
      (\<exists>n. (\<forall>m < n. polls_on out c opID m) \<and> wait_outcome out c opID n r)" for r
    unfolding wait_loop_result using outcome_ends by blast
  have "wait_loop out opID c = None \<longleftrightarrow> (\<forall>n. polls_on out c opID n)"
  proof
    assume none: "wait_loop out opID c = None"
    show "\<forall>n. polls_on out c opID n"
    proof (rule ccontr)
      assume "\<not> (\<forall>n. polls_on out c opID n)"
      then obtain m where m: "\<not> polls_on out c opID m" "\<forall>k < m. polls_on out c opID k"
        using first_failure [of "polls_on out c opID"] by blast
      then show False
        using wait_loop_ends [of out "(wait_round out opID ^^ m) c" opID] wait_loop_rounds [OF m(2)] none
        by (simp add: later_round)
    qed
  next
    assume "\<forall>n. polls_on out c opID n"
    then have "wait_loop out opID c \<noteq> Some r" for r using wait_loop_returned by blast
    then show "wait_loop out opID c = None" by (metis option.exhaust)
  qed
  moreover have "(\<exists>c'. wait_loop out opID c = Some (c', None)) \<longleftrightarrow>
      (\<exists>n. (\<forall>m < n. polls_on out c opID m) \<and> \<not> DeadlinePassed out (op_world out c opID n) \<and>
        op_state (op_answer out c opID n) ''SUCCEEDED'')"
    unfolding result wait_outcome_simps by simp
  moreover have "(\<exists>c'. wait_loop out opID c = Some (c', Some e)) \<longleftrightarrow>
      (\<exists>n. (\<forall>m < n. polls_on out c opID m) \<and>
        (DeadlinePassed out (op_world out c opID n) \<and> e = ErrOther (deadline_message opID) \<or>
         \<not> DeadlinePassed out (op_world out c opID n) \<and>
           (\<exists>t. e = ErrOther t \<and> (op_failure opID (op_answer out c opID n) t \<or>
              op_runs (op_answer out c opID n) \<and> op_pause out c opID n = Some t))))"
    unfolding result wait_outcome_simps by (intro ex_cong1 conj_cong refl) auto
  ultimately show ?thesis unfolding w using False by simp
qed

text \<open>
  A service that reports a running operation twice and then a success, and one that reports a running
  operation for ever.
\<close>

definition slow_outside :: "(nat \<Rightarrow> string) \<Rightarrow> nat outside" where
  "slow_outside st = \<lparr>Do = (\<lambda>w req. (w + 1, Inr \<lparr>StatusCode = 200, StatusText = ''200 OK'', RawBody = [],
       Decoded = Inr (AObj [(''state'', AStr (st w))])\<rparr>)),
     After = (\<lambda>w d. (w, None)), DeadlinePassed = (\<lambda>w. False), RandomBytes = (\<lambda>w n. (w, [])), Now = (\<lambda>w. 0)\<rparr>"

lemma slow_world: "hc_net c = 0 \<Longrightarrow> op_world (slow_outside st) c opID n = n"
  unfolding op_world_def by (induction n) (simp_all add: slow_outside_def)

lemma slow_polls_on:
  "hc_net c = 0 \<Longrightarrow> polls_on (slow_outside st) c opID n \<longleftrightarrow> st n \<noteq> ''SUCCEEDED'' \<and> st n \<noteq> ''FAILED''"
  by (simp add: polls_on_def op_runs_def op_answer_def op_pause_def slow_world)
     (auto simp: slow_outside_def unmarshal_map_def field_def string_or_empty_def)

lemma waiting_ends_iff_witness:
  "\<exists>c. (\<exists>c'. waitOperation (slow_outside (\<lambda>n. if n < 2 then ''RUNNING'' else ''SUCCEEDED'')) c ''op'' = Some (c', None)) \<and>
     waitOperation (slow_outside (\<lambda>n. ''PENDING'')) c ''op'' = None"
proof -
  obtain c :: "nat HTTPClient" where c: "hc_net c = 0" by (metis HTTPClient.select_convs(14))
  let ?st = "\<lambda>n. if n < 2 then ''RUNNING'' else ''SUCCEEDED''"
  have "op_state (op_answer (slow_outside ?st) c ''op'' 2) ''SUCCEEDED''"
    by (simp add: op_answer_def slow_world [OF c])
       (simp add: slow_outside_def unmarshal_map_def field_def string_or_empty_def)
  moreover have "\<not> DeadlinePassed (slow_outside ?st) (op_world (slow_outside ?st) c ''op'' 2)" by (simp add: slow_outside_def)
  moreover have "\<forall>m < 2. polls_on (slow_outside ?st) c ''op'' m" by (simp add: slow_polls_on [OF c])
  ultimately have "\<exists>c'. waitOperation (slow_outside ?st) c ''op'' = Some (c', None)"
    using waiting_ends_iff [of "slow_outside ?st" c "''op''"] by blast
  moreover have "waitOperation (slow_outside (\<lambda>n. ''PENDING'')) c ''op'' = None"
    using waiting_ends_iff [of "slow_outside (\<lambda>n. ''PENDING'')" c "''op''"] by (simp add: slow_polls_on [OF c])
  ultimately show ?thesis by blast
qed

section \<open>Destinations of sessions\<close>

lemma space_not_path: "list_all (\<lambda>w. w \<noteq> [] \<and> list_all (\<lambda>c. c \<noteq> CHR ''/'' \<and> c \<notin> set ''0123456789abcdef'') w) unicode_space"
  by code_simp

lemma hex_safe: "list_all path_safe ''0123456789abcdef''"
  by code_simp

lemma PathEscape_hex: "PathEscape (hex bs) = hex bs"
proof -
  have "\<forall>c \<in> set (hex bs). path_safe c" using hex_safe set_hex [of bs] unfolding list_all_iff by blast
  then have "PathEscape (hex bs) = List.concat (map (\<lambda>c. [c]) (hex bs))"
    unfolding PathEscape_def by (intro arg_cong [where f = List.concat] map_cong) auto
  moreover have "List.concat (map (\<lambda>c. [c]) xs) = xs" for xs :: string by (induction xs) auto
  ultimately show ?thesis by simp
qed

lemma NewHTTPClient_dest: "NewHTTPClient cfg env w = Inr c \<Longrightarrow> \<exists>d. hc_dest c = CHR ''/'' # d"
  by (cases "or_default (TrimSpace (ActiveDestPath cfg)) ''/internal/naryo/v1/events''")
     (auto simp: NewHTTPClient_def Let_def or_default_def split: if_splits)

lemma same_length:
  "suffix x y \<Longrightarrow> length x = length y \<Longrightarrow> x = y" "sublist x y \<Longrightarrow> length x = length y \<Longrightarrow> x = y"
  by (auto simp: suffix_def sublist_def)

text \<open>The path of a session, as \<open>TrimSpace\<close> and \<open>TrimSuffix\<close> leave it.\<close>

lemma path_normal:
  assumes "hc_dest c = CHR ''/'' # d" "bs \<noteq> []"
  shows "TrimSpace (ingestDestinationPath c (hex bs)) = ingestDestinationPath c (hex bs)"
    "TrimSuffix (ingestDestinationPath c (hex bs)) ''/'' = ingestDestinationPath c (hex bs)"
proof -
  let ?p = "ingestDestinationPath c (hex bs)"
  have "hd ?p = CHR ''/''"
    using assms(1) by (cases d) (auto simp: ingestDestinationPath_def TrimSuffix_def)
  then obtain l where "?p = CHR ''/'' # l" by (cases ?p) (auto simp: ingestDestinationPath_def)
  moreover have "hex bs \<noteq> []" using assms(2) by (cases bs) auto
  moreover have "suffix (hex bs) ?p" by (simp add: ingestDestinationPath_def PathEscape_hex suffix_def)
  ultimately obtain l where l: "?p = CHR ''/'' # l" "hex bs \<noteq> []" "suffix (hex bs) ?p" by blast
  from l(3) obtain zs where "?p = zs @ hex bs" by (auto simp: suffix_def)
  then have eq: "last ?p = last (hex bs)" using l(2) by simp
  have last: "last ?p \<in> set ''0123456789abcdef''"
    unfolding eq by (rule subsetD [OF set_hex last_in_set [OF l(2)]])
  have ne: "?p \<noteq> []" using l(1) by simp
  show "TrimSpace ?p = ?p"
  proof (rule TrimSpace_fixed)
    fix w
    assume "w \<in> set unicode_space"
    then have w: "w \<noteq> []" "\<forall>c \<in> set w. c \<noteq> CHR ''/'' \<and> c \<notin> set ''0123456789abcdef''"
      using space_not_path unfolding list_all_iff by blast+
    show "\<not> prefix w ?p" using w l(1) by (cases w) auto
    show "\<not> prefix (rev w) (rev ?p)"
    proof
      assume "prefix (rev w) (rev ?p)"
      then obtain u where "rev ?p = rev w @ u" by (auto simp: prefix_def)
      then have "last ?p = last w" using w(1) ne by (metis hd_append2 hd_rev rev_is_Nil_conv)
      then show False using w last last_in_set [OF w(1)] by (metis (no_types, lifting))
    qed
  qed
  have "last ?p \<noteq> CHR ''/''" using last by auto
  then show "TrimSuffix ?p ''/'' = ?p" by (auto simp: TrimSuffix_def suffix_def)
qed

text \<open>
  C30: the client recognises the broadcaster of a session by its destination: among the destinations
  registered for sessions with ids of the same length, as the service generates them, it finds the
  one of a session exactly when it is there.
\<close>

theorem destination_identifies_session:
  assumes "NewHTTPClient cfg env w = Inr c" "\<forall>bs \<in> set ids. length bs = length sid" "sid \<noteq> []"
  shows "destinationsInclude (map (\<lambda>bs. AStr (ingestDestinationPath c (hex bs))) ids)
      (ingestDestinationPath c (hex sid)) \<longleftrightarrow> sid \<in> set ids"
proof -
  obtain d where d: "hc_dest c = CHR ''/'' # d" using NewHTTPClient_dest [OF assms(1)] by blast
  let ?path = "\<lambda>bs. ingestDestinationPath c (hex bs)"
  have eq: "?path a = ?path b \<longleftrightarrow> a = b" for a b
    by (simp add: ingestDestinationPath_def PathEscape_hex hex_inject)
  have len: "length (?path a) = length (?path b)" if "length a = length b" for a b
    using that by (simp add: ingestDestinationPath_def PathEscape_hex)
  have "destination_matches (?path sid) (AStr (?path bs)) \<longleftrightarrow> bs = sid" if "bs \<in> set ids" for bs
  proof -
    have bs: "length bs = length sid" "bs \<noteq> []" using that assms(2,3) by auto
    have "?path bs \<noteq> []" by (simp add: ingestDestinationPath_def)
    then show ?thesis
      using path_normal [OF d bs(2)] eq [of bs sid] len [OF bs(1)]
      by (auto simp: destination_matches_def destinationString_def Let_def HasSuffix_def Contains_def
          dest!: same_length)
  qed
  then show ?thesis
    using path_normal [OF d assms(3)]
    by (auto simp: destinationsInclude_def list_ex_iff ingestDestinationPath_def Let_def)
qed

definition demo_config :: HTTPClientConfig where
  "demo_config = \<lparr>BaseURL = ''http://naryo:6060'', PlatformIngestURL = ''http://platform:8080'', ActiveDestPath = [],
     HederaNodeID = [], EthereumNodeID = [], PollInterval = 0, FixedBroadcasterConfigID = [], SkipEgressProvision = False\<rparr>"

theorem destination_identifies_session_witness:
  "\<exists>c. NewHTTPClient demo_config demo_env () = Inr c \<and>
     destinationsInclude (map (\<lambda>bs. AStr (ingestDestinationPath c (hex bs))) [''a'', ''b'']) (ingestDestinationPath c (hex ''b'')) \<and>
     \<not> destinationsInclude (map (\<lambda>bs. AStr (ingestDestinationPath c (hex bs))) [''a'', ''b'']) (ingestDestinationPath c (hex ''c''))"
proof -
  have "\<not> isl (NewHTTPClient demo_config demo_env ())" by code_simp
  then obtain c where c: "NewHTTPClient demo_config demo_env () = Inr c" by (auto simp: isl_def split: sum.splits) (metis sum.exhaust)
  show ?thesis
    using c destination_identifies_session [OF c, of "[''a'', ''b'']" "''b''"]
      destination_identifies_session [OF c, of "[''a'', ''b'']" "''c''"] by auto
qed

section \<open>What EnsurePipeline reports\<close>

text \<open>Under the mutex every path ends by recording its success or its error.\<close>

definition reported :: "'w outside \<Rightarrow> 'w HTTPClient \<times> (err + string) \<Rightarrow> bool" where
  "reported out res = (case res of
     (c', Inl e) \<Rightarrow> (\<exists>c1. c' = recordErrUnlocked out e c1) | (c', Inr i) \<Rightarrow> (\<exists>c1. c' = ensure_ok c1))"

lemma reported_intros [simp]:
  "reported out (ensure_failed out c e)" "reported out (ensure_ok c, Inr i)"
  by (auto simp: reported_def ensure_failed_def)

lemma reported_fallback:
  assumes "ensure_fallback out c sid e = Some res"
  shows "reported out res"
proof -
  from assms obtain c1 r where "fallbackALLAfterRevisionHookFailure out c sid e = Some (c1, r)"
    by (auto simp: ensure_fallback_def bind_eq_Some_conv)
  with assms show ?thesis by (cases r) (auto simp: ensure_fallback_def)
qed

lemma reported_create_filter:
  assumes "create_filter out c sid plan = Some (Inl res)"
  shows "reported out res"
proof -
  obtain c1 x where p: "postFilterBody out c plan sid = (c1, x)" by (cases "postFilterBody out c plan sid")
  show ?thesis
  proof (cases x)
    case (Inr op)
    with assms p obtain c2 e where w: "waitOperation out c1 op = Some (c2, e)"
      by (auto simp: create_filter_def bind_eq_Some_conv)
    with assms p Inr show ?thesis
      by (cases e) (auto simp: create_filter_def bind_eq_Some_conv split: prod.splits sum.splits
          dest: reported_fallback)
  qed (use assms p in \<open>auto simp: create_filter_def\<close>)
qed

lemma reported_filter: "ensure_filter out c sid plan = Some (Inl res) \<Longrightarrow> reported out res"
  by (auto simp: ensure_filter_def split: if_splits prod.splits bool.splits dest: reported_create_filter)

lemma reported_scoped:
  assumes "ensure_scoped out c sid plan = Some res"
  shows "reported out res"
proof -
  from assms obtain f where f: "ensure_filter out c sid plan = Some f"
    by (auto simp: ensure_scoped_def bind_eq_Some_conv)
  show ?thesis
  proof (cases f)
    case (Inr c1)
    with assms f obtain c2 e where "createBroadcaster out c1 sid (filterID (sess_of c1 sid)) ''FILTER'' = Some (c2, e)"
      by (auto simp: ensure_scoped_def bind_eq_Some_conv)
    with assms f Inr show ?thesis by (cases e) (auto simp: ensure_scoped_def dest: reported_fallback)
  qed (use assms f in \<open>auto simp: ensure_scoped_def dest: reported_filter\<close>)
qed

lemma reported_all: "ensure_all out c sid = Some res \<Longrightarrow> reported out res"
  by (auto simp: ensure_all_def bind_eq_Some_conv split: option.splits)

lemma reported_new:
  assumes "ensure_new out c sid plan = Some res"
  shows "reported out res"
proof -
  from assms obtain c3 e where
    "(case e of Some e \<Rightarrow> Some (ensure_failed out c3 e)
      | None \<Rightarrow> if UseALLFallback plan then ensure_all out c3 sid else ensure_scoped out c3 sid plan) = Some res"
    unfolding ensure_new_def Let_def bind_eq_Some_conv by (elim exE conjE) (auto simp: bind_eq_Some_conv)
  then show ?thesis by (auto split: option.splits if_splits dest: reported_all reported_scoped)
qed

lemma reported_locked: "ensure_locked out c sid plan = Some res \<Longrightarrow> reported out res"
  by (auto simp: ensure_locked_def Let_def split: if_splits prod.splits dest: reported_new)

lemma LastErr_reported:
  "reported out (c', r) \<Longrightarrow> LastErr (hc_stats c') = (case r of Inl e \<Rightarrow> err_text e | Inr _ \<Rightarrow> [])"
  by (auto simp: reported_def recordErrUnlocked_def ensure_ok_def clearErrUnlocked_def upd_stats_def split: sum.splits)

text \<open>A call that is not answered by validation or by the skip setting works under the mutex.\<close>

definition usable_plan :: "pipelineFilterPlan \<Rightarrow> bool" where
  "usable_plan plan \<longleftrightarrow> UseALLFallback plan \<or> HederaTopicID plan \<noteq> [] \<or> EVMContract plan \<noteq> []"

definition works :: "'w HTTPClient \<Rightarrow> string \<Rightarrow> obj \<Rightarrow> bool" where
  "works c session cfg \<longleftrightarrow> TrimSpace session \<noteq> [] \<and> \<not> hc_skipEgress c \<and>
     usable_plan (resolvePipelineFilterPlan (hc_env c) cfg)"

lemma ensure_works:
  assumes "http_EnsurePipeline out c session cfg = Some (c', r)" "works c session cfg"
  shows "\<exists>c1. ensure_locked out (c\<lparr>hc_mu := True\<rparr>) (TrimSpace session) (resolvePipelineFilterPlan (hc_env c) cfg) =
      Some (c1, r) \<and> c' = unlock c1"
  using assms by (auto simp: works_def usable_plan_def Let_def http_EnsurePipeline_def lock_eq bind_eq_Some_conv split: if_splits)

section \<open>Concrete provisionings\<close>

text \<open>A service that cannot be reached.\<close>

definition demo_down :: "unit outside" where
  "demo_down = demo_outside\<lparr>Do := (\<lambda>w req. (w, Inl ''connection refused''))\<rparr>"

lemma demo_works: "works demo_http http_sid []"
  by code_simp

lemma demo_plan: "Key (resolvePipelineFilterPlan (hc_env demo_http) []) = ''ALL''"
  by code_simp

lemma demo_ensured: "map_option (\<lambda>r. isl (snd r)) (http_EnsurePipeline demo_outside demo_http http_sid []) = Some False"
  by code_simp

lemma demo_refused:
  "map_option (\<lambda>r. case snd r of Inl e \<Rightarrow> err_text e \<noteq> [] | Inr _ \<Rightarrow> False)
     (http_EnsurePipeline demo_down demo_http http_sid []) = Some True"
  by code_simp

section \<open>Properties of provisioning\<close>

text \<open>
  C27: when a call with a session id and a usable plan provisions (the setting that skips the egress is
  off) and succeeds, the session's entry names a broadcaster under the plan that was asked for, or under
  the broadcaster for everything that replaces it, and the entry of every other session is as it was; it
  is as it was when provisioning fails, too.
\<close>

theorem ensure_provisions:
  assumes "http_EnsurePipeline out c session cfg = Some (c', r)" "works c session cfg"
  shows "(\<forall>op. r = Inr op \<longrightarrow>
      provisioned (Key (resolvePipelineFilterPlan (hc_env c) cfg)) (sess_of c' (TrimSpace session))) \<and>
    (\<forall>x. x \<noteq> TrimSpace session \<longrightarrow> map_of (hc_sess c') x = map_of (hc_sess c) x)"
proof -
  from ensure_works [OF assms] obtain c1 where
    e: "ensure_locked out (c\<lparr>hc_mu := True\<rparr>) (TrimSpace session) (resolvePipelineFilterPlan (hc_env c) cfg) = Some (c1, r)"
    and c': "c' = unlock c1" by blast
  from ensure_locked_facts [OF e] show ?thesis by (auto simp: c' touches_def sess_of_def)
qed

theorem ensure_provisions_witness:
  "\<exists>c' op. http_EnsurePipeline demo_outside demo_http http_sid [] = Some (c', Inr op) \<and>
     provisioned ''ALL'' (sess_of c' http_sid) \<and> map_of (hc_sess c') ''other'' = map_of (hc_sess demo_http) ''other''"
proof -
  from demo_ensured obtain c' r where e: "http_EnsurePipeline demo_outside demo_http http_sid [] = Some (c', r)" "\<not> isl r"
    by auto
  then obtain op where "r = Inr op" by (cases r) auto
  moreover have "''other'' \<noteq> http_sid" by (simp add: http_sid_def)
  ultimately show ?thesis
    using ensure_provisions [OF e(1) demo_works] e(1) by (auto simp: demo_plan http_trim)
qed

text \<open>
  C28: the health that \<open>Stats\<close> reports after \<open>EnsurePipeline\<close>.  A call without a session id, and (unless the
  egress is skipped) one whose configuration gives no usable plan, fails without recording it: the client
  is exactly as before, so \<open>Stats\<close> still says what it said, healthy even, after a failed call.  Every other
  call that returns is reported: healthy after a success, the skipped egress included, and after a failure
  with an error text unhealthy with that text.
\<close>

theorem stats_report_outcome:
  assumes "http_EnsurePipeline out c session cfg = Some (c', r)"
    and "\<And>e. r = Inl e \<Longrightarrow> err_text e \<noteq> []"
  shows "if TrimSpace session = [] \<or> \<not> hc_skipEgress c \<and> \<not> usable_plan (resolvePipelineFilterPlan (hc_env c) cfg)
    then isl r \<and> c' = c
    else \<exists>c2 stats. http_Stats out c' = Some (c2, stats) \<and> field stats ''healthy'' = ABool (\<not> isl r) \<and>
      field stats ''lastError'' = (case r of Inl e \<Rightarrow> AStr (err_text e) | Inr _ \<Rightarrow> ANil)"
proof (cases "TrimSpace session = [] \<or> \<not> hc_skipEgress c \<and> \<not> usable_plan (resolvePipelineFilterPlan (hc_env c) cfg)")
  case True
  with assms(1) show ?thesis by (auto simp: http_EnsurePipeline_def usable_plan_def Let_def split: if_splits)
next
  case False
  have "LastErr (hc_stats c') = (case r of Inl e \<Rightarrow> err_text e | Inr _ \<Rightarrow> []) \<and> \<not> hc_mu c'"
  proof (cases "hc_skipEgress c")
    case True
    with assms(1) False show ?thesis
      by (auto simp: http_EnsurePipeline_def lock_def bind_eq_Some_conv ensure_ok_def clearErrUnlocked_def upd_stats_def
          unlock_def split: if_splits)
  next
    case works: False
    with False have "works c session cfg" by (simp add: works_def)
    from ensure_works [OF assms(1) this] obtain c1 where
      e: "ensure_locked out (c\<lparr>hc_mu := True\<rparr>) (TrimSpace session) (resolvePipelineFilterPlan (hc_env c) cfg) = Some (c1, r)"
      and c': "c' = unlock c1" by blast
    show ?thesis using LastErr_reported [OF reported_locked [OF e]] by (simp add: c' unlock_def)
  qed
  then show ?thesis
    unfolding if_not_P [OF False] using assms(2)
    by (cases r) (simp_all add: http_Stats_def lock_def Let_def, simp_all add: field_def)
qed

text \<open>A deployment that does not allow the broadcaster for everything.\<close>

definition strict_http :: "unit HTTPClient" where
  "strict_http = demo_http\<lparr>hc_env := (\<lambda>k. if k = ''NARYO_ALLOW_ALL_BROADCASTER_FALLBACK'' then ''false'' else [])\<rparr>"

lemma strict_http_refuses:
  "map_option (\<lambda>r. case snd r of Inl e \<Rightarrow> err_text e \<noteq> [] | Inr _ \<Rightarrow> False)
     (http_EnsurePipeline demo_outside strict_http http_sid []) = Some True"
  "\<not> hc_skipEgress strict_http" "\<not> usable_plan (resolvePipelineFilterPlan (hc_env strict_http) [])"
  "map_option (\<lambda>x. field (snd x) ''healthy'') (http_Stats demo_outside strict_http) = Some (ABool True)"
  by code_simp+

text \<open>A service that is down is reported; a missing plan is not.\<close>

theorem stats_report_outcome_witness:
  "(\<exists>c' e c2 stats. http_EnsurePipeline demo_down demo_http http_sid [] = Some (c', Inl e) \<and>
     http_Stats demo_down c' = Some (c2, stats) \<and> field stats ''healthy'' = ABool False \<and>
     field stats ''lastError'' = AStr (err_text e)) \<and>
   (\<exists>c' e c2 stats. http_EnsurePipeline demo_outside strict_http http_sid [] = Some (c', Inl e) \<and>
     http_Stats demo_outside c' = Some (c2, stats) \<and> field stats ''healthy'' = ABool True)"
proof -
  from demo_refused obtain c' r where r: "http_EnsurePipeline demo_down demo_http http_sid [] = Some (c', r)"
    "case r of Inl e \<Rightarrow> err_text e \<noteq> [] | Inr _ \<Rightarrow> False"
    by auto
  then obtain e where e: "http_EnsurePipeline demo_down demo_http http_sid [] = Some (c', Inl e)" "err_text e \<noteq> []"
    by (cases r) auto
  have "works demo_http http_sid []" by (rule demo_works)
  with stats_report_outcome [OF e(1)] e(2) obtain c2 stats where "http_Stats demo_down c' = Some (c2, stats)"
    "field stats ''healthy'' = ABool False" "field stats ''lastError'' = AStr (err_text e)" by (auto simp: works_def)
  moreover from strict_http_refuses(1) obtain d q where q: "http_EnsurePipeline demo_outside strict_http http_sid [] = Some (d, q)"
    "case q of Inl e \<Rightarrow> err_text e \<noteq> [] | Inr _ \<Rightarrow> False"
    by auto
  then obtain x where x: "http_EnsurePipeline demo_outside strict_http http_sid [] = Some (d, Inl x)" "err_text x \<noteq> []"
    by (cases q) auto
  with stats_report_outcome [OF x(1)] strict_http_refuses(2,3) have "d = strict_http" by simp
  ultimately show ?thesis using e(1) x(1) strict_http_refuses(4) by auto
qed

end
