(* ===== verification/Json_Text.thy ===== *)
theory Json_Text
  imports Go_Values
begin

text \<open>
  JSON text as package \<open>encoding/json\<close> reads and writes it: the lexer and the parser behind
  \<open>Unmarshal\<close> and \<open>Decoder.Decode\<close>, the encoder for structs of strings and integers, and the round trip
  between them.  A parsed value is an \<open>any\<close> with its numbers as literals and its members in order.
\<close>

section \<open>UTF-8\<close>

abbreviation byte :: "char \<Rightarrow> nat" where
  "byte c \<equiv> of_char c"

definition cont :: "char \<Rightarrow> bool" where
  "cont c \<longleftrightarrow> 128 \<le> byte c \<and> byte c < 192"

text \<open>The length of the encoded code point at the head of the text; 0 if there is none.\<close>

definition utf8_len :: "string \<Rightarrow> nat" where
  "utf8_len s =
     (case s of
        [] \<Rightarrow> 0
      | c # cs \<Rightarrow>
          (let b = byte c
           in if b < 128 then 1
              else if 194 \<le> b \<and> b < 224 then (case cs of d # _ \<Rightarrow> if cont d then 2 else 0 | [] \<Rightarrow> 0)
              else if 224 \<le> b \<and> b < 240
              then (case cs of
                  d # e # _ \<Rightarrow>
                    if (if b = 224 then 160 else 128) \<le> byte d \<and> byte d \<le> (if b = 237 then 159 else 191) \<and> cont e
                    then 3 else 0
                | _ \<Rightarrow> 0)
              else if 240 \<le> b \<and> b \<le> 244
              then (case cs of
                  d # e # f # _ \<Rightarrow>
                    if (if b = 240 then 144 else 128) \<le> byte d \<and> byte d \<le> (if b = 244 then 143 else 191) \<and>
                       cont e \<and> cont f
                    then 4 else 0
                | _ \<Rightarrow> 0)
              else 0))"

text \<open>The encoding of a code point, and the replacement character.\<close>

definition utf8_enc :: "nat \<Rightarrow> string" where
  "utf8_enc n =
     (if n < 128 then bytes [n]
      else if n < 2048 then bytes [192 + n div 64, 128 + n mod 64]
      else if n < 65536 then bytes [224 + n div 4096, 128 + n div 64 mod 64, 128 + n mod 64]
      else bytes [240 + n div 262144, 128 + n div 4096 mod 64, 128 + n div 64 mod 64, 128 + n mod 64])"

definition replacement :: string where
  "replacement = [CHR 0xEF, CHR 0xBF, CHR 0xBD]"

section \<open>Strings\<close>

definition hex_val :: "char \<Rightarrow> nat option" where
  "hex_val c =
     (let n = byte c
      in if 48 \<le> n \<and> n \<le> 57 then Some (n - 48)
         else if 97 \<le> n \<and> n \<le> 102 then Some (n - 87)
         else if 65 \<le> n \<and> n \<le> 70 then Some (n - 55) else None)"

definition hex4 :: "string \<Rightarrow> nat option" where
  "hex4 s =
     (case map hex_val (take 4 s) of
        [Some a, Some b, Some c, Some d] \<Rightarrow> Some (((a * 16 + b) * 16 + c) * 16 + d)
      | _ \<Rightarrow> None)"

definition low_surrogate :: "string \<Rightarrow> nat option" where
  "low_surrogate s =
     (if take 2 s = [CHR 0x5C, CHR ''u'']
      then (case hex4 (drop 2 s) of Some m \<Rightarrow> if 56320 \<le> m \<and> m < 57344 then Some m else None | None \<Rightarrow> None)
      else None)"

text \<open>The single-character escapes.\<close>

definition unescape :: "char \<Rightarrow> char option" where
  "unescape e =
     (if e \<in> {CHR 0x22, CHR 0x5C, CHR ''/''} then Some e
      else map_of [(CHR ''b'', CHR 0x08), (CHR ''f'', CHR 0x0C), (CHR ''n'', CHR 0x0A), (CHR ''r'', CHR 0x0D),
                   (CHR ''t'', CHR 0x09)] e)"

definition prepend :: "string \<Rightarrow> (string \<times> 'a) option \<Rightarrow> (string \<times> 'a) option" where
  "prepend a r = map_option (\<lambda>(s, x). (a @ s, x)) r"

text \<open>The body of a string literal after its opening quote: the decoded bytes and the text behind it.\<close>

function lex_str :: "string \<Rightarrow> (string \<times> string) option" where
  "lex_str [] = None"
| "lex_str (c # cs) =
     (if c = CHR 0x22 then Some ([], cs)
      else if byte c < 32 then None
      else if c = CHR 0x5C
      then (case cs of
          [] \<Rightarrow> None
        | e # es \<Rightarrow>
            if e = CHR ''u''
            then (case hex4 es of
                None \<Rightarrow> None
              | Some n \<Rightarrow>
                  if 55296 \<le> n \<and> n < 56320
                  then (case low_surrogate (drop 4 es) of
                      Some m \<Rightarrow> prepend (utf8_enc (65536 + (n - 55296) * 1024 + (m - 56320))) (lex_str (drop 10 es))
                    | None \<Rightarrow> prepend replacement (lex_str (drop 4 es)))
                  else if 56320 \<le> n \<and> n < 57344 then prepend replacement (lex_str (drop 4 es))
                  else prepend (utf8_enc n) (lex_str (drop 4 es)))
            else (case unescape e of None \<Rightarrow> None | Some d \<Rightarrow> prepend [d] (lex_str es)))
      else let k = utf8_len (c # cs)
           in if k = 0 then prepend replacement (lex_str cs)
              else prepend (c # take (k - 1) cs) (lex_str (drop (k - 1) cs)))"
  by pat_completeness auto
termination by (relation "measure length") auto

declare lex_str.simps(2) [simp del]

lemma prepend_SomeD: "prepend a r = Some (t, rest) \<Longrightarrow> \<exists>t'. r = Some (t', rest)"
  by (auto simp: prepend_def)

lemma lex_str_shorter: "lex_str s = Some (t, rest) \<Longrightarrow> length rest < length s"
proof (induction "length s" arbitrary: s t rest rule: less_induct)
  case less
  have IH: "length rest < length s" if "lex_str u = Some (t', rest)" "length u < length s" for u t'
    using less.hyps [OF that(2,1)] that(2) by simp
  show ?case
  proof (cases s)
    case (Cons c cs)
    with less.prems show ?thesis
      unfolding Cons
      by (subst (asm) lex_str.simps)
         (auto simp: Let_def Cons split: if_splits list.splits option.splits dest!: prepend_SomeD dest: IH [unfolded Cons])
  qed (use less.prems in simp)
qed

section \<open>Numbers\<close>

definition is_digit :: "char \<Rightarrow> bool" where
  "is_digit c \<longleftrightarrow> 48 \<le> byte c \<and> byte c \<le> 57"

text \<open>Each part of a number literal: the text it takes and the text behind it.\<close>

definition lex_digits :: "string \<Rightarrow> (string \<times> string) option" where
  "lex_digits s =
     (let d = takeWhile is_digit s in if d = [] then None else Some (d, drop (length d) s))"

definition lex_int :: "string \<Rightarrow> (string \<times> string) option" where
  "lex_int s =
     (case s of
        [] \<Rightarrow> None
      | c # cs \<Rightarrow> if c = CHR ''0'' then Some ([c], cs) else lex_digits s)"

definition lex_frac :: "string \<Rightarrow> (string \<times> string) option" where
  "lex_frac s =
     (case s of
        c # cs \<Rightarrow> if c = CHR ''.'' then prepend [c] (lex_digits cs) else Some ([], s)
      | [] \<Rightarrow> Some ([], s))"

definition lex_exp :: "string \<Rightarrow> (string \<times> string) option" where
  "lex_exp s =
     (case s of
        c # cs \<Rightarrow>
          if c = CHR ''e'' \<or> c = CHR ''E''
          then (case cs of
              d # ds \<Rightarrow> if d = CHR ''+'' \<or> d = CHR ''-'' then prepend [c, d] (lex_digits ds) else prepend [c] (lex_digits cs)
            | [] \<Rightarrow> None)
          else Some ([], s)
      | [] \<Rightarrow> Some ([], s))"

definition lex_num :: "string \<Rightarrow> (string \<times> string) option" where
  "lex_num s = do {
     let (sign, s0) = (case s of c # cs \<Rightarrow> if c = CHR ''-'' then ([c], cs) else ([], s) | [] \<Rightarrow> ([], s));
     (i, s1) \<leftarrow> lex_int s0;
     (f, s2) \<leftarrow> lex_frac s1;
     (e, s3) \<leftarrow> lex_exp s2;
     Some (sign @ i @ f @ e, s3) }"

lemma lex_digits_shorter: "lex_digits s = Some (d, rest) \<Longrightarrow> length rest < length s"
  by (cases s) (auto simp: lex_digits_def Let_def split: if_splits)

lemma lex_int_shorter: "lex_int s = Some (d, rest) \<Longrightarrow> length rest < length s"
  by (auto simp: lex_int_def split: list.splits if_splits dest: lex_digits_shorter)

lemma lex_frac_shorter: "lex_frac s = Some (d, rest) \<Longrightarrow> length rest \<le> length s"
  by (auto simp: lex_frac_def split: list.splits if_splits dest!: lex_digits_shorter prepend_SomeD)

lemma lex_exp_shorter: "lex_exp s = Some (d, rest) \<Longrightarrow> length rest \<le> length s"
  by (auto simp: lex_exp_def split: list.splits if_splits dest!: lex_digits_shorter prepend_SomeD)

lemma lex_num_shorter: "lex_num s = Some (d, rest) \<Longrightarrow> length rest < length s"
  by (auto simp: lex_num_def bind_eq_Some_conv Let_def split: list.splits if_splits prod.splits
      dest!: lex_int_shorter lex_frac_shorter lex_exp_shorter)

section \<open>Tokens\<close>

datatype token = TPunct char | TStr string | TNum string | TLit any | TBad

definition json_space :: "char \<Rightarrow> bool" where
  "json_space c \<longleftrightarrow> c \<in> {CHR 0x20, CHR 0x09, CHR 0x0A, CHR 0x0D}"

definition json_punct :: "char \<Rightarrow> bool" where
  "json_punct c \<longleftrightarrow> c \<in> {CHR 0x7B, CHR 0x7D, CHR 0x5B, CHR 0x5D, CHR '':'', CHR '',''}"

function tokens :: "string \<Rightarrow> token list" where
  "tokens [] = []"
| "tokens (c # cs) =
     (if json_space c then tokens cs
      else if json_punct c then TPunct c # tokens cs
      else if c = CHR 0x22
      then (case lex_str cs of None \<Rightarrow> [TBad] | Some (s, rest) \<Rightarrow> TStr s # tokens rest)
      else if prefix ''true'' (c # cs) then TLit (ABool True) # tokens (drop 3 cs)
      else if prefix ''false'' (c # cs) then TLit (ABool False) # tokens (drop 4 cs)
      else if prefix ''null'' (c # cs) then TLit ANil # tokens (drop 3 cs)
      else case lex_num (c # cs) of None \<Rightarrow> [TBad] | Some (l, rest) \<Rightarrow> TNum l # tokens rest)"
  by pat_completeness auto
termination
  by (relation "measure length") (auto dest: lex_str_shorter lex_num_shorter)

declare tokens.simps(2) [simp del]

section \<open>The parser\<close>

text \<open>
  The parser keeps the stack of open arrays and objects, with what they hold so far and, for an
  object, the key that waits for its value.  The stack holds at most 10000 of them.
\<close>

datatype frame = FArr "any list" | FObj obj string

datatype mode = MValue | MFirst | MFirstKey | MKey | MColon | MAfter

definition complete :: "any \<Rightarrow> frame list \<Rightarrow> any + frame list \<times> mode" where
  "complete v st =
     (case st of
        [] \<Rightarrow> Inl v
      | FArr xs # fs \<Rightarrow> Inr (FArr (xs @ [v]) # fs, MAfter)
      | FObj m k # fs \<Rightarrow> Inr (FObj (m @ [(k, v)]) [] # fs, MAfter))"

definition open_frame :: "frame \<Rightarrow> mode \<Rightarrow> frame list \<Rightarrow> (any + frame list \<times> mode) option" where
  "open_frame f m st = (if length st < 10000 then Some (Inr (f # st, m)) else None)"

text \<open>The step of the parser at a token; \<open>None\<close> is a syntax error.\<close>

fun parse_step :: "frame list \<Rightarrow> mode \<Rightarrow> token \<Rightarrow> (any + frame list \<times> mode) option" where
  "parse_step st m (TStr s) =
     (if m = MValue \<or> m = MFirst then Some (complete (AStr s) st)
      else if m = MKey \<or> m = MFirstKey
      then (case st of FObj ms _ # fs \<Rightarrow> Some (Inr (FObj ms s # fs, MColon)) | _ \<Rightarrow> None)
      else None)"
| "parse_step st m (TNum l) = (if m = MValue \<or> m = MFirst then Some (complete (ANumber l) st) else None)"
| "parse_step st m (TLit v) = (if m = MValue \<or> m = MFirst then Some (complete v st) else None)"
| "parse_step st m (TPunct c) =
     (if c = CHR 0x7B \<and> (m = MValue \<or> m = MFirst) then open_frame (FObj [] []) MFirstKey st
      else if c = CHR 0x5B \<and> (m = MValue \<or> m = MFirst) then open_frame (FArr []) MFirst st
      else if c = CHR '':'' \<and> m = MColon then Some (Inr (st, MValue))
      else case st of
          FArr xs # fs \<Rightarrow>
            if c = CHR 0x5D \<and> (m = MAfter \<or> m = MFirst) then Some (complete (AArr xs) fs)
            else if c = CHR '','' \<and> m = MAfter then Some (Inr (st, MValue)) else None
        | FObj ms _ # fs \<Rightarrow>
            if c = CHR 0x7D \<and> (m = MAfter \<or> m = MFirstKey) then Some (complete (AObj ms) fs)
            else if c = CHR '','' \<and> m = MAfter then Some (Inr (st, MKey)) else None
        | [] \<Rightarrow> None)"
| "parse_step st m TBad = None"

fun parse :: "frame list \<Rightarrow> mode \<Rightarrow> token list \<Rightarrow> (any \<times> token list) option" where
  "parse st m [] = None"
| "parse st m (t # ts) =
     (case parse_step st m t of
        None \<Rightarrow> None
      | Some (Inl v) \<Rightarrow> Some (v, ts)
      | Some (Inr (st', m')) \<Rightarrow> parse st' m' ts)"

text \<open>\<open>Decoder.Decode\<close> reads the first value of a text, \<open>Unmarshal\<close> a text that is one value.\<close>

definition parse_first :: "string \<Rightarrow> any option" where
  "parse_first s = map_option fst (parse [] MValue (tokens s))"

definition parse_whole :: "string \<Rightarrow> any option" where
  "parse_whole s = (case parse [] MValue (tokens s) of Some (v, []) \<Rightarrow> Some v | _ \<Rightarrow> None)"

section \<open>Decoding into interface values\<close>

fun bit_count :: "nat \<Rightarrow> nat" where
  "bit_count n = (if n = 0 then 0 else Suc (bit_count (n div 2)))"

declare bit_count.simps [simp del]

text \<open>The \<open>float64\<close> nearest to \<open>p / q\<close>, as mantissa and exponent; \<open>None\<close> is out of range.\<close>

definition round_f64 :: "nat \<Rightarrow> nat \<Rightarrow> (nat \<times> int) option" where
  "round_f64 p q =
     (let quo = (\<lambda>e. (p * 2 ^ nat (- e), q * 2 ^ nat e));
          e0 = max (- 1074) (int (bit_count p) - int (bit_count q) - 53);
          e1 = (case quo e0 of (a, b) \<Rightarrow> if 2 ^ 53 \<le> a div b then e0 + 1 else e0);
          m = (case quo e1 of (a, b) \<Rightarrow> round_div a b);
          (m2, e2) = (if m = 2 ^ 53 then (2 ^ 52, e1 + 1) else (m, e1))
      in if 971 < e2 then None else Some (m2, e2))"

text \<open>The value of a number literal: its digits without the point, and its decimal exponent.\<close>

definition literal_parts :: "string \<Rightarrow> bool \<times> nat \<times> int" where
  "literal_parts l =
     (let neg = (l \<noteq> [] \<and> hd l = CHR ''-''); l0 = (if neg then tl l else l);
          i = takeWhile is_digit l0; l1 = drop (length i) l0;
          f = (if l1 \<noteq> [] \<and> hd l1 = CHR ''.'' then takeWhile is_digit (tl l1) else []);
          l2 = (if l1 \<noteq> [] \<and> hd l1 = CHR ''.'' then drop (length f) (tl l1) else l1);
          e = (if l2 = [] then 0
               else let s = tl l2; en = (s \<noteq> [] \<and> hd s = CHR ''-'');
                        ds = (if s \<noteq> [] \<and> (hd s = CHR ''-'' \<or> hd s = CHR ''+'') then tl s else s);
                        n = (case read_digits 0 ds of None \<Rightarrow> 0 | Some n \<Rightarrow> int n)
                    in if en then - n else n);
          m = (case read_digits 0 (i @ f) of None \<Rightarrow> 0 | Some n \<Rightarrow> n)
      in (neg, m, e - int (length f)))"

definition literal_f64 :: "string \<Rightarrow> f64 option" where
  "literal_f64 l =
     (case literal_parts l of (neg, m, e) \<Rightarrow>
        if m = 0 then Some (F64 neg 0 (- 1074))
        else map_option (\<lambda>(k, x). F64 neg k x) (round_f64 (m * 10 ^ nat e) (10 ^ nat (- e))))"

text \<open>
  A value decoded into an \<open>any\<close>: numbers become \<open>float64\<close> (nil when out of range, an error of the
  whole decoding), and of repeated members the last one counts.
\<close>

fun interface_value :: "any \<Rightarrow> any" where
  "interface_value (ANumber l) = (case literal_f64 l of None \<Rightarrow> ANil | Some x \<Rightarrow> AFloat x)"
| "interface_value (AArr xs) = AArr (map interface_value xs)"
| "interface_value (AObj m) =
     AObj (foldl (\<lambda>acc (k, v). AList.update k v acc) [] (map (\<lambda>(k, v). (k, interface_value v)) m))"
| "interface_value v = v"

fun numbers_in_range :: "any \<Rightarrow> bool" where
  "numbers_in_range (ANumber l) = (literal_f64 l \<noteq> None)"
| "numbers_in_range (AArr xs) = list_all numbers_in_range xs"
| "numbers_in_range (AObj m) = list_all (\<lambda>(k, v). numbers_in_range v) m"
| "numbers_in_range _ = True"

section \<open>The encoder\<close>

text \<open>\<open>Marshal\<close> on strings, integers and structs of them, whose members keep the order of the struct.\<close>

datatype jval = JStr string | JInt int | JObj "(string \<times> jval) list"

definition unicode_escape :: "nat \<Rightarrow> string" where
  "unicode_escape n =
     [CHR 0x5C, CHR ''u'', hex_digit (n div 4096), hex_digit (n div 256 mod 16), hex_digit (n div 16 mod 16),
      hex_digit (n mod 16)]"

definition escape_char :: "char \<Rightarrow> string" where
  "escape_char c =
     (case map_of [(CHR 0x22, CHR 0x22), (CHR 0x5C, CHR 0x5C), (CHR 0x08, CHR ''b''), (CHR 0x0C, CHR ''f''),
                   (CHR 0x0A, CHR ''n''), (CHR 0x0D, CHR ''r''), (CHR 0x09, CHR ''t'')] c of
        Some e \<Rightarrow> [CHR 0x5C, e]
      | None \<Rightarrow> if byte c < 32 \<or> c \<in> {CHR ''<'', CHR ''>'', CHR ''&''} then unicode_escape (byte c) else [c])"

function enc_chars :: "string \<Rightarrow> string" where
  "enc_chars [] = []"
| "enc_chars (c # cs) =
     (if byte c < 128 then escape_char c @ enc_chars cs
      else let k = utf8_len (c # cs)
           in if k = 0 then unicode_escape 65533 @ enc_chars cs
              else (if take 3 (c # cs) = [CHR 0xE2, CHR 0x80, CHR 0xA8] then unicode_escape 8232
                    else if take 3 (c # cs) = [CHR 0xE2, CHR 0x80, CHR 0xA9] then unicode_escape 8233
                    else c # take (k - 1) cs) @ enc_chars (drop (k - 1) cs))"
  by pat_completeness auto
termination by (relation "measure length") auto

declare enc_chars.simps(2) [simp del]

definition quote_text :: "string \<Rightarrow> string" where
  "quote_text s = CHR 0x22 # enc_chars s @ [CHR 0x22]"

fun enc :: "jval \<Rightarrow> string" where
  "enc (JStr s) = quote_text s"
| "enc (JInt n) = dec_int n"
| "enc (JObj fs) = CHR 0x7B # join '','' (map (\<lambda>(k, v). quote_text k @ CHR '':'' # enc v) fs) @ [CHR 0x7D]"

text \<open>What comes back: bytes that are not UTF-8 are read as the replacement character.\<close>

function clean :: "string \<Rightarrow> string" where
  "clean [] = []"
| "clean (c # cs) =
     (let k = utf8_len (c # cs)
      in if k = 0 then replacement @ clean cs else c # take (k - 1) cs @ clean (drop (k - 1) cs))"
  by pat_completeness auto
termination by (relation "measure length") auto

declare clean.simps(2) [simp del]

fun tree_of :: "jval \<Rightarrow> any" where
  "tree_of (JStr s) = AStr (clean s)"
| "tree_of (JInt n) = ANumber (dec_int n)"
| "tree_of (JObj fs) = AObj (map (\<lambda>(k, v). (clean k, tree_of v)) fs)"

section \<open>Encoded text is read back\<close>

lemma hex_val_digit: "d < 16 \<Longrightarrow> hex_val (hex_digit d) = Some d"
  by (auto simp: hex_val_def hex_digit_def Let_def)

lemma hex4_escape: "n < 65536 \<Longrightarrow>
    hex4 (hex_digit (n div 4096) # hex_digit (n div 256 mod 16) # hex_digit (n div 16 mod 16) # hex_digit (n mod 16) # t) = Some n"
proof -
  assume "n < 65536"
  then have "n div 4096 < 16" by simp
  moreover have "((n div 4096 * 16 + n div 256 mod 16) * 16 + n div 16 mod 16) * 16 + n mod 16 = n"
  proof -
    have "n div 4096 * 16 + n div 256 mod 16 = n div 256" "n div 256 * 16 + n div 16 mod 16 = n div 16"
      using div_mult_mod_eq [of "n div 256" 16] div_mult_mod_eq [of "n div 16" 16]
      by (simp_all flip: div_mult2_eq)
    then show ?thesis using div_mult_mod_eq [of n 16] by simp
  qed
  ultimately show ?thesis by (simp add: hex4_def hex_val_digit)
qed

lemma lex_unicode_escape:
  assumes "n < 65536" "n < 55296 \<or> 57344 \<le> n"
  shows "lex_str (unicode_escape n @ t) = prepend (utf8_enc n) (lex_str t)"
  using assms hex4_escape [OF assms(1), of t] unfolding unicode_escape_def
  by (subst append_Cons, subst lex_str.simps) auto

lemma lex_escape_char: "byte c < 128 \<Longrightarrow> lex_str (escape_char c @ t) = prepend [c] (lex_str t)"
proof -
  assume c: "byte c < 128"
  let ?m = "map_of [(CHR 0x22, CHR 0x22), (CHR 0x5C, CHR 0x5C), (CHR 0x08, CHR ''b''), (CHR 0x0C, CHR ''f''),
                   (CHR 0x0A, CHR ''n''), (CHR 0x0D, CHR ''r''), (CHR 0x09, CHR ''t'')] :: char \<rightharpoonup> char"
  show ?thesis
  proof (cases "?m c")
    case (Some e)
    then have "escape_char c = [CHR 0x5C, e]" by (simp only: escape_char_def option.case)
    moreover have "unescape e = Some c" "e \<noteq> CHR ''u''" using Some by (auto simp: unescape_def split: if_splits)
    ultimately show ?thesis by (simp add: lex_str.simps(2))
  next
    case None
    show ?thesis
    proof (cases "byte c < 32 \<or> c \<in> {CHR ''<'', CHR ''>'', CHR ''&''}")
      case True
      then have "escape_char c = unicode_escape (byte c)" using None by (simp only: escape_char_def option.case if_True)
      moreover have "utf8_enc (byte c) = [c]" using c by (simp add: utf8_enc_def bytes_def)
      ultimately show ?thesis using c by (simp add: lex_unicode_escape)
    next
      case False
      then have "escape_char c = [c]" using None by (simp only: escape_char_def option.case if_False)
      moreover have "c \<noteq> CHR 0x22" "c \<noteq> CHR 0x5C" using None by auto
      moreover have "utf8_len (c # t) = 1" using c by (simp add: utf8_len_def)
      ultimately show ?thesis using False by (simp add: lex_str.simps(2))
    qed
  qed
qed

lemma list_cases3:
  obtains "xs = []" | a where "xs = [a]" | a b bs where "xs = a # b # bs"
  by (metis list.exhaust)

lemma list_cases4:
  obtains "xs = []" | a where "xs = [a]" | a b where "xs = [a, b]" | a b c bs where "xs = a # b # c # bs"
  by (metis list.exhaust)

text \<open>The length depends on the bytes it counts only.\<close>

lemma utf8_len_take:
  assumes "utf8_len s = k" "k \<noteq> 0"
  shows "utf8_len (take k s @ t) = k \<and> k \<le> length s"
proof (cases s)
  case (Cons c cs)
  consider "byte c < 128" | "194 \<le> byte c" "byte c < 224" | "224 \<le> byte c" "byte c < 240"
    | "240 \<le> byte c" "byte c \<le> 244"
    using assms Cons by (fastforce simp: utf8_len_def Let_def not_less not_le)
  then show ?thesis
  proof cases
    case 1
    with assms Cons show ?thesis by (auto simp: utf8_len_def)
  next
    case 2
    with assms Cons obtain d ds where "cs = d # ds" "cont d" "k = 2"
      by (cases cs) (auto simp: utf8_len_def split: if_splits)
    with 2 Cons show ?thesis by (simp add: utf8_len_def)
  next
    case 3
    with assms Cons obtain d e ds where *: "cs = d # e # ds"
      "(if byte c = 224 then 160 else 128) \<le> byte d \<and> byte d \<le> (if byte c = 237 then 159 else 191) \<and> cont e" "k = 3"
      by (cases cs rule: list_cases3) (auto simp: utf8_len_def Let_def split: if_split_asm)
    with 3 Cons show ?thesis by (simp add: utf8_len_def Let_def)
  next
    case 4
    with assms Cons obtain d e f ds where *: "cs = d # e # f # ds"
      "(if byte c = 240 then 144 else 128) \<le> byte d \<and> byte d \<le> (if byte c = 244 then 143 else 191) \<and> cont e \<and> cont f"
      "k = 4"
      by (cases cs rule: list_cases4) (auto simp: utf8_len_def Let_def split: if_split_asm)
    with 4 Cons show ?thesis by (simp add: utf8_len_def Let_def)
  qed
qed (use assms in \<open>simp add: utf8_len_def\<close>)

lemma utf8_len_ascii: "byte c < 128 \<Longrightarrow> utf8_len (c # cs) = 1"
  by (simp add: utf8_len_def)

lemma separators: "utf8_enc 8232 = [CHR 0xE2, CHR 0x80, CHR 0xA8]" "utf8_enc 8233 = [CHR 0xE2, CHR 0x80, CHR 0xA9]"
  "utf8_enc 65533 = replacement"
  "utf8_len (CHR 0xE2 # CHR 0x80 # CHR 0xA8 # t) = 3" "utf8_len (CHR 0xE2 # CHR 0x80 # CHR 0xA9 # t) = 3"
  by (simp_all add: utf8_enc_def bytes_def replacement_def utf8_len_def cont_def char_of_def bit_Suc_0_iff)

lemma prepend_prepend: "prepend a (prepend b r) = prepend (a @ b) r"
  by (cases r) (auto simp: prepend_def)

lemma lex_enc: "lex_str (enc_chars s @ CHR 0x22 # rest) = Some (clean s, rest)"
proof (induction s rule: enc_chars.induct)
  case 1
  then show ?case by (simp add: lex_str.simps(2))
next
  case (2 c cs)
  let ?k = "utf8_len (c # cs)"
  consider "byte c < 128" | "\<not> byte c < 128" "?k = 0" | "\<not> byte c < 128" "?k \<noteq> 0" by blast
  then show ?case
  proof cases
    case 1
    with 2(1) show ?thesis
      by (simp add: enc_chars.simps(2) clean.simps(2) utf8_len_ascii lex_escape_char prepend_def)
  next
    case 2
    with "2.IH"(2) [OF 2(1) refl 2(2)] show ?thesis
      by (simp add: enc_chars.simps(2) clean.simps(2) lex_unicode_escape separators prepend_def)
  next
    case 3
    have IH: "lex_str (enc_chars (drop (?k - 1) cs) @ CHR 0x22 # rest) = Some (clean (drop (?k - 1) cs), rest)"
      using "2.IH"(3) [OF 3(1) refl 3(2)] .
    note len = utf8_len_take [OF refl 3(2)]
    have out: "prepend (c # take (?k - 1) cs) (Some (clean (drop (?k - 1) cs), rest)) = Some (clean (c # cs), rest)"
      using 3(2) by (simp add: clean.simps(2) prepend_def Let_def)
    consider b where "take 3 (c # cs) = [CHR 0xE2, CHR 0x80, b]" "b = CHR 0xA8 \<or> b = CHR 0xA9"
      | "take 3 (c # cs) \<noteq> [CHR 0xE2, CHR 0x80, CHR 0xA8]" "take 3 (c # cs) \<noteq> [CHR 0xE2, CHR 0x80, CHR 0xA9]" by blast
    then show ?thesis
    proof cases
      case 1
      then obtain ds where cs: "c = CHR 0xE2" "cs = CHR 0x80 # b # ds" by (cases cs rule: list_cases3) auto
      have k: "?k = 3" using 1(2) cs by (auto simp: separators)
      have "enc_chars (c # cs) = unicode_escape (if b = CHR 0xA8 then 8232 else 8233) @ enc_chars (drop (?k - 1) cs)"
        using 1 3(1) k by (auto simp: enc_chars.simps(2) simp del: take_Suc_Cons)
      moreover have "utf8_enc (if b = CHR 0xA8 then 8232 else 8233) = c # take (?k - 1) cs"
        using 1(2) cs k by (auto simp: separators)
      ultimately show ?thesis using IH out by (auto simp: lex_unicode_escape)
    next
      case 2
      have e: "enc_chars (c # cs) = (c # take (?k - 1) cs) @ enc_chars (drop (?k - 1) cs)"
        using 3 by (subst enc_chars.simps(2)) (simp only: Let_def 2 if_False)
      have t: "take ?k (c # cs) = c # take (?k - 1) cs" using 3(2) by (cases ?k) auto
      let ?t = "enc_chars (drop (?k - 1) cs) @ CHR 0x22 # rest"
      have l: "length (take (?k - 1) cs) = ?k - 1" using len [of "[]"] by auto
      have "utf8_len (c # take (?k - 1) cs @ ?t) = ?k" using len [of ?t] unfolding t by simp
      moreover have "c \<noteq> CHR 0x22" "c \<noteq> CHR 0x5C" "\<not> byte c < 32" using 3(1) by auto
      ultimately have "lex_str (c # take (?k - 1) cs @ ?t) =
          prepend (c # take (?k - 1) (take (?k - 1) cs @ ?t)) (lex_str (drop (?k - 1) (take (?k - 1) cs @ ?t)))"
        using 3(2) by (simp add: lex_str.simps(2) Let_def)
      also have "\<dots> = prepend (c # take (?k - 1) cs) (lex_str ?t)" using l by simp
      finally show ?thesis using IH out by (simp only: e append.simps append_assoc)
    qed
  qed
qed

section \<open>Tokens of encoded text\<close>

lemma tokens_quoted: "tokens (quote_text s @ rest) = TStr (clean s) # tokens rest"
  by (simp add: quote_text_def tokens.simps(2) json_space_def json_punct_def lex_enc)

lemma tokens_punct: "json_punct c \<Longrightarrow> tokens (c # rest) = TPunct c # tokens rest"
  by (auto simp: tokens.simps(2) json_space_def json_punct_def)

text \<open>An integer ends at a byte that cannot continue a number.\<close>

definition number_end :: "string \<Rightarrow> bool" where
  "number_end s \<longleftrightarrow> (case s of [] \<Rightarrow> True | c # _ \<Rightarrow> \<not> is_digit c \<and> c \<notin> {CHR ''.'', CHR ''e'', CHR ''E''})"

lemma is_digit_dec: "c \<in> set (dec_nat n) \<Longrightarrow> is_digit c"
  using set_dec_nat [of c n] by (auto simp: is_digit_def)

lemma dec_nat_no_zero: "n \<noteq> 0 \<Longrightarrow> hd (dec_nat n) \<noteq> CHR ''0''"
proof (induction n rule: dec_nat.induct)
  case (1 n)
  show ?case
  proof (cases "n < 10")
    case True
    then have "n \<in> {1, 2, 3, 4, 5, 6, 7, 8, 9}" using 1(2) by auto
    then show ?thesis by (auto simp: dec_nat.simps [of n] digit_def)
  next
    case False
    then have "n div 10 \<noteq> 0" by simp
    with 1(1) [OF False] False show ?thesis by (subst dec_nat.simps) simp
  qed
qed

lemma lex_digits_dec:
  assumes "\<And>c. c \<in> set ds \<Longrightarrow> is_digit c" "ds \<noteq> []" "number_end rest"
  shows "lex_digits (ds @ rest) = Some (ds, rest)"
proof -
  have "takeWhile is_digit rest = []" using assms(3) by (cases rest) (auto simp: number_end_def)
  then have "takeWhile is_digit (ds @ rest) = ds" using assms(1) by (simp add: takeWhile_append2)
  with assms(2) show ?thesis by (simp add: lex_digits_def)
qed

lemma lex_int_dec: "number_end rest \<Longrightarrow> lex_int (dec_nat n @ rest) = Some (dec_nat n, rest)"
proof (cases "n = 0")
  case True
  then show ?thesis by (simp add: lex_int_def dec_nat.simps)
next
  case False
  assume "number_end rest"
  then have "lex_digits (dec_nat n @ rest) = Some (dec_nat n, rest)"
    by (intro lex_digits_dec) (auto dest: is_digit_dec)
  moreover have "hd (dec_nat n @ rest) \<noteq> CHR ''0''" using dec_nat_no_zero [OF False] by simp
  ultimately show ?thesis by (cases "dec_nat n @ rest") (auto simp: lex_int_def)
qed

lemma lex_num_dec: "number_end rest \<Longrightarrow> lex_num (dec_int n @ rest) = Some (dec_int n, rest)"
proof -
  assume e: "number_end rest"
  have "lex_frac rest = Some ([], rest)" "lex_exp rest = Some ([], rest)"
    using e by (auto simp: number_end_def lex_frac_def lex_exp_def split: list.splits)
  moreover have "(case dec_nat m @ rest of c # cs \<Rightarrow> if c = CHR ''-'' then ([c], cs) else ([], dec_nat m @ rest)
      | [] \<Rightarrow> ([], dec_nat m @ rest)) = ([], dec_nat m @ rest)" for m
    using hd_dec_nat [of m] dec_nat_not_Nil [of m] by (cases "dec_nat m") auto
  ultimately show ?thesis by (simp add: lex_num_def dec_int_def lex_int_dec [OF e])
qed

lemma tokens_int: "number_end rest \<Longrightarrow> tokens (dec_int n @ rest) = TNum (dec_int n) # tokens rest"
proof -
  assume "number_end rest"
  note l = lex_num_dec [OF this, of n]
  have "hd (dec_int n) = CHR ''-'' \<or> is_digit (hd (dec_int n))"
    using is_digit_dec [OF hd_in_set [OF dec_nat_not_Nil]] by (simp add: dec_int_def)
  moreover obtain c cs where c: "dec_int n @ rest = c # cs" "hd (dec_int n) = c"
    by (cases "dec_int n") (auto simp: dec_int_def split: if_splits)
  ultimately have "c = CHR ''-'' \<or> is_digit c" by simp
  then have "\<not> json_space c" "\<not> json_punct c" "c \<noteq> CHR 0x22" "c \<noteq> CHR ''t''" "c \<noteq> CHR ''f''" "c \<noteq> CHR ''n''"
    by (auto simp: json_space_def json_punct_def is_digit_def)
  with l show ?thesis unfolding c(1) by (simp add: tokens.simps(2))
qed

section \<open>Parsing encoded text\<close>

fun depth :: "jval \<Rightarrow> nat" where
  "depth (JObj fs) = Suc (foldr (\<lambda>(k, v) d. max (depth v) d) fs 0)"
| "depth _ = 0"

lemma depth_member: "(k, v) \<in> set fs \<Longrightarrow> depth v < depth (JObj fs)"
  by (induction fs) auto

text \<open>The result of the parser when a value is complete.\<close>

definition continue :: "any \<Rightarrow> frame list \<Rightarrow> token list \<Rightarrow> (any \<times> token list) option" where
  "continue v st ts = (case complete v st of Inl v \<Rightarrow> Some (v, ts) | Inr (st', m') \<Rightarrow> parse st' m' ts)"

definition members_text :: "(string \<times> jval) list \<Rightarrow> string" where
  "members_text fs = join '','' (map (\<lambda>(k, v). quote_text k @ CHR '':'' # enc v) fs)"

lemma members_text_simps:
  "members_text [] = []" "members_text [(k, v)] = quote_text k @ CHR '':'' # enc v"
  "fs \<noteq> [] \<Longrightarrow> members_text ((k, v) # fs) = quote_text k @ CHR '':'' # enc v @ CHR '','' # members_text fs"
  by (simp_all add: members_text_def) (cases fs; auto)

lemma parse_enc:
  "depth v + length st \<le> 10000 \<Longrightarrow> number_end rest \<Longrightarrow>
     parse st MValue (tokens (enc v @ rest)) = continue (tree_of v) st (tokens rest)"
proof (induction v arbitrary: st rest)
  case (JStr s)
  then show ?case by (simp add: tokens_quoted continue_def split: sum.split)
next
  case (JInt n)
  then show ?case by (simp add: tokens_int continue_def split: sum.split)
next
  case (JObj fs)
  have members: "parse (FObj ms old # st) (if first then MFirstKey else MKey) (tokens (members_text gs @ CHR 0x7D # rest)) =
      continue (AObj (ms @ map (\<lambda>(k, v). (clean k, tree_of v)) gs)) st (tokens rest)"
    if "set gs \<subseteq> set fs" "gs = [] \<Longrightarrow> first" for gs ms old first
    using that
  proof (induction gs arbitrary: ms old first)
    case Nil
    then show ?case by (simp add: members_text_simps tokens_punct json_punct_def continue_def split: sum.split)
  next
    case (Cons kv gs)
    obtain k v where kv: "kv = (k, v)" by (cases kv)
    have v: "(k, v) \<in> set fs" using Cons.prems(1) kv by auto
    then have d: "depth v + length (FObj ms (clean k) # st) \<le> 10000"
      using depth_member [OF v] JObj.prems(1) by simp
    let ?X = "if gs = [] then CHR 0x7D # rest else CHR '','' # members_text gs @ CHR 0x7D # rest"
    have X: "members_text (kv # gs) @ CHR 0x7D # rest = quote_text k @ CHR '':'' # enc v @ ?X"
      by (simp add: kv members_text_simps)
    have "parse (FObj ms (clean k) # st) MValue (tokens (enc v @ ?X)) =
        continue (tree_of v) (FObj ms (clean k) # st) (tokens ?X)"
      using JObj.IH [OF v _ d] by (simp add: number_end_def is_digit_def)
    then have "parse (FObj ms old # st) (if first then MFirstKey else MKey) (tokens (members_text (kv # gs) @ CHR 0x7D # rest)) =
        parse (FObj (ms @ [(clean k, tree_of v)]) [] # st) MAfter (tokens ?X)"
      by (simp add: X tokens_quoted tokens_punct json_punct_def continue_def complete_def)
    also have "\<dots> = continue (AObj (ms @ map (\<lambda>(k, v). (clean k, tree_of v)) (kv # gs))) st (tokens rest)"
    proof (cases "gs = []")
      case True
      then show ?thesis by (simp add: kv tokens_punct json_punct_def continue_def split: sum.split)
    next
      case False
      then show ?thesis
        using Cons.IH [of False "ms @ [(clean k, tree_of v)]" "[]"] Cons.prems(1)
        by (simp add: kv tokens_punct json_punct_def)
    qed
    finally show ?case .
  qed
  have "length st < 10000" using JObj.prems(1) by simp
  then show ?case
    using members [of fs True "[]" "[]"]
    by (simp add: tokens_punct json_punct_def open_frame_def flip: members_text_def)
qed

text \<open>What the encoder writes is one value, and it is the value that was written.\<close>

lemma parse_whole_enc: "depth v \<le> 10000 \<Longrightarrow> parse_whole (enc v) = Some (tree_of v)"
  using parse_enc [of v "[]" "[]"] by (simp add: parse_whole_def continue_def complete_def number_end_def)

lemma parse_first_enc: "depth v \<le> 10000 \<Longrightarrow> parse_first (enc v) = Some (tree_of v)"
  using parse_enc [of v "[]" "[]"] by (simp add: parse_first_def continue_def complete_def number_end_def)

text \<open>ASCII text comes back unchanged.\<close>

definition ascii :: "string \<Rightarrow> bool" where
  "ascii s \<longleftrightarrow> list_all (\<lambda>c. byte c < 128) s"

lemma ascii_simps [simp]:
  "ascii []" "ascii (c # s) \<longleftrightarrow> byte c < 128 \<and> ascii s" "ascii (s @ t) \<longleftrightarrow> ascii s \<and> ascii t"
  by (auto simp: ascii_def)

lemma clean_ascii: "ascii s \<Longrightarrow> clean s = s"
  by (induction s) (auto simp: clean.simps(2) utf8_len_ascii)

lemma clean_eq_Nil [simp]: "clean s = [] \<longleftrightarrow> s = []"
  by (cases s) (auto simp: clean.simps(2) replacement_def Let_def)

text \<open>A line of text stays a line.\<close>

lemma utf8_len_tail:
  assumes "utf8_len (c # cs) = k" "\<not> byte c < 128" "d \<in> set (take (k - 1) cs)"
  shows "128 \<le> byte d"
proof -
  have k: "k \<noteq> 0" using assms(3) by (cases k) auto
  from assms(1,2) k consider "\<exists>x xs. cs = x # xs \<and> cont x" "k = 2"
    | "\<exists>x y xs. cs = x # y # xs \<and> 128 \<le> byte x \<and> cont y" "k = 3"
    | "\<exists>x y z xs. cs = x # y # z # xs \<and> 128 \<le> byte x \<and> cont y \<and> cont z" "k = 4"
    by (auto simp: utf8_len_def Let_def split: if_split_asm list.splits)
  then show ?thesis using assms(3) by cases (auto simp: cont_def)
qed

lemma byte_hex_digit: "n < 16 \<Longrightarrow> 32 \<le> byte (hex_digit n)"
proof -
  assume "n < 16"
  then have "hex_val (hex_digit n) = Some n" by (rule hex_val_digit)
  then show ?thesis by (simp add: hex_val_def Let_def split: if_split_asm)
qed

lemma unicode_escape_no_control: "n < 65536 \<Longrightarrow> c \<in> set (unicode_escape n) \<Longrightarrow> 32 \<le> byte c"
  by (auto simp: unicode_escape_def byte_hex_digit)

lemma escape_char_no_control:
  assumes "byte d < 128" "c \<in> set (escape_char d)"
  shows "32 \<le> byte c"
proof -
  let ?m = "map_of [(CHR 0x22, CHR 0x22), (CHR 0x5C, CHR 0x5C), (CHR 0x08, CHR ''b''), (CHR 0x0C, CHR ''f''),
                   (CHR 0x0A, CHR ''n''), (CHR 0x0D, CHR ''r''), (CHR 0x09, CHR ''t'')] :: char \<rightharpoonup> char"
  show ?thesis
  proof (cases "?m d")
    case (Some e)
    then have "escape_char d = [CHR 0x5C, e]" by (simp only: escape_char_def option.case)
    with assms(2) map_of_SomeD [OF Some] show ?thesis by auto
  next
    case None
    show ?thesis
    proof (cases "byte d < 32 \<or> d \<in> {CHR ''<'', CHR ''>'', CHR ''&''}")
      case True
      then have "escape_char d = unicode_escape (byte d)" using None by (simp only: escape_char_def option.case if_True)
      with assms unicode_escape_no_control [of "byte d" c] show ?thesis by simp
    next
      case False
      then have "escape_char d = [d]" using None by (simp only: escape_char_def option.case if_False)
      with assms(2) False show ?thesis by simp
    qed
  qed
qed

lemma enc_chars_no_control: "c \<in> set (enc_chars s) \<Longrightarrow> 32 \<le> byte c"
proof (induction s rule: enc_chars.induct)
  case (2 d ds)
  show ?case
  proof (cases "byte d < 128")
    case True
    with 2 show ?thesis by (auto simp: enc_chars.simps(2) escape_char_no_control)
  next
    case False
    let ?k = "utf8_len (d # ds)"
    note ih = "2.IH"(2,3) [OF False refl]
    show ?thesis
    proof (cases "?k = 0")
      case True
      with 2(4) False ih(1) [OF True] show ?thesis
        by (auto simp: enc_chars.simps(2) dest!: unicode_escape_no_control [rotated])
    next
      case k: False
      have "32 \<le> byte c" if "c \<in> set (d # take (?k - 1) ds)"
        using that False utf8_len_tail [OF refl False, of c ds] by (auto simp del: take_Suc_Cons)
      with 2(4) False k ih(2) [OF k] show ?thesis
        by (auto simp: enc_chars.simps(2) Let_def dest!: unicode_escape_no_control [rotated] split: if_split_asm
            simp del: take_Suc_Cons)
    qed
  qed
qed simp

lemma digit_no_control: "is_digit c \<Longrightarrow> 32 \<le> byte c"
  by (simp add: is_digit_def)

lemma enc_no_control: "c \<in> set (enc v) \<Longrightarrow> 32 \<le> byte c"
proof (induction v arbitrary: c)
  case (JStr s)
  then show ?case by (auto simp: quote_text_def dest: enc_chars_no_control)
next
  case (JInt n)
  then show ?case by (auto simp: dec_int_def dest!: is_digit_dec digit_no_control split: if_splits)
next
  case (JObj fs)
  have "32 \<le> byte c" if "c \<in> set (members_text gs)" "set gs \<subseteq> set fs" for gs
    using that
  proof (induction gs)
    case (Cons kv gs)
    obtain k v where kv: "kv = (k, v)" by (cases kv)
    have v: "(k, v) \<in> set fs" using Cons.prems(2) kv by auto
    note h = enc_chars_no_control JObj.IH [OF v]
    show ?case
      using Cons h kv by (cases "gs = []") (auto simp: members_text_simps quote_text_def)
  qed (simp add: members_text_simps)
  from this [of fs] JObj.prems show ?case by (auto simp flip: members_text_def)
qed

end
