(* ===== verification/Hedera_Client.thy ===== *)
theory Hedera_Client
  imports Config Ledger
begin

text \<open>
  Verification of deposits and submission to a topic: \<^verbatim>\<open>internal/hedera/client.go\<close> and
  \<^verbatim>\<open>live_client.go\<close>.  The Hedera SDK is a parameter.
\<close>

section \<open>The SDK\<close>

text \<open>
  What the SDK answers: the parsers, the order of account ids, the record of a transaction and the
  submission of a message.  An error is its text.  The token transfers of a record are the lists of
  its map, in any order.
\<close>

record 'a tx_record =
  TransactionMemo :: string
  Transfers :: "('a \<times> int) list"
  TokenTransfers :: "('a \<times> int) list list"

record ('a, 't, 'p, 'k) hiero =
  AccountIDFromString :: "string \<Rightarrow> string + 'a"
  PrivateKeyFromString :: "string \<Rightarrow> string + 'k"
  TransactionIdFromString :: "string \<Rightarrow> string + 't"
  TopicIDFromString :: "string \<Rightarrow> string + 'p"
  Compare :: "'a \<Rightarrow> 'a \<Rightarrow> int"
  TransactionRecordQuery :: "string \<Rightarrow> 't \<Rightarrow> string + 'a tx_record"
  TopicMessageSubmit :: "string \<Rightarrow> 'p \<Rightarrow> string \<Rightarrow> string + string"

section \<open>The client\<close>

datatype hedera_client =
    NoopClient
  | ErrClient string
  | LiveClient (live_network: string) Hedera

definition newLiveClient :: "('a, 't, 'p, 'k) hiero \<Rightarrow> Hedera \<Rightarrow> hedera_client" where
  "newLiveClient sdk cfg =
     (let n = ToLower (TrimSpace (Network cfg));
          c = (if n = ''mainnet'' then ''mainnet'' else if n = ''previewnet'' then ''previewnet'' else ''testnet'')
      in case AccountIDFromString sdk (OperatorAccountID cfg) of
          Inl e \<Rightarrow> ErrClient (''hedera operator id: '' @ e)
        | Inr _ \<Rightarrow>
            (case PrivateKeyFromString sdk (OperatorPrivateKey cfg) of
               Inl e \<Rightarrow> ErrClient (''hedera operator key: '' @ e)
             | Inr _ \<Rightarrow> LiveClient c cfg))"

definition NewClientFromConfig :: "('a, 't, 'p, 'k) hiero \<Rightarrow> Hedera \<Rightarrow> hedera_client" where
  "NewClientFromConfig sdk cfg =
     (if \<not> Enabled cfg \<or> OperatorAccountID cfg = [] \<or> OperatorPrivateKey cfg = [] then NoopClient
      else newLiveClient sdk cfg)"

text \<open>The two loops over the transfers of a record.\<close>

definition credit_transfers :: "('a, 't, 'p, 'k) hiero \<Rightarrow> 'a \<Rightarrow> int \<Rightarrow> ('a \<times> int) list \<Rightarrow> int" where
  "credit_transfers sdk dest acc trs =
     foldl (\<lambda>acc (a, n). if Compare sdk a dest = 0 \<and> 0 < n then add64 acc n else acc) acc trs"

definition credited_units :: "('a, 't, 'p, 'k) hiero \<Rightarrow> 'a \<Rightarrow> 'a tx_record \<Rightarrow> int" where
  "credited_units sdk dest rec =
     (let hbar = credit_transfers sdk dest 0 (Transfers rec)
      in if hbar = 0 then foldl (credit_transfers sdk dest) hbar (TokenTransfers rec) else hbar)"

definition live_VerifyTopupTx ::
  "('a, 't, 'p, 'k) hiero \<Rightarrow> string \<Rightarrow> string \<Rightarrow> string \<Rightarrow> string \<Rightarrow> err + int \<times> string" where
  "live_VerifyTopupTx sdk net txID0 to0 agentID =
     (let txID = TrimSpace txID0; to = TrimSpace to0
      in if txID = [] then Inl (ErrOther ''hedera: empty transaction id'')
         else if to = [] then Inl (ErrOther ''hedera: HEDERA_SERVICE_ACCOUNT_ID not set'')
         else case TransactionIdFromString sdk txID of
             Inl e \<Rightarrow> Inl (ErrOther (''hedera: parse transaction id: '' @ e))
           | Inr tid \<Rightarrow>
         (case AccountIDFromString sdk to of
             Inl e \<Rightarrow> Inl (ErrOther (''hedera: parse service account: '' @ e))
           | Inr dest \<Rightarrow>
         (case TransactionRecordQuery sdk net tid of
             Inl e \<Rightarrow> Inl (ErrOther (''hedera: transaction record: '' @ e))
           | Inr rec \<Rightarrow>
               if agentID \<noteq> [] \<and> \<not> Contains (TransactionMemo rec) agentID
               then Inl (ErrOther ''hedera: transaction memo does not reference agentId'')
               else let n = credited_units sdk dest rec
                    in if n = 0 then Inl (ErrOther ''hedera: no inbound transfer to service account in record'')
                       else Inr (n, ''HBAR_OR_TOKEN''))))"

definition noop_VerifyTopupTx :: "string \<Rightarrow> string \<Rightarrow> string \<Rightarrow> err + int \<times> string" where
  "noop_VerifyTopupTx txID to agentID =
     (if TrimSpace txID = [] then Inl (ErrOther ''hedera: empty transaction id'')
      else if TrimSpace to = [] then Inl (ErrOther ''hedera: service account not configured'')
      else Inl (ErrOther ''hedera: VerifyTopupTx not configured (set HEDERA_ENABLED and operator credentials)''))"

definition VerifyTopupTx ::
  "('a, 't, 'p, 'k) hiero \<Rightarrow> hedera_client \<Rightarrow> string \<Rightarrow> string \<Rightarrow> string \<Rightarrow> err + int \<times> string" where
  "VerifyTopupTx sdk c txID to agentID =
     (case c of
        NoopClient \<Rightarrow> noop_VerifyTopupTx txID to agentID
      | ErrClient e \<Rightarrow> Inl (ErrOther e)
      | LiveClient net cfg \<Rightarrow> live_VerifyTopupTx sdk net txID to agentID)"

definition live_SubmitHCSMessage ::
  "('a, 't, 'p, 'k) hiero \<Rightarrow> string \<Rightarrow> string \<Rightarrow> string \<Rightarrow> err + string" where
  "live_SubmitHCSMessage sdk net topicID0 payload =
     (let topicID = TrimSpace topicID0
      in if topicID = [] then Inl (ErrOther ''hedera: empty topic id'')
         else case TopicIDFromString sdk topicID of
             Inl e \<Rightarrow> Inl (ErrOther (''hedera: topic id: '' @ e))
           | Inr tid \<Rightarrow> (case TopicMessageSubmit sdk net tid payload of Inl e \<Rightarrow> Inl (ErrOther e) | Inr tx \<Rightarrow> Inr tx))"

definition SubmitHCSMessage ::
  "('a, 't, 'p, 'k) hiero \<Rightarrow> hedera_client \<Rightarrow> string \<Rightarrow> string \<Rightarrow> err + string" where
  "SubmitHCSMessage sdk c topicID payload =
     (case c of
        NoopClient \<Rightarrow> Inl (ErrOther ''hedera: HCS submit not configured'')
      | ErrClient e \<Rightarrow> Inl (ErrOther e)
      | LiveClient net cfg \<Rightarrow> live_SubmitHCSMessage sdk net topicID payload)"

section \<open>What a verified deposit is\<close>

definition inbound :: "('a, 't, 'p, 'k) hiero \<Rightarrow> 'a \<Rightarrow> ('a \<times> int) list \<Rightarrow> int" where
  "inbound sdk dest trs = (\<Sum>(a, n) \<leftarrow> trs. if Compare sdk a dest = 0 \<and> 0 < n then n else 0)"

lemma inbound_simps [simp]:
  "inbound sdk dest [] = 0"
  "inbound sdk dest ((a, n) # trs) = (if Compare sdk a dest = 0 \<and> 0 < n then n else 0) + inbound sdk dest trs"
  "inbound sdk dest (xs @ ys) = inbound sdk dest xs + inbound sdk dest ys"
  by (simp_all add: inbound_def)

lemma inbound_nonneg: "0 \<le> inbound sdk dest trs"
  by (induction trs) auto

lemma credit_transfers_inbound:
  "0 \<le> acc \<Longrightarrow> acc + inbound sdk dest trs < 2 ^ 63 \<Longrightarrow>
     credit_transfers sdk dest acc trs = acc + inbound sdk dest trs"
proof (induction trs arbitrary: acc)
  case (Cons x trs)
  obtain a n where x: "x = (a, n)" by (cases x)
  show ?case
  proof (cases "Compare sdk a dest = 0 \<and> 0 < n")
    case True
    then have "acc + n < 2 ^ 63" using Cons.prems x inbound_nonneg [of sdk dest trs] by simp
    then have "add64 acc n = acc + n" using Cons.prems True by (intro add64_id) (simp add: i64_def)
    with True show ?thesis
      using Cons.IH [of "acc + n"] Cons.prems x by (simp add: credit_transfers_def)
  next
    case False
    with Cons show ?thesis by (auto simp: credit_transfers_def x)
  qed
qed (simp add: credit_transfers_def)

lemma credit_lists_inbound:
  "0 \<le> acc \<Longrightarrow> acc + inbound sdk dest (concat ls) < 2 ^ 63 \<Longrightarrow>
     foldl (credit_transfers sdk dest) acc ls = acc + inbound sdk dest (concat ls)"
proof (induction ls arbitrary: acc)
  case (Cons l ls)
  have "acc + inbound sdk dest l < 2 ^ 63"
    using Cons.prems inbound_nonneg [of sdk dest "concat ls"] by simp
  with Cons show ?case
    using credit_transfers_inbound [OF Cons.prems(1), of sdk dest l] inbound_nonneg [of sdk dest l] by simp
qed simp

text \<open>A record within the range of \<open>int64\<close>.\<close>

definition in_range :: "('a, 't, 'p, 'k) hiero \<Rightarrow> 'a \<Rightarrow> 'a tx_record \<Rightarrow> bool" where
  "in_range sdk dest rec \<longleftrightarrow>
     inbound sdk dest (Transfers rec) < 2 ^ 63 \<and> inbound sdk dest (concat (TokenTransfers rec)) < 2 ^ 63"

lemma credited_units_eq:
  "in_range sdk dest rec \<Longrightarrow>
     credited_units sdk dest rec =
       (if inbound sdk dest (Transfers rec) \<noteq> 0 then inbound sdk dest (Transfers rec)
        else inbound sdk dest (concat (TokenTransfers rec)))"
  using credit_transfers_inbound [of 0 sdk dest "Transfers rec"] credit_lists_inbound [of 0 sdk dest "TokenTransfers rec"]
  by (simp add: credited_units_def in_range_def)

lemma live_verify_Inr:
  "live_VerifyTopupTx sdk net txID to agentID = Inr (n, a) \<longleftrightarrow>
     (\<exists>tid dest rec. TrimSpace txID \<noteq> [] \<and> TrimSpace to \<noteq> [] \<and>
        TransactionIdFromString sdk (TrimSpace txID) = Inr tid \<and> AccountIDFromString sdk (TrimSpace to) = Inr dest \<and>
        TransactionRecordQuery sdk net tid = Inr rec \<and> (agentID = [] \<or> Contains (TransactionMemo rec) agentID) \<and>
        n = credited_units sdk dest rec \<and> n \<noteq> 0 \<and> a = ''HBAR_OR_TOKEN'')"
  by (auto simp: live_VerifyTopupTx_def Let_def split: sum.split)

lemma TrimSpace_strip_left: "TrimSpace (strip unicode_space s) = TrimSpace s"
  by (simp add: TrimSpace_def)

text \<open>Leading white space does not change what is verified.\<close>

lemma TrimSpace_space: "TrimSpace (CHR '' '' # s) = TrimSpace s"
proof -
  have "strip unicode_space (CHR '' '' # s) = strip unicode_space s"
  proof -
    have "List.find (\<lambda>w. w \<noteq> [] \<and> prefix w (CHR '' '' # s)) unicode_space = Some [CHR '' '']"
      by (simp add: unicode_space_code)
    then show ?thesis by (subst strip.simps) simp
  qed
  then show ?thesis by (simp add: TrimSpace_def)
qed

lemma verify_ignores_space:
  "live_VerifyTopupTx sdk net (CHR '' '' # txID) to agentID = live_VerifyTopupTx sdk net txID to agentID"
  by (simp add: live_VerifyTopupTx_def TrimSpace_space)

lemma live_verify_part:
  "live_VerifyTopupTx sdk net txID to agentID = Inr x \<Longrightarrow> sublist b agentID \<Longrightarrow>
     live_VerifyTopupTx sdk net txID to b = Inr x"
proof -
  assume v: "live_VerifyTopupTx sdk net txID to agentID = Inr x" and part: "sublist b agentID"
  obtain n a where x: "x = (n, a)" by (cases x)
  obtain tid dest rec where r: "TrimSpace txID \<noteq> []" "TrimSpace to \<noteq> []"
    "TransactionIdFromString sdk (TrimSpace txID) = Inr tid" "AccountIDFromString sdk (TrimSpace to) = Inr dest"
    "TransactionRecordQuery sdk net tid = Inr rec" "agentID = [] \<or> Contains (TransactionMemo rec) agentID"
    "n = credited_units sdk dest rec" "n \<noteq> 0" "a = ''HBAR_OR_TOKEN''"
    using v by (auto simp: live_verify_Inr x)
  have "b = [] \<or> Contains (TransactionMemo rec) b"
    using part r(6) sublist_order.order.trans [OF part, of "TransactionMemo rec"] by (cases "agentID = []") (simp_all add: Contains_def)
  with r show ?thesis by (auto simp: live_verify_Inr x)
qed

section \<open>The interface of the deposit endpoint\<close>

text \<open>
  The endpoint keys a credit by the transaction id as posted and by the agent, and trusts the verifier
  with both.  These two laws, which hold of all clients, say how little the verifier tells apart.
\<close>

locale deposit_verifier =
  fixes verify :: "string \<Rightarrow> string \<Rightarrow> err + int \<times> string"
  assumes blank: "verify (CHR '' '' # tx) a = verify tx a"
    and part: "verify tx a = Inr x \<Longrightarrow> sublist b a \<Longrightarrow> verify tx b = Inr x"
begin

lemma blanks: "verify (replicate k (CHR '' '') @ tx) a = verify tx a"
  by (induction k) (simp_all add: blank)

lemma same_deposit:
  "verify tx a = Inr x \<Longrightarrow> sublist b a \<Longrightarrow> verify (replicate k (CHR '' '') @ tx) b = Inr x"
  unfolding blanks by (rule part)

end

interpretation hedera: deposit_verifier "\<lambda>tx a. VerifyTopupTx sdk c tx to a" for sdk c to
proof
  show "VerifyTopupTx sdk c (CHR '' '' # tx) to a = VerifyTopupTx sdk c tx to a" for tx a
    by (cases c) (simp_all add: VerifyTopupTx_def verify_ignores_space noop_VerifyTopupTx_def TrimSpace_space)
  show "VerifyTopupTx sdk c tx to b = Inr x" if "VerifyTopupTx sdk c tx to a = Inr x" "sublist b a" for tx a b x
    using that live_verify_part by (cases c) (fastforce simp: VerifyTopupTx_def noop_VerifyTopupTx_def split: if_splits)+
qed

section \<open>A concrete ledger\<close>

text \<open>
  The SDK knows one transaction, whose memo names the agent a1 and which moved 40 tinybars to the
  account 0.0.9.
\<close>

definition demo_sdk :: "(string, string, string, string) hiero" where
  "demo_sdk =
     \<lparr>AccountIDFromString = Inr, PrivateKeyFromString = Inr, TransactionIdFromString = Inr, TopicIDFromString = Inr,
      Compare = (\<lambda>a b. if a = b then 0 else 1),
      TransactionRecordQuery = (\<lambda>net tid. if tid = ''0.0.5@1.2''
         then Inr \<lparr>TransactionMemo = ''prepaid a1'', Transfers = [(''0.0.5'', - 40), (''0.0.9'', 40)], TokenTransfers = []\<rparr>
         else Inl ''not found''),
      TopicMessageSubmit = (\<lambda>net tid msg. Inr ''0.0.5@1.3'')\<rparr>"

definition demo_hedera :: Hedera where
  "demo_hedera = \<lparr>Enabled = True, Network = ''testnet'', OperatorAccountID = ''0.0.5'', OperatorPrivateKey = ''k'',
     ServiceAccountID = ''0.0.9'', AuditTopicID = ''0.0.7'', HSummaryWindowMinutes = 10, SkipTopupVerify = False\<rparr>"

section \<open>Properties\<close>

text \<open>
  C38: what a verified deposit is.  The transaction exists, its memo contains the agent's id, and, as
  long as its sums fit an \<open>int64\<close>, the amount is the positive sum of what it moved to the service
  account, in tinybars or, if it moved none, in units of any tokens together.  It verifies equally for
  every other id that is part of this one.
\<close>

theorem verified_deposit_amount:
  assumes "live_VerifyTopupTx sdk net txID to agentID = Inr (n, asset)"
  shows "\<exists>tid dest rec. TransactionIdFromString sdk (TrimSpace txID) = Inr tid \<and>
     AccountIDFromString sdk (TrimSpace to) = Inr dest \<and> TransactionRecordQuery sdk net tid = Inr rec \<and>
     (agentID = [] \<or> Contains (TransactionMemo rec) agentID) \<and>
     (in_range sdk dest rec \<longrightarrow> 0 < n \<and>
        n = (if inbound sdk dest (Transfers rec) \<noteq> 0 then inbound sdk dest (Transfers rec)
             else inbound sdk dest (concat (TokenTransfers rec)))) \<and>
     (\<forall>b. sublist b agentID \<longrightarrow> live_VerifyTopupTx sdk net txID to b = Inr (n, asset))"
proof -
  obtain tid dest rec where r: "TrimSpace txID \<noteq> []" "TrimSpace to \<noteq> []"
    "TransactionIdFromString sdk (TrimSpace txID) = Inr tid" "AccountIDFromString sdk (TrimSpace to) = Inr dest"
    "TransactionRecordQuery sdk net tid = Inr rec" "agentID = [] \<or> Contains (TransactionMemo rec) agentID"
    "n = credited_units sdk dest rec" "n \<noteq> 0" "asset = ''HBAR_OR_TOKEN''"
    using assms by (auto simp: live_verify_Inr)
  have "0 < n \<and> n = (if inbound sdk dest (Transfers rec) \<noteq> 0 then inbound sdk dest (Transfers rec)
             else inbound sdk dest (concat (TokenTransfers rec)))" if "in_range sdk dest rec"
    using r(7,8) credited_units_eq [OF that] inbound_nonneg [of sdk dest "Transfers rec"]
      inbound_nonneg [of sdk dest "concat (TokenTransfers rec)"] by (auto split: if_splits)
  moreover have "live_VerifyTopupTx sdk net txID to b = Inr (n, asset)" if "sublist b agentID" for b
    using assms that by (rule live_verify_part)
  ultimately show ?thesis using r by blast
qed

theorem verified_deposit_amount_witness:
  "live_VerifyTopupTx demo_sdk ''testnet'' ''0.0.5@1.2'' ''0.0.9'' ''a1'' = Inr (40, ''HBAR_OR_TOKEN'') \<and>
   live_VerifyTopupTx demo_sdk ''testnet'' ''0.0.5@1.2'' ''0.0.9'' ''a'' = Inr (40, ''HBAR_OR_TOKEN'')"
proof -
  have h: "live_VerifyTopupTx demo_sdk ''testnet'' ''0.0.5@1.2'' ''0.0.9'' ''a1'' = Inr (40, ''HBAR_OR_TOKEN'')"
    by code_simp
  have "sublist ''a'' ''a1''" by (simp add: sublist_Cons_right)
  with h verified_deposit_amount [OF h] show ?thesis by blast
qed

end
