(* ===== verification/Rest_Api.thy ===== *)
theory Rest_Api
  imports Service Go_Time Json_Text Hedera_Client
begin

text \<open>
  The REST surface of the control plane: \<^verbatim>\<open>internal/http/handlers.go\<close>.  A handler maps the
  service and a request to the service afterwards and a response; \<open>None\<close> is a call of the Naryo
  client that does not return.
\<close>

section \<open>Decoding a body into a struct\<close>

text \<open>
  A key names a field when they are equal up to case folding, which besides the ASCII letters maps
  the Kelvin sign to k and the long s to s.  Values are assigned in the order of the text: a value of
  the wrong type is skipped and remembered as an error, and \<open>null\<close> leaves a string, a number and a
  boolean alone.
\<close>

fun fold_key :: "string \<Rightarrow> string" where
  "fold_key (a # b # c # s) =
     (if a = CHR 0xE2 \<and> b = CHR 0x84 \<and> c = CHR 0xAA then CHR ''k'' # fold_key s
      else if a = CHR 0xC5 \<and> b = CHR 0xBF then CHR ''s'' # fold_key (c # s)
      else lower_char a # fold_key (b # c # s))"
| "fold_key [a, b] = (if a = CHR 0xC5 \<and> b = CHR 0xBF then ''s'' else [lower_char a, lower_char b])"
| "fold_key [a] = [lower_char a]"
| "fold_key [] = []"

type_synonym 'b setter = "'b \<Rightarrow> any \<Rightarrow> 'b \<times> bool"

definition set_str :: "(string \<Rightarrow> 'b \<Rightarrow> 'b) \<Rightarrow> 'b setter" where
  "set_str upd b v = (case v of ANil \<Rightarrow> (b, False) | AStr s \<Rightarrow> (upd s b, False) | _ \<Rightarrow> (b, True))"

definition set_bool :: "(bool \<Rightarrow> 'b \<Rightarrow> 'b) \<Rightarrow> 'b setter" where
  "set_bool upd b v = (case v of ANil \<Rightarrow> (b, False) | ABool x \<Rightarrow> (upd x b, False) | _ \<Rightarrow> (b, True))"

definition set_int :: "(int \<Rightarrow> 'b \<Rightarrow> 'b) \<Rightarrow> 'b setter" where
  "set_int upd b v =
     (case v of
        ANil \<Rightarrow> (b, False)
      | ANumber l \<Rightarrow> (case ParseInt l of None \<Rightarrow> (b, True) | Some n \<Rightarrow> (upd n b, False))
      | _ \<Rightarrow> (b, True))"

text \<open>A map that is already there keeps its entries; \<open>null\<close> makes it nil.  The nil map reads as \<open>[]\<close>.\<close>

definition set_map :: "('b \<Rightarrow> obj) \<Rightarrow> (obj \<Rightarrow> 'b \<Rightarrow> 'b) \<Rightarrow> 'b setter" where
  "set_map get upd b v =
     (case v of
        ANil \<Rightarrow> (upd [] b, False)
      | AObj m \<Rightarrow> (upd (foldl (\<lambda>acc (k, x). AList.update k (interface_value x) acc) (get b) m) b,
                  \<not> list_all (\<lambda>(k, x). numbers_in_range x) m)
      | _ \<Rightarrow> (b, True))"

definition decode_struct :: "(string \<times> 'b setter) list \<Rightarrow> 'b \<Rightarrow> any \<Rightarrow> 'b \<times> bool" where
  "decode_struct fs b v =
     (case v of
        ANil \<Rightarrow> (b, False)
      | AObj m \<Rightarrow> foldl (\<lambda>(b, e) (k, x).
            case map_of (map (\<lambda>(n, f). (fold_key n, f)) fs) (fold_key k) of
              None \<Rightarrow> (b, e)
            | Some f \<Rightarrow> (case f b x of (b', e') \<Rightarrow> (b', e \<or> e'))) (b, False) m
      | _ \<Rightarrow> (b, True))"

text \<open>\<open>Decode\<close> into a struct: what the struct holds afterwards, and whether there was an error.\<close>

definition decode_body :: "(string \<times> 'b setter) list \<Rightarrow> 'b \<Rightarrow> string \<Rightarrow> 'b \<times> bool" where
  "decode_body fs zero text = (case parse_first text of None \<Rightarrow> (zero, True) | Some v \<Rightarrow> decode_struct fs zero v)"

section \<open>Requests and responses\<close>

text \<open>
  A request by the values of its path wildcards, its headers (of a repeated one the first value), the
  parameter \<open>pipelineId\<close> of its query and its body.  \<open>rq_rand\<close> is what the random source yields for it.
\<close>

record request =
  rq_path :: string
  rq_headers :: "string \<Rightarrow> string"
  rq_pipelineId :: string
  rq_body :: string
  rq_rand :: "string option"

text \<open>The body is the value the encoder is given; a map as its entries.\<close>

record response =
  rs_status :: nat
  rs_body :: any

definition writeJSON :: "nat \<Rightarrow> obj \<Rightarrow> response" where
  "writeJSON status v = \<lparr>rs_status = status, rs_body = AObj v\<rparr>"

definition error_response :: "nat \<Rightarrow> string \<Rightarrow> response" where
  "error_response status msg = writeJSON status [(''error'', AStr msg)]"

definition ok_true :: response where
  "ok_true = writeJSON 200 [(''ok'', AStr ''true'')]"

text \<open>\<open>readJSON\<close>: the value, or the response that was written.\<close>

definition readJSON :: "(string \<times> 'b setter) list \<Rightarrow> 'b \<Rightarrow> request \<Rightarrow> response + 'b" where
  "readJSON fs zero r =
     (case decode_body fs zero (rq_body r) of
        (b, True) \<Rightarrow> Inl (error_response 400 ''invalid json'')
      | (b, False) \<Rightarrow> Inr b)"

definition writeErr :: "err \<Rightarrow> response" where
  "writeErr e =
     (case e of
        ErrNotFound \<Rightarrow> error_response 404 ''not found''
      | ErrInvalidTransition _ _ \<Rightarrow> error_response 409 (err_text e)
      | InsufficientPrepaidError rem req \<Rightarrow>
          writeJSON 409 [(''error'', AStr (err_text e)), (''requiredPrepaidUnits'', AInt req),
                         (''remainingPrepaidUnits'', AInt rem)]
      | _ \<Rightarrow> error_response 400 (err_text e))"

section \<open>The API\<close>

text \<open>
  What the handlers are given: the operations of the Naryo client behind the service, the environment
  the configuration is read from, the Hedera client (which may be nil) and its configuration.
\<close>

record ('n, 'a, 't, 'p, 'k) API =
  ap_naryo :: "'n naryo_client"
  ap_env :: env
  ap_sdk :: "('a, 't, 'p, 'k) hiero"
  ap_HederaClient :: "hedera_client option"
  ap_HederaCfg :: Hedera

type_synonym 'n outcome = "('n service \<times> response) option"

definition Health :: response where
  "Health = writeJSON 200 [(''status'', AStr ''ok'')]"

record createBody = cb_agentId :: string

definition createBody_fields :: "(string \<times> createBody setter) list" where
  "createBody_fields = [(''agentId'', set_str (\<lambda>s. cb_agentId_update (\<lambda>_. s)))]"

definition decode_create :: "string \<Rightarrow> string" where
  "decode_create text = cb_agentId (fst (decode_body createBody_fields \<lparr>cb_agentId = []\<rparr> text))"

text \<open>The credit for development that precedes a creation; its error is ignored.\<close>

definition dev_auto_credit :: "env \<Rightarrow> 'n service \<Rightarrow> string \<Rightarrow> 'n service" where
  "dev_auto_credit env s agentID =
     (let u = PrepaidDevAutoCreditUnits env
      in if 0 < u \<and> agentID \<noteq> []
         then fst (CreditTopUp s \<lparr>tu_AgentID = agentID, tu_AmountUnits = u, tu_Source = ''dev_auto'',
                                  tu_SourceTxID = [], tu_Asset = []\<rparr>)
         else s)"

definition created_body :: "session \<Rightarrow> obj" where
  "created_body sess = [(''id'', AStr (ID sess)), (''state'', AStr (state_text (State sess)))]"

definition CreatePipeline :: "('n, 'a, 't, 'p, 'k) API \<Rightarrow> 'n service \<Rightarrow> request \<Rightarrow> 'n service \<times> response" where
  "CreatePipeline a s r =
     (let agentID = decode_create (rq_body r);
          s1 = dev_auto_credit (ap_env a) s agentID
      in case Create s1 (rq_rand r) agentID of
          (s2, Inl e) \<Rightarrow> (s2, if is_insufficient_prepaid e then writeErr e else error_response 500 (err_text e))
        | (s2, Inr sess) \<Rightarrow> (s2, writeJSON 201 (created_body sess)))"

text \<open>The JSON of an event of the feed of a session, and the body of the status.\<close>

definition event_json :: "NaryoInboundEvent \<Rightarrow> any" where
  "event_json e =
     AObj ([(''eventId'', AStr (EventID e))] @ (if Payload e = [] then [] else [(''payload'', AObj (Payload e))]) @
           [(''receivedAt'', AStr (RFC3339Nano (ReceivedAt e)))])"

text \<open>A session without events has the nil slice.\<close>

definition events_json :: "NaryoInboundEvent list \<Rightarrow> any" where
  "events_json ev = (if ev = [] then ANil else AArr (map event_json ev))"

definition status_body :: "'n service \<Rightarrow> string \<Rightarrow> session \<Rightarrow> obj" where
  "status_body s sid sess =
     [(''id'', AStr (ID sess)), (''agentId'', AStr (AgentID sess)), (''state'', AStr (state_text (State sess))),
      (''billedSeconds'', AInt (BilledSeconds sess)), (''paymentStreamActive'', ABool (PaymentStreamActive sess)),
      (''rateCentsPerSecond'', AInt (RateCentsPerSecond sess)), (''lastNaryoOpId'', AStr (LastNaryoOpID sess)),
      (''config'', AObj (Config sess)), (''rateUnitsPerMinute'', AInt (RateUnitsPerMinute sess)),
      (''chargedUnits'', AInt (ChargedUnits sess)), (''summaryWindowMinutes'', AInt (SummaryWindowMinutes sess)),
      (''autoPausedForFunds'', ABool (AutoPausedForFunds sess))] @
     (if AgentID sess \<noteq> [] then [(''prepaidBalanceUnits'', AInt (PrepaidBalance s (AgentID sess)))] else []) @
     (case NaryoEventsForSession s sid 10 of
        Inl _ \<Rightarrow> [] | Inr ev \<Rightarrow> [(''recentNaryoEvents'', events_json ev)])"

definition GetStatus :: "'n service \<Rightarrow> request \<Rightarrow> response" where
  "GetStatus s r =
     (let sid = rq_path r
      in case Status s sid of
          Inl e \<Rightarrow> if e = ErrNotFound then error_response 404 ''not found'' else error_response 500 (err_text e)
        | Inr sess \<Rightarrow>
            (case CheckStatusPrepaid s sess of
               Some e \<Rightarrow> if is_insufficient_prepaid e then writeErr e else error_response 500 (err_text e)
             | None \<Rightarrow> writeJSON 200 (status_body s sid sess)))"

section \<open>Lifecycle requests\<close>

text \<open>The four handlers that differ in the operation they call.\<close>

definition lifecycle_response :: "'n service \<times> err option \<Rightarrow> 'n service \<times> response" where
  "lifecycle_response x = (case x of (s, Some e) \<Rightarrow> (s, writeErr e) | (s, None) \<Rightarrow> (s, ok_true))"

definition PostStart :: "('n, 'a, 't, 'p, 'k) API \<Rightarrow> 'n service \<Rightarrow> request \<Rightarrow> 'n outcome" where
  "PostStart a s r = map_option lifecycle_response (Start (ap_naryo a) s (rq_path r))"

definition PostStop :: "('n, 'a, 't, 'p, 'k) API \<Rightarrow> 'n service \<Rightarrow> request \<Rightarrow> 'n outcome" where
  "PostStop a s r = map_option lifecycle_response (Stop (ap_naryo a) s (rq_path r))"

definition PostPause :: "('n, 'a, 't, 'p, 'k) API \<Rightarrow> 'n service \<Rightarrow> request \<Rightarrow> 'n outcome" where
  "PostPause a s r = map_option lifecycle_response (Pause (ap_naryo a) s (rq_path r))"

definition PostResume :: "('n, 'a, 't, 'p, 'k) API \<Rightarrow> 'n service \<Rightarrow> request \<Rightarrow> 'n outcome" where
  "PostResume a s r = map_option lifecycle_response (Resume (ap_naryo a) s (rq_path r))"

record reconfigureBody = rb_patch :: obj

definition reconfigureBody_fields :: "(string \<times> reconfigureBody setter) list" where
  "reconfigureBody_fields = [(''patch'', set_map rb_patch (\<lambda>m. rb_patch_update (\<lambda>_. m)))]"

definition PutReconfigure :: "'n service \<Rightarrow> request \<Rightarrow> 'n outcome" where
  "PutReconfigure s r =
     (case readJSON reconfigureBody_fields \<lparr>rb_patch = []\<rparr> r of
        Inl bad \<Rightarrow> Some (s, bad)
      | Inr body \<Rightarrow> map_option (\<lambda>x. case x of
            (s', Some e) \<Rightarrow> (s', writeErr e)
          | (s', None) \<Rightarrow> (s', writeJSON 200 [(''ok'', AStr ''true''), (''naryoTouched'', ABool False)]))
          (Reconfigure s (rq_path r) (rb_patch body)))"

record streamBody = sb_active :: bool

definition streamBody_fields :: "(string \<times> streamBody setter) list" where
  "streamBody_fields = [(''active'', set_bool (\<lambda>b. sb_active_update (\<lambda>_. b)))]"

definition PutPaymentStream :: "'n service \<Rightarrow> request \<Rightarrow> 'n outcome" where
  "PutPaymentStream s r =
     (case readJSON streamBody_fields \<lparr>sb_active = False\<rparr> r of
        Inl bad \<Rightarrow> Some (s, bad)
      | Inr body \<Rightarrow> map_option (\<lambda>x. case x of
            (s', Some e) \<Rightarrow> (s', writeErr e)
          | (s', None) \<Rightarrow> (s', writeJSON 200 [(''active'', ABool (sb_active body))]))
          (SetPaymentStreamActive s (rq_path r) (sb_active body)))"

section \<open>Top-ups\<close>

record topUpX402Body =
  xb_amountUnits :: int
  xb_idempotencyKey :: string

definition topUpX402Body_fields :: "(string \<times> topUpX402Body setter) list" where
  "topUpX402Body_fields =
     [(''amountUnits'', set_int (\<lambda>n. xb_amountUnits_update (\<lambda>_. n))),
      (''idempotencyKey'', set_str (\<lambda>s. xb_idempotencyKey_update (\<lambda>_. s)))]"

definition TopUpX402 :: "'n service \<Rightarrow> request \<Rightarrow> 'n service \<times> response" where
  "TopUpX402 s r =
     (let agentID = rq_path r
      in case readJSON topUpX402Body_fields \<lparr>xb_amountUnits = 0, xb_idempotencyKey = []\<rparr> r of
          Inl bad \<Rightarrow> (s, bad)
        | Inr body \<Rightarrow>
            if agentID = [] \<or> xb_amountUnits body \<le> 0
            then (s, error_response 400 ''invalid agentId or amountUnits'')
            else let ref = (if xb_idempotencyKey body = [] then rq_headers r ''X-Idempotency-Key''
                            else xb_idempotencyKey body)
                 in case CreditTopUp s \<lparr>tu_AgentID = agentID, tu_AmountUnits = xb_amountUnits body,
                        tu_Source = ''x402'', tu_SourceTxID = ref, tu_Asset = []\<rparr> of
                     (s', Some e) \<Rightarrow> (s', error_response 400 (err_text e))
                   | (s', None) \<Rightarrow> (s', writeJSON 200
                       [(''agentId'', AStr agentID), (''creditedUnits'', AInt (xb_amountUnits body)),
                        (''source'', AStr ''x402'')]))"

record topUpDepositBody =
  db_transactionId :: string
  db_amountUnits :: int

definition topUpDepositBody_fields :: "(string \<times> topUpDepositBody setter) list" where
  "topUpDepositBody_fields =
     [(''transactionId'', set_str (\<lambda>s. db_transactionId_update (\<lambda>_. s))),
      (''amountUnits'', set_int (\<lambda>n. db_amountUnits_update (\<lambda>_. n)))]"

text \<open>The amount to credit and its asset, or the response that refuses it.\<close>

definition deposit_amount :: "('n, 'a, 't, 'p, 'k) API \<Rightarrow> string \<Rightarrow> topUpDepositBody \<Rightarrow> response + int \<times> string" where
  "deposit_amount a agentID body =
     (if SkipTopupVerify (ap_HederaCfg a)
      then (if db_amountUnits body \<le> 0
            then Inl (error_response 400 ''amountUnits required when HEDERA_SKIP_TOPUP_VERIFY is set'')
            else Inr (db_amountUnits body, ''unspecified''))
      else case ap_HederaClient a of
          Some c \<Rightarrow>
            (case VerifyTopupTx (ap_sdk a) c (db_transactionId body) (ServiceAccountID (ap_HederaCfg a)) agentID of
               Inl e \<Rightarrow> Inl (error_response 400 (err_text e))
             | Inr x \<Rightarrow> Inr x)
        | None \<Rightarrow> Inl (error_response 503 ''hedera client not configured''))"

definition TopUpDeposit :: "('n, 'a, 't, 'p, 'k) API \<Rightarrow> 'n service \<Rightarrow> request \<Rightarrow> 'n service \<times> response" where
  "TopUpDeposit a s r =
     (let agentID = rq_path r
      in case readJSON topUpDepositBody_fields \<lparr>db_transactionId = [], db_amountUnits = 0\<rparr> r of
          Inl bad \<Rightarrow> (s, bad)
        | Inr body \<Rightarrow>
            if agentID = [] \<or> db_transactionId body = []
            then (s, error_response 400 ''invalid agentId or transactionId'')
            else case deposit_amount a agentID body of
                Inl bad \<Rightarrow> (s, bad)
              | Inr (amount, asset) \<Rightarrow>
                  (case CreditTopUp s \<lparr>tu_AgentID = agentID, tu_AmountUnits = amount,
                          tu_Source = ''hedera_deposit'', tu_SourceTxID = db_transactionId body, tu_Asset = asset\<rparr> of
                     (s', Some e) \<Rightarrow> (s', error_response 400 (err_text e))
                   | (s', None) \<Rightarrow> (s', writeJSON 200
                       [(''agentId'', AStr agentID), (''creditedUnits'', AInt amount), (''asset'', AStr asset),
                        (''transactionId'', AStr (db_transactionId body))])))"

end
