(* ===== verification/Observability.thy ===== *)
theory Observability
  imports Rest_Api Naryo_Session Naryo_Plan
begin

text \<open>
  The dashboards' read-only views (\<^verbatim>\<open>internal/http/observability.go\<close>) and the methods of the
  Naryo client they use: \<open>Stats\<close> and \<open>ConfigurationSnapshot\<close> (\<^verbatim>\<open>internal/naryo/client.go\<close>,
  \<^verbatim>\<open>recording_client.go\<close>).
\<close>

section \<open>The observable client\<close>

record 'n observable_client = "'n naryo_client" +
  Stats :: "'n \<Rightarrow> ('n \<times> obj) option"
  ConfigurationSnapshot :: "'n \<Rightarrow> ('n \<times> (err + obj)) option"

definition recording_ConfigurationSnapshot :: "RecordingClient \<Rightarrow> (RecordingClient \<times> (err + obj)) option" where
  "recording_ConfigurationSnapshot m =
     Some (m, Inr
       [(''mode'', AStr ''recording''),
        (''message'', AStr ''In-process recording client (Go tests only; does not call Naryo)''),
        (''filters'', AArr []), (''filtersCount'', AInt 0), (''broadcasters'', AArr []), (''broadcastersCount'', AInt 0),
        (''broadcasterConfigurations'', AArr []), (''broadcasterConfigurationsCount'', AInt 0),
        (''egressProvisionSkipped'', ABool False), (''orchestratorSessions'', AArr []),
        (''orchestratorSessionsCount'', AInt 0),
        (''snapshotHints'', AArr [AStr (''Recording client: used in Go tests only. The API binary always requires '' @
           ''NARYO_CONFIG_API_BASE and NARYO_PLATFORM_INGEST_URL.'')])])"

definition recording_Stats :: "gotime \<Rightarrow> RecordingClient \<Rightarrow> (RecordingClient \<times> obj) option" where
  "recording_Stats now m =
     Some (m,
       [(''mode'', AStr ''recording''), (''healthy'', ABool True), (''lastChecked'', AStr (RFC3339Nano now)),
        (''ensureCalls'', AInt (EnsureCalls m)), (''pauseCalls'', AInt (PauseCalls m)),
        (''resumeCalls'', AInt (ResumeCalls m)), (''stopCalls'', AInt (StopCalls m)), (''lastOpSeq'', AInt (opSeq m))])"

definition observable_recording :: "gotime \<Rightarrow> RecordingClient observable_client" where
  "observable_recording now =
     \<lparr>EnsurePipeline = recording_EnsurePipeline, PauseEgress = recording_PauseEgress,
      ResumeEgress = recording_ResumeEgress, StopPipeline = recording_StopPipeline,
      Stats = recording_Stats now, ConfigurationSnapshot = recording_ConfigurationSnapshot\<rparr>"

definition observable_http :: "'w outside \<Rightarrow> 'w HTTPClient observable_client" where
  "observable_http out =
     \<lparr>EnsurePipeline = http_EnsurePipeline out, PauseEgress = http_PauseEgress out,
      ResumeEgress = http_ResumeEgress out, StopPipeline = http_StopPipeline out,
      Stats = http_Stats out, ConfigurationSnapshot = http_ConfigurationSnapshot out\<rparr>"

section \<open>Sessions as maps\<close>

lemma size_member: "(a, b) \<in> set m \<Longrightarrow> size b \<le> size_list (size_prod (\<lambda>_. 0) size) m"
  by (induction m) auto

text \<open>
  \<open>json.Marshal\<close> and \<open>json.Unmarshal\<close> of a value: an integer comes back as the nearest \<open>float64\<close>, a
  \<open>float64\<close> as itself (its shortest text reads back), a map with its keys in order.
\<close>

function reencode :: "any \<Rightarrow> any" where
  "reencode ANil = ANil"
| "reencode (ABool b) = ABool b"
| "reencode (AFloat x) = AFloat x"
| "reencode (AInt n) = interface_value (ANumber (dec_int n))"
| "reencode (ANumber l) = interface_value (ANumber l)"
| "reencode (AStr s) = AStr (clean s)"
| "reencode (AStrs ss) = AArr (map (\<lambda>s. AStr (clean s)) ss)"
| "reencode (AArr xs) = AArr (map reencode xs)"
| "reencode (AObj m) =
     AObj (foldl (\<lambda>acc (k, v). AList.update k v acc) []
       (map (\<lambda>kv. (clean (fst kv), reencode (snd kv))) (sort_key fst m)))"
  by pat_completeness auto
termination
  by (relation "measure size") (auto simp: size_sort_key_mem less_Suc_eq_le size_member dest: size_list_estimation' [OF _ order_refl])

definition omit :: "bool \<Rightarrow> string \<Rightarrow> any \<Rightarrow> obj" where
  "omit present k v = (if present then [(k, v)] else [])"

text \<open>The JSON object of a session: the fields with a name, in the order of the struct.\<close>

definition session_json :: "session \<Rightarrow> obj" where
  "session_json s =
     [(''id'', AStr (ID s))] @ omit (AgentID s \<noteq> []) ''agentId'' (AStr (AgentID s)) @
     [(''state'', AStr (state_text (State s))), (''paymentStreamActive'', ABool (PaymentStreamActive s)),
      (''billedSeconds'', AInt (BilledSeconds s)), (''rateCentsPerSecond'', AInt (RateCentsPerSecond s))] @
     omit (LastNaryoOpID s \<noteq> []) ''lastNaryoOpId'' (AStr (LastNaryoOpID s)) @
     omit (Config s \<noteq> []) ''config'' (AObj (Config s)) @
     [(''rateUnitsPerMinute'', AInt (RateUnitsPerMinute s)), (''chargedUnits'', AInt (ChargedUnits s))] @
     omit (BillingNumerator s \<noteq> 0) ''billingNumerator'' (AInt (BillingNumerator s)) @
     omit (SecondsInDebitWindow s \<noteq> 0) ''secondsInDebitWindow'' (AInt (SecondsInDebitWindow s)) @
     [(''summaryWindowMinutes'', AInt (SummaryWindowMinutes s))] @
     omit (AutoPausedForFunds s) ''autoPausedForFunds'' (ABool True)"

definition sessionMapWithNaryoFilterPlan :: "env \<Rightarrow> session \<Rightarrow> obj" where
  "sessionMapWithNaryoFilterPlan env s =
     (case reencode (AObj (session_json s)) of
        AObj m \<Rightarrow> set_field ''naryoFilterPlan'' (AObj (DescribePipelineFilterPlanForSession env (ID s) (Config s))) m
      | _ \<Rightarrow> [])"

definition pipelineSessionMapsForObservability :: "env \<Rightarrow> session list \<Rightarrow> any" where
  "pipelineSessionMapsForObservability env ss = AArr (map (\<lambda>s. AObj (sessionMapWithNaryoFilterPlan env s)) ss)"

section \<open>Summary\<close>

definition activity_json :: "ActivityEntry \<Rightarrow> any" where
  "activity_json e =
     AObj ([(''timestamp'', AStr (RFC3339Nano (ae_Time e))), (''type'', AStr (ae_Type e))] @
           omit (ae_SessionID e \<noteq> []) ''sessionId'' (AStr (ae_SessionID e)) @
           omit (ae_Data e \<noteq> []) ''data'' (AObj (ae_Data e)))"

text \<open>Without an activity log the feed is the nil slice, which is encoded as \<open>null\<close>.\<close>

definition feed_json :: "'n service \<Rightarrow> ActivityEntry list \<Rightarrow> any" where
  "feed_json s es = (if activity s = None then ANil else AArr (map activity_json es))"

definition countTypes :: "ActivityEntry list \<Rightarrow> string list \<Rightarrow> int" where
  "countTypes es types = foldl (\<lambda>n e. if ae_Type e \<in> set types then n + 1 else n) 0 es"

text \<open>The variables of the loop over the sessions.\<close>

record payment_totals =
  pt_runningPaid :: int
  pt_streamOn :: int
  pt_estCents :: int
  pt_prepaidByAgent :: "(string \<times> any) list"

definition add_session :: "'n service \<Rightarrow> payment_totals \<Rightarrow> session \<Rightarrow> payment_totals" where
  "add_session svc p s =
     (let p1 = (if State s = StateRunning
                then (let p0 = p\<lparr>pt_runningPaid := pt_runningPaid p + 1\<rparr>;
                          p0' = (if PaymentStreamActive s then p0\<lparr>pt_streamOn := pt_streamOn p0 + 1\<rparr> else p0)
                      in p0'\<lparr>pt_estCents := add64 (pt_estCents p0') (mul64 (BilledSeconds s) (RateCentsPerSecond s))\<rparr>)
                else p)
      in if AgentID s \<noteq> []
         then p1\<lparr>pt_prepaidByAgent := AList.update (AgentID s) (AInt (PrepaidBalance svc (AgentID s))) (pt_prepaidByAgent p1)\<rparr>
         else p1)"

definition summarizePayments :: "'n service \<Rightarrow> session list \<Rightarrow> ActivityEntry list \<Rightarrow> obj" where
  "summarizePayments svc sess feed =
     (let p = foldl (add_session svc)
            \<lparr>pt_runningPaid = 0, pt_streamOn = 0, pt_estCents = 0, pt_prepaidByAgent = []\<rparr> sess
      in [(''x402'', AObj [(''note'', AStr (''Only POST /v1/pipelines/{id}/start uses x402 (PAYMENT-SIGNATURE); '' @
             ''other control-plane mutations use prepaid metering.''))]),
          (''prepaid'', AObj [(''note'', AStr (''Off-chain prepaid units per agent; top up via '' @
             ''POST /v1/agents/{agentId}/topup/x402 or .../deposit.'')),
             (''balanceUnitsByAgent'', AObj (pt_prepaidByAgent p))]),
          (''runningPipelines'', AInt (pt_runningPaid p)), (''streamsActive'', AInt (pt_streamOn p)),
          (''estimatedBilledCents'', AInt (pt_estCents p)),
          (''recentPaymentEvents'', AInt (countTypes feed
             [''payment_stream'', ''pipeline_created'', ''pipeline_started'', ''agent_top_up'']))])"

text \<open>
  The handlers run behind routes for \<open>GET\<close>, so the only other method they see is \<open>HEAD\<close>, which they
  refuse.  The client may be nil; \<open>order\<close> is the order in which Go visits the sessions.
\<close>

record 'n obs_env =
  ob_env :: env
  ob_Naryo :: "'n observable_client option"
  ob_method :: string

definition method_not_allowed :: response where
  "method_not_allowed = \<lparr>rs_status = 405, rs_body = AStr ''method not allowed''\<rparr>"

definition ObservabilitySummary :: "'n obs_env \<Rightarrow> string list \<Rightarrow> 'n service \<Rightarrow> 'n outcome" where
  "ObservabilitySummary d order s =
     (if ob_method d \<noteq> ''GET'' then Some (s, method_not_allowed)
      else let sess = ServiceSessions s order; feed = ActivityFeed s 100
           in do {
             (s1, stats) \<leftarrow> (case ob_Naryo d of
                 None \<Rightarrow> Some (s, [(''healthy'', ABool False), (''message'', AStr ''naryo client not configured'')])
               | Some c \<Rightarrow> map_option (\<lambda>(n, st). (s\<lparr>naryo := n\<rparr>, st)) (Stats c (naryo s)));
             Some (s1, writeJSON 200
               [(''generatedAt'', AStr (RFC3339Nano (wall s))), (''api'', AObj [(''status'', AStr ''ok'')]),
                (''pipelines'', pipelineSessionMapsForObservability (ob_env d) sess),
                (''activity'', feed_json s feed), (''naryo'', AObj stats),
                (''payments'', AObj (summarizePayments s sess feed))]) })"

section \<open>One pipeline\<close>

definition ObservabilityPipelineDetail :: "'n obs_env \<Rightarrow> 'n service \<Rightarrow> request \<Rightarrow> response" where
  "ObservabilityPipelineDetail d s r =
     (let sid = rq_path r
      in if ob_method d \<noteq> ''GET'' then method_not_allowed
         else if sid = [] then error_response 400 ''missing id''
         else case Status s sid of
             Inl e \<Rightarrow> if e = ErrNotFound then error_response 404 ''not found'' else error_response 500 (err_text e)
           | Inr sess \<Rightarrow> writeJSON 200
               ([(''session'', AObj (sessionMapWithNaryoFilterPlan (ob_env d) sess)),
                 (''recentActivity'', feed_json s (ActivityForSession s sid 50))] @
                omit (AgentID sess \<noteq> []) ''prepaidBalanceUnits'' (AInt (PrepaidBalance s (AgentID sess))) @
                [(''recentNaryoEvents'',
                    (case NaryoEventsForSession s sid 25 of
                       Inl _ \<Rightarrow> AArr []
                     | Inr ev \<Rightarrow> if ev = [] then AArr [] else AArr (map event_json ev)))]))"

section \<open>The configuration of Naryo\<close>

text \<open>A slice that starts as nil and stays empty is encoded as \<open>null\<close>.\<close>

definition slice_json :: "any list \<Rightarrow> any" where
  "slice_json xs = (if xs = [] then ANil else AArr xs)"

text \<open>The loops over a list of rows keep the maps that pass a test.\<close>

definition select_rows :: "(obj \<Rightarrow> bool) \<Rightarrow> any list \<Rightarrow> any list" where
  "select_rows P xs = filter (\<lambda>it. case it of AObj m \<Rightarrow> P m | _ \<Rightarrow> False) xs"

definition filterOrchestratorSessionsForPipeline :: "any \<Rightarrow> string \<Rightarrow> any list" where
  "filterOrchestratorSessionsForPipeline v sid =
     (case as_array v of
        None \<Rightarrow> []
      | Some xs \<Rightarrow> select_rows (\<lambda>m. string_or_empty (field m ''sessionId'') = sid) xs)"

definition filterSnapshotFilters :: "any \<Rightarrow> string \<Rightarrow> any" where
  "filterSnapshotFilters v namePrefix =
     (case as_array v of
        None \<Rightarrow> v
      | Some xs \<Rightarrow> slice_json (select_rows (\<lambda>m. HasPrefix (string_or_empty (field m ''name'')) namePrefix) xs))"

definition destinationStringForObs :: "any \<Rightarrow> string" where
  "destinationStringForObs d =
     (case d of
        AStr s \<Rightarrow> s
      | AObj m \<Rightarrow> (case as_string (field m ''value'') of Some v \<Rightarrow> v | None \<Rightarrow> sprint d)
      | _ \<Rightarrow> sprint d)"

definition broadcasterDestinationsContain :: "obj \<Rightarrow> string \<Rightarrow> bool" where
  "broadcasterDestinationsContain row needle =
     (case as_object (field row ''target'') of
        None \<Rightarrow> False
      | Some tgt \<Rightarrow>
          (case as_array (field tgt ''destinations'') of
             None \<Rightarrow> False
           | Some dests \<Rightarrow> list_ex (\<lambda>d. Contains (destinationStringForObs d) needle) dests))"

definition filterSnapshotBroadcasters :: "any \<Rightarrow> string \<Rightarrow> any" where
  "filterSnapshotBroadcasters v destNeedle =
     (case as_array v of
        None \<Rightarrow> v
      | Some xs \<Rightarrow> slice_json (select_rows (\<lambda>m. broadcasterDestinationsContain m destNeedle) xs))"

text \<open>The body of the loop over the snapshot.  No assignment is read back, so the order does not matter.\<close>

definition narrow_entry :: "string \<Rightarrow> obj \<Rightarrow> string \<times> any \<Rightarrow> obj" where
  "narrow_entry pid out kv =
     (case kv of (k, v) \<Rightarrow>
        if k = ''orchestratorSessionsCount'' then out
        else if k = ''filters'' then set_field k (filterSnapshotFilters v (''pf-'' @ pid @ ''-'')) out
        else if k = ''broadcasters'' then set_field k (filterSnapshotBroadcasters v (''/'' @ PathEscape pid)) out
        else if k = ''orchestratorSessions''
        then let f = filterOrchestratorSessionsForPipeline v pid
             in set_field ''orchestratorSessionsCount'' (AInt (int (length f))) (set_field k (slice_json f) out)
        else set_field k v out)"

definition narrowNaryoSnapshotForPipeline :: "obj \<Rightarrow> string \<Rightarrow> obj" where
  "narrowNaryoSnapshotForPipeline snap pid =
     (let out = foldl (narrow_entry pid) [] snap
      in set_field ''note'' (AStr (''Narrowed filters by name prefix; broadcasters by destination path containing '' @
             ''encoded session segment; orchestrator sessions to this pipeline id only.''))
           (set_field ''filterNamePrefix'' (AStr (''pf-'' @ pid @ ''-'')) (set_field ''pipelineId'' (AStr pid) out)))"

definition ObservabilityNaryoConfiguration :: "'n obs_env \<Rightarrow> 'n service \<Rightarrow> request \<Rightarrow> 'n outcome" where
  "ObservabilityNaryoConfiguration d s r =
     (if ob_method d \<noteq> ''GET'' then Some (s, method_not_allowed)
      else case ob_Naryo d of
          None \<Rightarrow> Some (s, error_response 503 ''naryo client not configured'')
        | Some c \<Rightarrow> do {
            (n, res) \<leftarrow> ConfigurationSnapshot c (naryo s);
            let s1 = s\<lparr>naryo := n\<rparr>;
            Some (s1, case res of
                Inl e \<Rightarrow> error_response 502 (err_text e)
              | Inr snap \<Rightarrow>
                  (let pid = TrimSpace (rq_pipelineId r);
                       snap' = (if pid \<noteq> [] then narrowNaryoSnapshotForPipeline snap pid else snap)
                   in writeJSON 200 (set_field ''generatedAt'' (AStr (RFC3339Nano (wall s))) snap'))) })"

end
