(* ===== verification/Observability_Facts.thy ===== *)
theory Observability_Facts
  imports Observability Naryo_Live
begin

text \<open>
  What the dashboard sees of one pipeline in the snapshot of Naryo's configuration.
\<close>

lemma filter_name_prefix:
  assumes "length sid = length pid"
  shows "HasPrefix (pipelineFilterName sid plan) (''pf-'' @ pid @ ''-'') \<longleftrightarrow> sid = pid"
  using assms
  by (auto simp: HasPrefix_def pipelineFilterName_def prefix_def append_eq_append_conv)

text \<open>The entries a snapshot of the HTTP client has; the hints come last.\<close>

lemma http_snapshot_fields:
  assumes "http_ConfigurationSnapshot out c = Some (c', Inr snap)"
  obtains fs bs cs hints where
    "snap = [(''mode'', AStr ''http''), (''configurationApiBaseURL'', AStr (hc_base c')),
       (''filters'', AArr fs), (''filtersCount'', AInt (int (length fs))), (''broadcasters'', AArr bs),
       (''broadcastersCount'', AInt (int (length bs))), (''broadcasterConfigurations'', AArr cs),
       (''broadcasterConfigurationsCount'', AInt (int (length cs))), (''egressProvisionSkipped'', ABool (hc_skipEgress c')),
       (''orchestratorSessions'', AArr (map (\<lambda>p. AObj (session_row p)) (sort_key fst (hc_sess c')))),
       (''orchestratorSessionsCount'', AInt (int (length (hc_sess c'))))] @ hints"
    "hints = [] \<or> (\<exists>h. hints = [(''snapshotHints'', h)])"
proof -
  obtain c3 fs bs cs c4 where r: "lock c3 = Some c4" "c' = unlock c4"
    "snap = appendNaryoSnapshotHints (hc_skipEgress c4) (length fs) (length bs) (map session_row (sort_key fst (hc_sess c4)))
       [(''mode'', AStr ''http''), (''configurationApiBaseURL'', AStr (hc_base c4)),
        (''filters'', AArr (map row_any fs)), (''filtersCount'', AInt (int (length fs))),
        (''broadcasters'', AArr (map row_any bs)), (''broadcastersCount'', AInt (int (length bs))),
        (''broadcasterConfigurations'', AArr (map row_any cs)),
        (''broadcasterConfigurationsCount'', AInt (int (length cs))), (''egressProvisionSkipped'', ABool (hc_skipEgress c4)),
        (''orchestratorSessions'', AArr (map AObj (map session_row (sort_key fst (hc_sess c4))))),
        (''orchestratorSessionsCount'', AInt (int (length (map session_row (sort_key fst (hc_sess c4))))))]"
    using assms unfolding http_ConfigurationSnapshot_def Let_def
    by (auto simp only: bind_eq_Some_conv split: prod.splits sum.splits option.splits)
  show thesis
    by (rule that [of "map row_any fs" "map row_any bs" "map row_any cs" "drop 11 snap"])
       (simp_all add: r unlock_def appendNaryoSnapshotHints_def Let_def set_field_def)
qed

text \<open>
  C39: the view of one pipeline.  Of the sessions the client tracks it shows exactly the one with this
  id, and counts it; of the filters Naryo lists it shows only listed ones, and of those that
  provisioning named for a session with an id of the same length (all ids have 16 characters) exactly
  this session's.
\<close>

theorem narrowed_snapshot_is_own:
  assumes "http_ConfigurationSnapshot out c = Some (c', Inr snap)" "length sid = length pid"
  shows "\<exists>all shown. field snap ''filters'' = AArr all \<and>
    field (narrowNaryoSnapshotForPipeline snap pid) ''filters'' = slice_json shown \<and> set shown \<subseteq> set all \<and>
    (\<forall>m plan. AObj m \<in> set all \<longrightarrow> string_or_empty (field m ''name'') = pipelineFilterName sid plan \<longrightarrow>
       (AObj m \<in> set shown \<longleftrightarrow> sid = pid)) \<and>
    (let own = filter (\<lambda>p. fst p = pid) (sort_key fst (hc_sess c')) in
       field (narrowNaryoSnapshotForPipeline snap pid) ''orchestratorSessions'' =
         slice_json (map (\<lambda>p. AObj (session_row p)) own) \<and>
       field (narrowNaryoSnapshotForPipeline snap pid) ''orchestratorSessionsCount'' = AInt (int (length own)))"
proof -
  obtain fs bs cs hints where snap: "snap = [(''mode'', AStr ''http''), (''configurationApiBaseURL'', AStr (hc_base c')),
       (''filters'', AArr fs), (''filtersCount'', AInt (int (length fs))), (''broadcasters'', AArr bs),
       (''broadcastersCount'', AInt (int (length bs))), (''broadcasterConfigurations'', AArr cs),
       (''broadcasterConfigurationsCount'', AInt (int (length cs))), (''egressProvisionSkipped'', ABool (hc_skipEgress c')),
       (''orchestratorSessions'', AArr (map (\<lambda>p. AObj (session_row p)) (sort_key fst (hc_sess c')))),
       (''orchestratorSessionsCount'', AInt (int (length (hc_sess c'))))] @ hints"
    and hints: "hints = [] \<or> (\<exists>h. hints = [(''snapshotHints'', h)])"
    by (rule http_snapshot_fields [OF assms(1)])
  have own: "filterOrchestratorSessionsForPipeline (AArr (map (\<lambda>p. AObj (session_row p)) xs)) pid =
      map (\<lambda>p. AObj (session_row p)) (filter (\<lambda>p. fst p = pid) xs)" for xs
    by (induction xs) (auto simp: filterOrchestratorSessionsForPipeline_def select_rows_def session_row_def field_def
        string_or_empty_def split: prod.split)
  define shown where
    "shown = select_rows (\<lambda>m. HasPrefix (string_or_empty (field m ''name'')) (''pf-'' @ pid @ ''-'')) fs"
  have "field snap ''filters'' = AArr fs" by (simp add: snap field_def)
  moreover have "field (narrowNaryoSnapshotForPipeline snap pid) ''filters'' = slice_json shown"
    using hints
    by (auto simp: narrowNaryoSnapshotForPipeline_def Let_def snap narrow_entry_def field_set_field filterSnapshotFilters_def
        shown_def)
  moreover have "set shown \<subseteq> set fs" by (auto simp: shown_def select_rows_def)
  moreover have "AObj m \<in> set shown \<longleftrightarrow> sid = pid"
    if "AObj m \<in> set fs" "string_or_empty (field m ''name'') = pipelineFilterName sid plan" for m plan
    using that filter_name_prefix [OF assms(2), of plan] by (simp add: shown_def select_rows_def)
  moreover have "field (narrowNaryoSnapshotForPipeline snap pid) ''orchestratorSessions'' =
      slice_json (map (\<lambda>p. AObj (session_row p)) (filter (\<lambda>p. fst p = pid) (sort_key fst (hc_sess c'))))"
    "field (narrowNaryoSnapshotForPipeline snap pid) ''orchestratorSessionsCount'' =
      AInt (int (length (filter (\<lambda>p. fst p = pid) (sort_key fst (hc_sess c')))))"
    using hints
    by (auto simp: narrowNaryoSnapshotForPipeline_def Let_def snap narrow_entry_def field_set_field own)
  ultimately show ?thesis by (intro exI [of _ fs] exI [of _ shown]) (simp add: Let_def)
qed

theorem narrowed_snapshot_is_own_witness:
  "\<exists>c' snap. http_ConfigurationSnapshot demo_outside (naryo http_started) = Some (c', Inr snap) \<and>
     field (narrowNaryoSnapshotForPipeline snap http_sid) ''orchestratorSessionsCount'' = AInt 1"
proof -
  have "case http_ConfigurationSnapshot demo_outside (naryo http_started) of
      Some (c', Inr snap) \<Rightarrow> map fst (hc_sess c') = [http_sid] | _ \<Rightarrow> False" by code_simp
  then obtain c' snap where h: "http_ConfigurationSnapshot demo_outside (naryo http_started) = Some (c', Inr snap)"
    "map fst (hc_sess c') = [http_sid]" 
    by (cases "http_ConfigurationSnapshot demo_outside (naryo http_started)") (auto split: sum.split_asm)
  from h(2) obtain st where "hc_sess c' = [(http_sid, st)]" by auto
  with narrowed_snapshot_is_own [OF h(1), of http_sid http_sid] h(1) show ?thesis by auto
qed

end
