(* ===== verification/Hcs_Logger.thy ===== *)
theory Hcs_Logger
  imports Service Go_Time Json_Text "HOL-Library.Sublist" "HOL-Library.Multiset"
begin

text \<open>
  The audit log for the Hedera Consensus Service: the envelope and payload schemas
  (\<^verbatim>\<open>internal/hcs/schema.go\<close>), the logger (\<^verbatim>\<open>logger.go\<close>) that turns the service's notifications into
  JSON lines, and the bounded queue with its submit loop (\<^verbatim>\<open>submit.go\<close>).
\<close>

section \<open>Schema\<close>

definition SchemaVersion :: string where
  "SchemaVersion = ''1''"

text \<open>The fields with the option \<open>omitempty\<close>.\<close>

definition omit_str :: "string \<Rightarrow> string \<Rightarrow> (string \<times> jval) list" where
  "omit_str k s = (if s = [] then [] else [(k, JStr s)])"

definition omit_int :: "string \<Rightarrow> int \<Rightarrow> (string \<times> jval) list" where
  "omit_int k n = (if n = 0 then [] else [(k, JInt n)])"

text \<open>
  An envelope; its payload is the tree whose encoding is the raw message.  Every payload is an
  object, so the raw message is never empty.
\<close>

record Envelope =
  ev_SchemaVersion :: string
  ev_EventType :: string
  ev_Timestamp :: string
  ev_SessionID :: string
  ev_Payload :: jval

definition envelope_json :: "Envelope \<Rightarrow> jval" where
  "envelope_json e =
     JObj ([(''schemaVersion'', JStr (ev_SchemaVersion e)), (''eventType'', JStr (ev_EventType e)),
            (''timestamp'', JStr (ev_Timestamp e))] @
           omit_str ''sessionId'' (ev_SessionID e) @ [(''payload'', ev_Payload e)])"

definition PayloadPipelineCreated :: "string \<Rightarrow> jval" where
  "PayloadPipelineCreated agentID = JObj [(''agentId'', JStr agentID)]"

definition PayloadPipelineStarted :: "string \<Rightarrow> string \<Rightarrow> jval" where
  "PayloadPipelineStarted agentID naryoOpID =
     JObj (omit_str ''agentId'' agentID @ [(''naryoOpId'', JStr naryoOpID)])"

definition PayloadPipelineReconfigured :: "int \<Rightarrow> jval" where
  "PayloadPipelineReconfigured phase = JObj [(''phase'', JInt phase)]"

definition PayloadBillingTick :: "int \<Rightarrow> int \<Rightarrow> jval" where
  "PayloadBillingTick billedSeconds rateCentsPerSecond =
     JObj [(''billedSeconds'', JInt billedSeconds), (''rateCentsPerSecond'', JInt rateCentsPerSecond)]"

definition PayloadBillingSummary :: "string \<Rightarrow> BillingSummaryArgs \<Rightarrow> jval" where
  "PayloadBillingSummary pipelineID a =
     JObj ([(''pipelineId'', JStr pipelineID), (''agentId'', JStr (bs_AgentID a)),
            (''runtimeSeconds'', JInt (bs_RuntimeSeconds a)),
            (''amountChargedUnits'', JInt (bs_AmountChargedUnits a)),
            (''remainingBalanceUnits'', JInt (bs_RemainingBalanceUnits a)),
            (''summaryWindowMinutes'', JInt (bs_SummaryWindowMinutes a))] @
           omit_str ''configHash'' (bs_ConfigHash a))"

definition PayloadAgentTopUp :: "AgentTopUpArgs \<Rightarrow> jval" where
  "PayloadAgentTopUp a =
     JObj ([(''agentId'', JStr (tu_AgentID a)), (''amountUnits'', JInt (tu_AmountUnits a)),
            (''source'', JStr (tu_Source a))] @
           omit_str ''sourceTxId'' (tu_SourceTxID a) @ omit_str ''asset'' (tu_Asset a))"

definition PayloadStartRejectedInsufficient :: "string \<Rightarrow> int \<Rightarrow> int \<Rightarrow> jval" where
  "PayloadStartRejectedInsufficient agentID requiredUnits remainingUnits =
     JObj [(''agentId'', JStr agentID), (''requiredUnits'', JInt requiredUnits),
           (''remainingBalanceUnits'', JInt remainingUnits)]"

definition PayloadPipelinePaused :: "string \<Rightarrow> int \<Rightarrow> jval" where
  "PayloadPipelinePaused reason remainingBalanceUnits =
     JObj (omit_str ''reason'' reason @ omit_int ''remainingBalanceUnits'' remainingBalanceUnits)"

definition emptyPayload :: jval where
  "emptyPayload = JObj []"

definition FormatTimestamp :: "gotime \<Rightarrow> string" where
  "FormatTimestamp t = RFC3339Nano t"

section \<open>The logger\<close>

text \<open>
  \<open>lg_lines\<close> are the messages handed to slog.  The channel is \<open>None\<close> when no topic is configured, else
  what it buffers; \<open>lg_now\<close> is the reading of the clock.  A nil logger is \<open>None\<close>.
\<close>

record hcs_logger =
  lg_lines :: "string list"
  lg_now :: gotime
  lg_topicSubmitter :: bool
  lg_topicID :: string
  lg_hcsQueue :: "string list option"

definition hcsQueueCap :: nat where
  "hcsQueueCap = 256"

definition WithHCSTopic :: "bool \<Rightarrow> string \<Rightarrow> hcs_logger \<Rightarrow> hcs_logger" where
  "WithHCSTopic sub topic l =
     (if \<not> sub \<or> topic = [] then l
      else l\<lparr>lg_topicSubmitter := True, lg_topicID := topic, lg_hcsQueue := Some []\<rparr>)"

definition NewLogger :: "(hcs_logger \<Rightarrow> hcs_logger) list \<Rightarrow> hcs_logger" where
  "NewLogger opts =
     foldl (\<lambda>l opt. opt l)
       \<lparr>lg_lines = [], lg_now = 0, lg_topicSubmitter = False, lg_topicID = [], lg_hcsQueue = None\<rparr> opts"

text \<open>The submit loop runs when there is a queue and a submitter.\<close>

definition loop_started :: "hcs_logger \<Rightarrow> bool" where
  "loop_started l \<longleftrightarrow> lg_hcsQueue l \<noteq> None \<and> lg_topicSubmitter l"

text \<open>The send never blocks: a full queue drops the new message.\<close>

definition enqueueHCSPayload :: "hcs_logger \<Rightarrow> string \<Rightarrow> hcs_logger" where
  "enqueueHCSPayload l b =
     (case lg_hcsQueue l of
        None \<Rightarrow> l
      | Some q \<Rightarrow> if length q < hcsQueueCap then l\<lparr>lg_hcsQueue := Some (q @ [b])\<rparr> else l)"

definition envelope :: "hcs_logger \<Rightarrow> string \<Rightarrow> string \<Rightarrow> jval \<Rightarrow> Envelope" where
  "envelope l eventType sessionID payload =
     \<lparr>ev_SchemaVersion = SchemaVersion, ev_EventType = eventType, ev_Timestamp = FormatTimestamp (lg_now l),
      ev_SessionID = sessionID, ev_Payload = payload\<rparr>"

text \<open>
  \<open>emit\<close> marshals and logs, then enqueues; no lock spans the two, so other callers and the submit loop
  run in between.  \<open>emit_envelope\<close>, and each method ending with it, is the part up to the log line and
  returns the payload; enqueueing that payload is a step of its own, \<open>enqueueHCSPayload\<close>.
\<close>

definition emit_envelope :: "hcs_logger \<Rightarrow> Envelope \<Rightarrow> hcs_logger \<times> string" where
  "emit_envelope l env = (let b = enc (envelope_json env) in (l\<lparr>lg_lines := lg_lines l @ [b]\<rparr>, b))"

text \<open>The methods, on a logger that is not nil.\<close>

definition logPipelineCreated :: "hcs_logger \<Rightarrow> string \<Rightarrow> string \<Rightarrow> hcs_logger \<times> string" where
  "logPipelineCreated l sid agentID =
     emit_envelope l (envelope l ''pipeline_created'' sid (PayloadPipelineCreated agentID))"

definition logPipelineStarted :: "hcs_logger \<Rightarrow> string \<Rightarrow> string \<Rightarrow> string \<Rightarrow> hcs_logger \<times> string" where
  "logPipelineStarted l sid agentID naryoOpID =
     emit_envelope l (envelope l ''pipeline_started'' sid (PayloadPipelineStarted agentID naryoOpID))"

definition logPipelinePaused :: "hcs_logger \<Rightarrow> string \<Rightarrow> string \<Rightarrow> int \<Rightarrow> hcs_logger \<times> string" where
  "logPipelinePaused l sid reason remaining =
     (if reason = [] \<and> remaining = 0
      then emit_envelope l (envelope l ''pipeline_paused'' sid emptyPayload)
      else emit_envelope l (envelope l ''pipeline_paused'' sid (PayloadPipelinePaused reason remaining)))"

definition logPipelineResumed :: "hcs_logger \<Rightarrow> string \<Rightarrow> hcs_logger \<times> string" where
  "logPipelineResumed l sid = emit_envelope l (envelope l ''pipeline_resumed'' sid emptyPayload)"

definition logPipelineStopped :: "hcs_logger \<Rightarrow> string \<Rightarrow> hcs_logger \<times> string" where
  "logPipelineStopped l sid = emit_envelope l (envelope l ''pipeline_stopped'' sid emptyPayload)"

definition logPipelineReconfigured :: "hcs_logger \<Rightarrow> string \<Rightarrow> int \<Rightarrow> hcs_logger \<times> string" where
  "logPipelineReconfigured l sid phase =
     emit_envelope l (envelope l ''pipeline_reconfigured'' sid (PayloadPipelineReconfigured phase))"

definition logBillingTick :: "hcs_logger \<Rightarrow> string \<Rightarrow> int \<Rightarrow> int \<Rightarrow> hcs_logger \<times> string" where
  "logBillingTick l sid billedSeconds rateCentsPerSecond =
     emit_envelope l (envelope l ''billing_tick'' sid (PayloadBillingTick billedSeconds rateCentsPerSecond))"

definition logPaymentStreamStarted :: "hcs_logger \<Rightarrow> string \<Rightarrow> hcs_logger \<times> string" where
  "logPaymentStreamStarted l sid = emit_envelope l (envelope l ''payment_stream_started'' sid emptyPayload)"

definition logPaymentStreamStalled :: "hcs_logger \<Rightarrow> string \<Rightarrow> hcs_logger \<times> string" where
  "logPaymentStreamStalled l sid = emit_envelope l (envelope l ''payment_stream_stalled'' sid emptyPayload)"

definition logPaymentStreamTerminated :: "hcs_logger \<Rightarrow> string \<Rightarrow> hcs_logger \<times> string" where
  "logPaymentStreamTerminated l sid =
     emit_envelope l (envelope l ''payment_stream_terminated'' sid emptyPayload)"

definition logBillingSummary :: "hcs_logger \<Rightarrow> string \<Rightarrow> BillingSummaryArgs \<Rightarrow> hcs_logger \<times> string" where
  "logBillingSummary l sid args =
     emit_envelope l (envelope l ''billing_summary'' sid (PayloadBillingSummary sid args))"

definition logAgentTopUp :: "hcs_logger \<Rightarrow> AgentTopUpArgs \<Rightarrow> hcs_logger \<times> string" where
  "logAgentTopUp l args = emit_envelope l (envelope l ''agent_top_up'' [] (PayloadAgentTopUp args))"

definition logStartRejectedInsufficientPrepaid ::
  "hcs_logger \<Rightarrow> string \<Rightarrow> string \<Rightarrow> int \<Rightarrow> int \<Rightarrow> hcs_logger \<times> string" where
  "logStartRejectedInsufficientPrepaid l sid agentID requiredUnits remainingUnits =
     emit_envelope l (envelope l ''start_rejected_insufficient_prepaid'' sid
       (PayloadStartRejectedInsufficient agentID requiredUnits remainingUnits))"

fun log_method :: "hcs_logger \<Rightarrow> hcs_call \<Rightarrow> hcs_logger \<times> string" where
  "log_method l (PipelineCreated sid a) = logPipelineCreated l sid a"
| "log_method l (PipelineStarted sid a opID) = logPipelineStarted l sid a opID"
| "log_method l (PipelinePaused sid reason n) = logPipelinePaused l sid reason n"
| "log_method l (PipelineResumed sid) = logPipelineResumed l sid"
| "log_method l (PipelineStopped sid) = logPipelineStopped l sid"
| "log_method l (PipelineReconfigured sid n) = logPipelineReconfigured l sid n"
| "log_method l (BillingTickCall sid n r) = logBillingTick l sid n r"
| "log_method l (BillingSummary sid args) = logBillingSummary l sid args"
| "log_method l (AgentTopUp args) = logAgentTopUp l args"
| "log_method l (StartRejectedInsufficientPrepaid sid a m n) = logStartRejectedInsufficientPrepaid l sid a m n"
| "log_method l (PaymentStreamStarted sid) = logPaymentStreamStarted l sid"
| "log_method l (PaymentStreamStalled sid) = logPaymentStreamStalled l sid"
| "log_method l (PaymentStreamTerminated sid) = logPaymentStreamTerminated l sid"

section \<open>What a line says\<close>

fun event_type :: "hcs_call \<Rightarrow> string" where
  "event_type (PipelineCreated _ _) = ''pipeline_created''"
| "event_type (PipelineStarted _ _ _) = ''pipeline_started''"
| "event_type (PipelinePaused _ _ _) = ''pipeline_paused''"
| "event_type (PipelineResumed _) = ''pipeline_resumed''"
| "event_type (PipelineStopped _) = ''pipeline_stopped''"
| "event_type (PipelineReconfigured _ _) = ''pipeline_reconfigured''"
| "event_type (BillingTickCall _ _ _) = ''billing_tick''"
| "event_type (BillingSummary _ _) = ''billing_summary''"
| "event_type (AgentTopUp _) = ''agent_top_up''"
| "event_type (StartRejectedInsufficientPrepaid _ _ _ _) = ''start_rejected_insufficient_prepaid''"
| "event_type (PaymentStreamStarted _) = ''payment_stream_started''"
| "event_type (PaymentStreamStalled _) = ''payment_stream_stalled''"
| "event_type (PaymentStreamTerminated _) = ''payment_stream_terminated''"

fun call_session :: "hcs_call \<Rightarrow> string" where
  "call_session (PipelineCreated sid _) = sid"
| "call_session (PipelineStarted sid _ _) = sid"
| "call_session (PipelinePaused sid _ _) = sid"
| "call_session (PipelineResumed sid) = sid"
| "call_session (PipelineStopped sid) = sid"
| "call_session (PipelineReconfigured sid _) = sid"
| "call_session (BillingTickCall sid _ _) = sid"
| "call_session (BillingSummary sid _) = sid"
| "call_session (AgentTopUp _) = []"
| "call_session (StartRejectedInsufficientPrepaid sid _ _ _) = sid"
| "call_session (PaymentStreamStarted sid) = sid"
| "call_session (PaymentStreamStalled sid) = sid"
| "call_session (PaymentStreamTerminated sid) = sid"

fun call_payload :: "hcs_call \<Rightarrow> jval" where
  "call_payload (PipelineCreated _ a) = PayloadPipelineCreated a"
| "call_payload (PipelineStarted _ a opID) = PayloadPipelineStarted a opID"
| "call_payload (PipelinePaused _ reason n) = PayloadPipelinePaused reason n"
| "call_payload (PipelineReconfigured _ n) = PayloadPipelineReconfigured n"
| "call_payload (BillingTickCall _ n r) = PayloadBillingTick n r"
| "call_payload (BillingSummary sid args) = PayloadBillingSummary sid args"
| "call_payload (AgentTopUp args) = PayloadAgentTopUp args"
| "call_payload (StartRejectedInsufficientPrepaid _ a m n) = PayloadStartRejectedInsufficient a m n"
| "call_payload _ = JObj []"

definition call_line :: "gotime \<times> hcs_call \<Rightarrow> string" where
  "call_line tc = (case tc of (t, c) \<Rightarrow> enc (envelope_json
     \<lparr>ev_SchemaVersion = SchemaVersion, ev_EventType = event_type c, ev_Timestamp = FormatTimestamp t,
      ev_SessionID = call_session c, ev_Payload = call_payload c\<rparr>))"

lemmas log_defs = logPipelineCreated_def logPipelineStarted_def logPipelinePaused_def logPipelineResumed_def
  logPipelineStopped_def logPipelineReconfigured_def logBillingTick_def logBillingSummary_def logAgentTopUp_def
  logStartRejectedInsufficientPrepaid_def logPaymentStreamStarted_def logPaymentStreamStalled_def
  logPaymentStreamTerminated_def

lemmas payload_defs = PayloadPipelineCreated_def PayloadPipelineStarted_def PayloadPipelineReconfigured_def
  PayloadBillingTick_def PayloadBillingSummary_def PayloadAgentTopUp_def PayloadStartRejectedInsufficient_def
  PayloadPipelinePaused_def

lemma log_method_line:
  "log_method l c = (l\<lparr>lg_lines := lg_lines l @ [call_line (lg_now l, c)]\<rparr>, call_line (lg_now l, c))"
  by (cases c)
     (simp_all add: log_defs emit_envelope_def envelope_def call_line_def Let_def emptyPayload_def
       PayloadPipelinePaused_def omit_str_def omit_int_def)

lemma depth_call: "depth (call_payload c) \<le> 1"
  by (cases c) (simp_all add: payload_defs omit_str_def omit_int_def)

lemma dec_int_ascii: "ascii (dec_int n)"
  by (auto simp: dec_int_def is_digit_def ascii_def list_all_iff dest!: is_digit_dec)

lemma pad_ascii: "ascii (pad n v)"
  using dec_int_ascii [of v] by (auto simp: pad_def pad_left_def ascii_def list_all_iff)

lemma fraction_ascii: "ascii (fraction_text ns)"
proof -
  have "set (dropWhile P xs) \<subseteq> set xs" for P and xs :: string by (auto dest: set_dropWhileD)
  then have "ascii (rev (dropWhile P (rev s)))" if "ascii s" for P s
    using that unfolding ascii_def list_all_iff set_rev by (metis set_rev subsetD)
  then show ?thesis using pad_ascii [of 9 ns] by (simp add: fraction_text_def Let_def)
qed

lemma RFC3339Nano_ascii: "ascii (RFC3339Nano t)"
  by (simp add: RFC3339Nano_def Let_def pad_ascii fraction_ascii split_beta)

lemma event_type_ascii: "ascii (event_type call)"
  by (cases call) simp_all

section \<open>The queue and the submit loop\<close>

text \<open>
  The logger together with the goroutines that use it.  \<open>hr_flight\<close> holds what callers have logged and
  not yet enqueued, at most one payload for each of them (a caller is a goroutine, named by a number).
  \<open>hr_taken\<close> is the payload the goroutine of \<open>hcsSubmitLoop\<close> has received and is submitting,
  \<open>hr_attempts\<close> the topic and text of the submissions that returned.  A failed submission is logged and
  not repeated, so it leaves the same state as a successful one: these are attempts, not messages the
  network is known to have accepted.
\<close>

record hcs_run =
  hr_logger :: hcs_logger
  hr_flight :: "(nat \<times> string) list"
  hr_taken :: "string option"
  hr_attempts :: "(string \<times> string) list"

text \<open>The two steps of a call: caller \<open>k\<close> logs at a time \<open>t\<close>; later its payload is sent to the channel.\<close>

definition run_log :: "hcs_run \<Rightarrow> nat \<Rightarrow> gotime \<times> hcs_call \<Rightarrow> hcs_run" where
  "run_log r k tc = (case log_method ((hr_logger r)\<lparr>lg_now := fst tc\<rparr>) (snd tc) of
     (l, b) \<Rightarrow> r\<lparr>hr_logger := l, hr_flight := hr_flight r @ [(k, b)]\<rparr>)"

definition run_enqueue :: "hcs_run \<Rightarrow> nat \<times> string \<Rightarrow> hcs_run" where
  "run_enqueue r x =
     r\<lparr>hr_logger := enqueueHCSPayload (hr_logger r) (snd x), hr_flight := remove1 x (hr_flight r)\<rparr>"

text \<open>
  One step of the loop: it receives when it holds nothing, and otherwise its submission returns.
  \<open>None\<close>: the loop waits, or it was never started.
\<close>

definition hcsSubmitLoop_step :: "hcs_run \<Rightarrow> hcs_run option" where
  "hcsSubmitLoop_step r =
     (if \<not> loop_started (hr_logger r) then None
      else case hr_taken r of
          Some b \<Rightarrow> Some (r\<lparr>hr_taken := None, hr_attempts := hr_attempts r @ [(lg_topicID (hr_logger r), b)]\<rparr>)
        | None \<Rightarrow>
            (case lg_hcsQueue (hr_logger r) of
               Some (b # q) \<Rightarrow>
                 Some (r\<lparr>hr_logger := (hr_logger r)\<lparr>lg_hcsQueue := Some q\<rparr>, hr_taken := Some b\<rparr>)
             | _ \<Rightarrow> None))"

text \<open>
  The interleavings of the callers with one another and with the loop, from a fresh logger with a
  topic; the first argument lists the notifications in the order they were logged, each with its
  caller.
\<close>

inductive hcs_exec :: "string \<Rightarrow> (nat \<times> gotime \<times> hcs_call) list \<Rightarrow> hcs_run \<Rightarrow> bool" for topic where
  start: "hcs_exec topic []
    \<lparr>hr_logger = NewLogger [WithHCSTopic True topic], hr_flight = [], hr_taken = None, hr_attempts = []\<rparr>"
| log: "hcs_exec topic tcs r \<Longrightarrow> k \<notin> fst ` set (hr_flight r) \<Longrightarrow> hcs_exec topic (tcs @ [(k, tc)]) (run_log r k tc)"
| enqueue: "hcs_exec topic tcs r \<Longrightarrow> x \<in> set (hr_flight r) \<Longrightarrow> hcs_exec topic tcs (run_enqueue r x)"
| loop: "hcs_exec topic tcs r \<Longrightarrow> hcsSubmitLoop_step r = Some r' \<Longrightarrow> hcs_exec topic tcs r'"

definition queued :: "hcs_run \<Rightarrow> string list" where
  "queued r = (case lg_hcsQueue (hr_logger r) of None \<Rightarrow> [] | Some q \<Rightarrow> q)"

text \<open>What left the logger or is on its way to the topic, oldest first.\<close>

definition outbound :: "hcs_run \<Rightarrow> string list" where
  "outbound r = map snd (hr_attempts r) @ (case hr_taken r of None \<Rightarrow> [] | Some b \<Rightarrow> [b]) @ queued r"

definition has_topic :: "string \<Rightarrow> hcs_run \<Rightarrow> bool" where
  "has_topic topic r \<longleftrightarrow> loop_started (hr_logger r) \<and> lg_topicID (hr_logger r) = topic \<and>
     (\<forall>x \<in> set (hr_attempts r). fst x = topic)"

text \<open>The lines of the log with their callers, and those of one caller.\<close>

definition labelled :: "(nat \<times> gotime \<times> hcs_call) list \<Rightarrow> (nat \<times> string) list" where
  "labelled tcs = map (map_prod id call_line) tcs"

definition of_caller :: "nat \<Rightarrow> (nat \<times> string) list \<Rightarrow> string list" where
  "of_caller k xs = map snd (filter (\<lambda>x. fst x = k) xs)"

lemma of_caller_simps [simp]:
  "of_caller k [] = []" "of_caller k (xs @ ys) = of_caller k xs @ of_caller k ys"
  "of_caller k ((j, b) # xs) = (if j = k then b # of_caller k xs else of_caller k xs)"
  by (simp_all add: of_caller_def)

lemma labelled_simps [simp]:
  "labelled [] = []" "labelled (tcs @ [(k, tc)]) = labelled tcs @ [(k, call_line tc)]"
  "map snd (labelled tcs) = map (\<lambda>x. call_line (snd x)) tcs" "length (labelled tcs) = length tcs"
  by (simp_all add: labelled_def split_beta)

lemma of_caller_absent: "k \<notin> fst ` set xs \<Longrightarrow> of_caller k xs = []"
  by (auto simp: of_caller_def filter_empty_conv)

text \<open>With one payload in flight for each caller, taking one out empties its caller's part only.\<close>

lemma of_caller_remove1:
  assumes "distinct (map fst fl)" "(k, b) \<in> set fl"
  shows "of_caller j fl = (if j = k then [b] else of_caller j (remove1 (k, b) fl))"
    "k \<notin> fst ` set (remove1 (k, b) fl)"
proof -
  obtain xs ys where fl: "fl = xs @ (k, b) # ys" "(k, b) \<notin> set xs" using split_list_first [OF assms(2)] by blast
  then have r: "remove1 (k, b) fl = xs @ ys" by (simp add: remove1_append)
  have k: "k \<notin> fst ` set xs" "k \<notin> fst ` set ys" using assms(1) fl by auto
  show "of_caller j fl = (if j = k then [b] else of_caller j (remove1 (k, b) fl))"
    unfolding r using k by (simp add: fl(1) of_caller_absent)
  show "k \<notin> fst ` set (remove1 (k, b) fl)" using k unfolding r by auto
qed

lemma distinct_remove1_fst: "distinct (map fst fl) \<Longrightarrow> distinct (map fst (remove1 x fl))"
  by (induction fl) (auto dest: notin_set_remove1 set_remove1_subset [THEN subsetD])

lemma same_callers_mset:
  assumes "\<And>k. of_caller k xs = of_caller k ys"
  shows "mset (map snd xs) = mset (map snd ys)"
proof -
  have "filter (\<lambda>x. fst x = k) zs = map (Pair k) (of_caller k zs)" for k and zs :: "(nat \<times> string) list"
    by (induction zs) (auto simp: of_caller_def)
  then have f: "filter (\<lambda>x. fst x = k) xs = filter (\<lambda>x. fst x = k) ys" for k using assms by simp
  have "count (mset zs) (k, b) = count (mset (filter (\<lambda>x. fst x = k) zs)) (k, b)"
    for k b and zs :: "(nat \<times> string) list"
    by (simp add: mset_filter)
  then have "mset xs = mset ys" using f by (intro multiset_eqI) (metis surj_pair)
  then show ?thesis by (simp add: mset_map)
qed

section \<open>The invariant of the interleavings\<close>

text \<open>
  \<open>ls\<close> names the caller of each outbound payload.  A caller's outbound payloads, followed by the one it
  has in flight, are some of its lines in their order, and all of them when there were at most 256
  notifications.
\<close>

definition traced :: "(nat \<times> gotime \<times> hcs_call) list \<Rightarrow> hcs_run \<Rightarrow> (nat \<times> string) list \<Rightarrow> bool" where
  "traced tcs r ls \<longleftrightarrow> map snd ls = outbound r \<and>
     (\<forall>k. subseq (of_caller k (ls @ hr_flight r)) (of_caller k (labelled tcs))) \<and>
     (length tcs \<le> hcsQueueCap \<longrightarrow> (\<forall>k. of_caller k (ls @ hr_flight r) = of_caller k (labelled tcs)))"

definition hcs_inv :: "string \<Rightarrow> (nat \<times> gotime \<times> hcs_call) list \<Rightarrow> hcs_run \<Rightarrow> bool" where
  "hcs_inv topic tcs r \<longleftrightarrow> has_topic topic r \<and> lg_lines (hr_logger r) = map (\<lambda>x. call_line (snd x)) tcs \<and>
     length (queued r) \<le> hcsQueueCap \<and> length (outbound r) + length (hr_flight r) \<le> length tcs \<and>
     distinct (map fst (hr_flight r)) \<and> (\<exists>ls. traced tcs r ls)"

lemma run_log_eq:
  "run_log r k tc = r\<lparr>hr_logger := (hr_logger r)\<lparr>lg_now := fst tc, lg_lines := lg_lines (hr_logger r) @ [call_line tc]\<rparr>,
     hr_flight := hr_flight r @ [(k, call_line tc)]\<rparr>"
  by (simp add: run_log_def log_method_line)

lemma run_log_facts:
  "has_topic topic (run_log r k tc) = has_topic topic r" "queued (run_log r k tc) = queued r"
  "outbound (run_log r k tc) = outbound r" "hr_flight (run_log r k tc) = hr_flight r @ [(k, call_line tc)]"
  "lg_lines (hr_logger (run_log r k tc)) = lg_lines (hr_logger r) @ [call_line tc]"
  by (simp_all add: run_log_eq has_topic_def loop_started_def queued_def outbound_def)

lemma run_enqueue_facts:
  assumes "has_topic topic r"
  shows "has_topic topic (run_enqueue r x)" "lg_lines (hr_logger (run_enqueue r x)) = lg_lines (hr_logger r)"
    "hr_flight (run_enqueue r x) = remove1 x (hr_flight r)"
    "queued (run_enqueue r x) = (if length (queued r) < hcsQueueCap then queued r @ [snd x] else queued r)"
    "outbound (run_enqueue r x) = (if length (queued r) < hcsQueueCap then outbound r @ [snd x] else outbound r)"
proof -
  obtain q where q: "lg_hcsQueue (hr_logger r) = Some q" using assms by (auto simp: has_topic_def loop_started_def)
  show "has_topic topic (run_enqueue r x)" "lg_lines (hr_logger (run_enqueue r x)) = lg_lines (hr_logger r)"
    "hr_flight (run_enqueue r x) = remove1 x (hr_flight r)"
    "queued (run_enqueue r x) = (if length (queued r) < hcsQueueCap then queued r @ [snd x] else queued r)"
    "outbound (run_enqueue r x) = (if length (queued r) < hcsQueueCap then outbound r @ [snd x] else outbound r)"
    using assms q
    by (auto simp: run_enqueue_def enqueueHCSPayload_def has_topic_def loop_started_def outbound_def queued_def)
qed

lemma loop_facts:
  assumes "has_topic topic r" "hcsSubmitLoop_step r = Some r'"
  shows "has_topic topic r'" "lg_lines (hr_logger r') = lg_lines (hr_logger r)" "outbound r' = outbound r"
    "length (queued r') \<le> length (queued r)" "hr_flight r' = hr_flight r"
  using assms
  by (auto simp: hcsSubmitLoop_step_def has_topic_def loop_started_def outbound_def queued_def
      split: option.splits list.splits)

lemma queued_le_outbound: "length (queued r) \<le> length (outbound r)"
  by (simp add: outbound_def)

lemma traced_log:
  assumes "traced tcs r ls" "k \<notin> fst ` set (hr_flight r)"
  shows "traced (tcs @ [(k, tc)]) (run_log r k tc) ls"
proof -
  have "of_caller j (ls @ hr_flight (run_log r k tc)) = of_caller j (ls @ hr_flight r) @ of_caller j [(k, call_line tc)]"
    for j by (simp add: run_log_facts)
  moreover have "of_caller j (labelled (tcs @ [(k, tc)])) = of_caller j (labelled tcs) @ of_caller j [(k, call_line tc)]"
    for j by simp
  ultimately show ?thesis
    using assms unfolding traced_def run_log_facts(3) by (simp del: of_caller_simps labelled_simps add: list_emb_append_mono)
qed

text \<open>The new last outbound payload was in flight; its caller has nothing else in flight.\<close>

lemma traced_enqueue:
  assumes t: "traced tcs r ls" and r: "has_topic topic r" "distinct (map fst (hr_flight r))"
    "(k, b) \<in> set (hr_flight r)" "length (queued r) < hcsQueueCap"
  shows "traced tcs (run_enqueue r (k, b)) (ls @ [(k, b)])"
proof -
  have "of_caller j ((ls @ [(k, b)]) @ remove1 (k, b) (hr_flight r)) = of_caller j (ls @ hr_flight r)" for j
    using of_caller_remove1(1) [OF r(2,3), of j] of_caller_absent [OF of_caller_remove1(2) [OF r(2,3)]] by auto
  then show ?thesis using t r(4) by (simp add: traced_def run_enqueue_facts [OF r(1)])
qed

text \<open>A full queue drops the payload: 256 wait and one was in flight, so there were more notifications.\<close>

lemma traced_drop:
  assumes t: "traced tcs r ls" and r: "has_topic topic r" "distinct (map fst (hr_flight r))"
    "(k, b) \<in> set (hr_flight r)" "\<not> length (queued r) < hcsQueueCap" "\<not> length tcs \<le> hcsQueueCap"
  shows "traced tcs (run_enqueue r (k, b)) ls"
proof -
  have "subseq (of_caller j (remove1 (k, b) (hr_flight r))) (of_caller j (hr_flight r))" for j
    using of_caller_remove1(1) [OF r(2,3), of j] of_caller_absent [OF of_caller_remove1(2) [OF r(2,3)]] by auto
  then have "subseq (of_caller j (ls @ remove1 (k, b) (hr_flight r))) (of_caller j (ls @ hr_flight r))" for j
    by (simp add: list_emb_append_mono)
  then show ?thesis
    using t r(4,5) unfolding traced_def by (auto simp: run_enqueue_facts [OF r(1)] intro: subseq_order.trans)
qed

lemma hcs_exec_inv: "hcs_exec topic tcs r \<Longrightarrow> topic \<noteq> [] \<Longrightarrow> hcs_inv topic tcs r"
proof (induction rule: hcs_exec.induct)
  case start
  then show ?case
    by (auto simp: hcs_inv_def has_topic_def loop_started_def NewLogger_def WithHCSTopic_def outbound_def queued_def
        traced_def intro!: exI [of _ "[]"])
next
  case (log tcs r k tc)
  then show ?case
    by (auto simp: hcs_inv_def run_log_facts intro: traced_log)
next
  case (enqueue tcs r x)
  obtain k b where x: "x = (k, b)" by (cases x)
  obtain ls where i: "has_topic topic r" "traced tcs r ls" "distinct (map fst (hr_flight r))"
    "length (outbound r) + length (hr_flight r) \<le> length tcs" "length (queued r) \<le> hcsQueueCap"
    "lg_lines (hr_logger r) = map (\<lambda>x. call_line (snd x)) tcs"
    using enqueue by (auto simp: hcs_inv_def)
  note f = run_enqueue_facts [OF i(1)]
  have n: "Suc (length (remove1 (k, b) (hr_flight r))) = length (hr_flight r)"
    using enqueue(2) x by (auto simp: length_remove1 dest: length_pos_if_in_set)
  have "\<exists>ls'. traced tcs (run_enqueue r (k, b)) ls'"
  proof (cases "length (queued r) < hcsQueueCap")
    case True
    then show ?thesis using traced_enqueue [OF i(2,1,3)] enqueue(2) x by blast
  next
    case False
    then have "\<not> length tcs \<le> hcsQueueCap" using i(4) n queued_le_outbound [of r] by linarith
    with False show ?thesis using traced_drop [OF i(2,1,3)] enqueue(2) x by blast
  qed
  then show ?case using i n by (auto simp: hcs_inv_def f x distinct_remove1_fst)
next
  case (loop tcs r r')
  then have t: "has_topic topic r" by (simp add: hcs_inv_def)
  show ?case using loop_facts [OF t loop.hyps(2)] loop by (auto simp: hcs_inv_def traced_def)
qed

text \<open>With no further calls the loop empties the queue, two steps for each payload.\<close>

fun drain :: "nat \<Rightarrow> hcs_run \<Rightarrow> hcs_run" where
  "drain 0 r = r"
| "drain (Suc n) r = (case hcsSubmitLoop_step r of None \<Rightarrow> r | Some r' \<Rightarrow> drain n r')"

definition pending_steps :: "hcs_run \<Rightarrow> nat" where
  "pending_steps r = 2 * length (queued r) + (case hr_taken r of None \<Rightarrow> 0 | Some _ \<Rightarrow> 1)"

lemma drain_submits:
  "has_topic topic r \<Longrightarrow> pending_steps r \<le> n \<Longrightarrow> hr_attempts (drain n r) = map (Pair topic) (outbound r)"
proof (induction n arbitrary: r)
  case 0
  then have "hr_attempts r = map (Pair topic) (map snd (hr_attempts r))"
    by (auto simp: has_topic_def intro!: map_idI [symmetric])
  with 0 show ?case by (auto simp: pending_steps_def outbound_def split: option.splits)
next
  case (Suc n)
  show ?case
  proof (cases "hcsSubmitLoop_step r")
    case None
    then have "queued r = []" "hr_taken r = None"
      using Suc.prems(1) by (auto simp: hcsSubmitLoop_step_def has_topic_def queued_def split: option.splits list.splits)
    moreover have "hr_attempts r = map (Pair topic) (map snd (hr_attempts r))"
      using Suc.prems(1) by (auto simp: has_topic_def intro!: map_idI [symmetric])
    ultimately show ?thesis using None by (simp add: outbound_def)
  next
    case (Some r')
    note f = loop_facts [OF Suc.prems(1) Some]
    have "pending_steps r' \<le> n"
      using Some Suc.prems
      by (auto simp: hcsSubmitLoop_step_def pending_steps_def queued_def split: if_splits option.splits list.splits)
    with Suc.IH [OF f(1)] f(3) Some show ?thesis by simp
  qed
qed

lemma call_line_event:
  obtains m where "parse_whole (call_line (t, c)) = Some (AObj m)" "field m ''schemaVersion'' = AStr ''1''"
    "field m ''eventType'' = AStr (event_type c)" "field m ''timestamp'' = AStr (RFC3339Nano t)"
    "string_or_empty (field m ''sessionId'') = clean (call_session c)" "field m ''payload'' = tree_of (call_payload c)"
proof -
  let ?e = "\<lparr>ev_SchemaVersion = SchemaVersion, ev_EventType = event_type c, ev_Timestamp = FormatTimestamp t,
      ev_SessionID = call_session c, ev_Payload = call_payload c\<rparr>"
  let ?m = "[(''schemaVersion'', AStr ''1''), (''eventType'', AStr (event_type c)), (''timestamp'', AStr (RFC3339Nano t))] @
     (if call_session c = [] then [] else [(''sessionId'', AStr (clean (call_session c)))]) @
     [(''payload'', tree_of (call_payload c))]"
  have "depth (envelope_json ?e) \<le> 10000"
    using depth_call [of c] by (simp add: envelope_json_def omit_str_def)
  then have "parse_whole (call_line (t, c)) = Some (tree_of (envelope_json ?e))"
    unfolding call_line_def by (simp add: parse_whole_enc)
  also have "tree_of (envelope_json ?e) = AObj ?m"
    by (simp add: envelope_json_def omit_str_def SchemaVersion_def FormatTimestamp_def clean_ascii event_type_ascii
        RFC3339Nano_ascii)
  finally show thesis
    by (rule that) (simp_all add: field_def string_or_empty_def)
qed

section \<open>Properties\<close>

text \<open>
  C35: every notification of the service becomes one line of text that reads back as its envelope:
  the schema version, the type of the event, the time, the session and the payload, each string as
  it was given when it is UTF-8; no line contains a control character, so a line is a line; and the
  method hands exactly this line to the queue and changes nothing else of the logger.
\<close>

theorem log_line_roundtrip:
  "\<exists>m. parse_whole (call_line (t, c)) = Some (AObj m) \<and> field m ''schemaVersion'' = AStr ''1'' \<and>
     field m ''eventType'' = AStr (event_type c) \<and> field m ''timestamp'' = AStr (RFC3339Nano t) \<and>
     string_or_empty (field m ''sessionId'') = clean (call_session c) \<and>
     field m ''payload'' = tree_of (call_payload c) \<and>
     log_method (l\<lparr>lg_now := t\<rparr>) c =
       (l\<lparr>lg_now := t, lg_lines := lg_lines l @ [call_line (t, c)]\<rparr>, call_line (t, c)) \<and>
     list_all (\<lambda>x. 32 \<le> byte x) (call_line (t, c))"
proof -
  obtain m where "parse_whole (call_line (t, c)) = Some (AObj m)" "field m ''schemaVersion'' = AStr ''1''"
    "field m ''eventType'' = AStr (event_type c)" "field m ''timestamp'' = AStr (RFC3339Nano t)"
    "string_or_empty (field m ''sessionId'') = clean (call_session c)" "field m ''payload'' = tree_of (call_payload c)"
    by (rule call_line_event)
  moreover have "log_method (l\<lparr>lg_now := t\<rparr>) c =
      (l\<lparr>lg_now := t, lg_lines := lg_lines l @ [call_line (t, c)]\<rparr>, call_line (t, c))"
    by (simp add: log_method_line)
  moreover have "list_all (\<lambda>x. 32 \<le> byte x) (call_line (t, c))"
    by (auto simp: call_line_def list_all_iff dest: enc_no_control)
  ultimately show ?thesis by blast
qed

text \<open>
  C34: the topic receives each caller's lines in the order the caller logged them.  Whatever way the
  callers, each logging and then enqueueing, and the submit loop interleave: the log holds a line per
  notification, in the order of logging; at most 256 payloads wait; with \<open>ls\<close> naming the caller of each
  payload that was submitted, is being submitted or waits, the payloads of every caller, with the one
  it has logged but not enqueued last, are a subsequence of its lines; and up to 256 notifications
  nothing is lost, so these payloads are all its lines, and over all callers exactly the lines of the
  log.  With no further calls the loop attempts to submit all that waits, in the order of the queue.
  Payloads of different callers may be queued in another order than their lines were logged, as the
  witness shows.
\<close>

theorem topic_receives_log:
  assumes "hcs_exec topic tcs r" "topic \<noteq> []"
  shows "lg_lines (hr_logger r) = map (\<lambda>x. call_line (snd x)) tcs \<and> length (queued r) \<le> 256 \<and>
    (\<exists>ls. map snd ls = outbound r \<and>
       (\<forall>k. subseq (of_caller k (ls @ hr_flight r)) (of_caller k (labelled tcs))) \<and>
       (length tcs \<le> 256 \<longrightarrow> (\<forall>k. of_caller k (ls @ hr_flight r) = of_caller k (labelled tcs)))) \<and>
    (length tcs \<le> 256 \<longrightarrow> mset (outbound r @ map snd (hr_flight r)) = mset (lg_lines (hr_logger r))) \<and>
    hr_attempts (drain (pending_steps r) r) = map (Pair topic) (outbound r)"
proof -
  have i: "hcs_inv topic tcs r" by (rule hcs_exec_inv [OF assms])
  then obtain ls where ls: "traced tcs r ls" by (auto simp: hcs_inv_def)
  then have out: "map snd ls = outbound r" by (simp add: traced_def)
  have "mset (outbound r @ map snd (hr_flight r)) = mset (lg_lines (hr_logger r))" if "length tcs \<le> 256"
  proof -
    have "mset (map snd (ls @ hr_flight r)) = mset (map snd (labelled tcs))"
      using that ls by (intro same_callers_mset) (simp add: traced_def hcsQueueCap_def)
    then show ?thesis using i by (simp only: map_append out labelled_simps hcs_inv_def)
  qed
  moreover have "hr_attempts (drain (pending_steps r) r) = map (Pair topic) (outbound r)"
    using drain_submits [OF _ order_refl] i by (simp add: hcs_inv_def)
  ultimately show ?thesis using i ls unfolding hcs_inv_def traced_def hcsQueueCap_def by blast
qed

text \<open>
  Two callers log in one order and enqueue in the other: the log has the creation first, the topic
  the stop.
\<close>

lemma topic_receives_log_witness:
  "\<exists>r. hcs_exec ''0.0.7'' [(3, 0, PipelineCreated ''s'' ''a''), (2, 0, PipelineStopped ''p'')] r \<and>
     lg_lines (hr_logger r) = [call_line (0, PipelineCreated ''s'' ''a''), call_line (0, PipelineStopped ''p'')] \<and>
     hr_attempts (drain (pending_steps r) r) =
       [(''0.0.7'', call_line (0, PipelineStopped ''p'')), (''0.0.7'', call_line (0, PipelineCreated ''s'' ''a''))]"
proof -
  let ?a = "(0, PipelineCreated ''s'' ''a'')" and ?b = "(0, PipelineStopped ''p'')"
  let ?fresh = "\<lparr>hr_logger = NewLogger [WithHCSTopic True ''0.0.7''], hr_flight = [], hr_taken = None, hr_attempts = []\<rparr>"
  let ?both = "run_log (run_log ?fresh 3 ?a) 2 ?b"
  let ?last = "run_enqueue (run_enqueue ?both (2, call_line ?b)) (3, call_line ?a)"
  have t0: "has_topic ''0.0.7'' ?fresh"
    by (simp add: has_topic_def loop_started_def NewLogger_def WithHCSTopic_def)
  then have t2: "has_topic ''0.0.7'' ?both" by (simp add: run_log_facts)
  note t3 = run_enqueue_facts(1) [OF t2, of "(2, call_line ?b)"]
  have f0: "hr_flight ?both = [(3, call_line ?a), (2, call_line ?b)]" by (simp add: run_log_facts)
  have "hcs_exec ''0.0.7'' [(3, ?a)] (run_log ?fresh 3 ?a)"
    using hcs_exec.log [OF hcs_exec.start, of 3 "''0.0.7''" ?a] by simp
  then have "hcs_exec ''0.0.7'' [(3, ?a), (2, ?b)] ?both"
    using hcs_exec.log [of "''0.0.7''" "[(3, ?a)]" "run_log ?fresh 3 ?a" 2 ?b] by (simp add: run_log_facts)
  then have "hcs_exec ''0.0.7'' [(3, ?a), (2, ?b)] (run_enqueue ?both (2, call_line ?b))"
    by (rule hcs_exec.enqueue) (simp add: f0)
  then have r: "hcs_exec ''0.0.7'' [(3, ?a), (2, ?b)] ?last"
    by (rule hcs_exec.enqueue) (simp add: run_enqueue_facts [OF t2] f0)
  have "outbound ?fresh = []" "queued ?fresh = []" by (simp_all add: outbound_def queued_def NewLogger_def WithHCSTopic_def)
  then have "outbound ?last = [call_line ?b, call_line ?a]"
    by (simp add: run_enqueue_facts [OF t3] run_enqueue_facts [OF t2] run_log_facts hcsQueueCap_def)
  then show ?thesis using topic_receives_log [OF r] r by (intro exI [of _ ?last]) simp
qed

end
