(* ===== verification/Sha256.thy ===== *)
theory Sha256
  imports Prelude
begin

unbundle bit_operations_syntax

text \<open>
  The hash \<open>crypto/sha256\<close> of the standard library, on bytes; the webhook derives event ids from it.
\<close>

text \<open>The constants of FIPS 180-4, in decimal.\<close>

definition sha_k :: "32 word list" where
  "sha_k =
    [1116352408, 1899447441, 3049323471, 3921009573, 961987163, 1508970993, 2453635748, 2870763221,
     3624381080, 310598401, 607225278, 1426881987, 1925078388, 2162078206, 2614888103, 3248222580,
     3835390401, 4022224774, 264347078, 604807628, 770255983, 1249150122, 1555081692, 1996064986,
     2554220882, 2821834349, 2952996808, 3210313671, 3336571891, 3584528711, 113926993, 338241895,
     666307205, 773529912, 1294757372, 1396182291, 1695183700, 1986661051, 2177026350, 2456956037,
     2730485921, 2820302411, 3259730800, 3345764771, 3516065817, 3600352804, 4094571909, 275423344,
     430227734, 506948616, 659060556, 883997877, 958139571, 1322822218, 1537002063, 1747873779,
     1955562222, 2024104815, 2227730452, 2361852424, 2428436474, 2756734187, 3204031479, 3329325298]"

definition sha_init :: "32 word list" where
  "sha_init = [1779033703, 3144134277, 1013904242, 2773480762, 1359893119, 2600822924, 528734635, 1541459225]"

definition big_endian :: "nat \<Rightarrow> nat \<Rightarrow> string" where
  "big_endian n v = map (\<lambda>i. char_of (v div 256 ^ (n - 1 - i) mod 256)) [0..<n]"

definition sha_pad :: "string \<Rightarrow> string" where
  "sha_pad m =
     m @ CHR 0x80 # replicate ((119 - length m mod 64) mod 64) (CHR 0x00) @ big_endian 8 (8 * length m)"

fun words :: "string \<Rightarrow> 32 word list" where
  "words (a # b # c # d # s) =
     word_of_nat (((of_char a * 256 + of_char b) * 256 + of_char c) * 256 + of_char d) # words s"
| "words _ = []"

definition rotr :: "nat \<Rightarrow> 32 word \<Rightarrow> 32 word" where
  "rotr n w = (drop_bit n w OR push_bit (32 - n) w)"

text \<open>The message schedule, newest word first.\<close>

fun schedule :: "nat \<Rightarrow> 32 word list \<Rightarrow> 32 word list" where
  "schedule 0 ws = ws"
| "schedule (Suc n) ws =
     (let x = ws ! 14; y = ws ! 1;
          s0 = rotr 7 x XOR rotr 18 x XOR drop_bit 3 x;
          s1 = rotr 17 y XOR rotr 19 y XOR drop_bit 10 y
      in schedule n ((ws ! 15 + s0 + ws ! 6 + s1) # ws))"

fun sha_round :: "32 word list \<Rightarrow> 32 word \<times> 32 word \<Rightarrow> 32 word list" where
  "sha_round [a, b, c, d, e, f, g, h] (k, w) =
     (let t1 = h + (rotr 6 e XOR rotr 11 e XOR rotr 25 e) + ((e AND f) XOR (NOT e AND g)) + k + w;
          t2 = (rotr 2 a XOR rotr 13 a XOR rotr 22 a) + ((a AND b) XOR (a AND c) XOR (b AND c))
      in [t1 + t2, a, b, c, d + t1, e, f, g])"
| "sha_round s _ = s"

definition sha_block :: "32 word list \<Rightarrow> 32 word list \<Rightarrow> 32 word list" where
  "sha_block s ws = map2 (+) s (foldl sha_round s (zip sha_k (rev (schedule 48 (rev ws)))))"

fun sha_blocks :: "nat \<Rightarrow> 32 word list \<Rightarrow> 32 word list \<Rightarrow> 32 word list" where
  "sha_blocks 0 s ws = s"
| "sha_blocks (Suc n) s ws = sha_blocks n (sha_block s (take 16 ws)) (drop 16 ws)"

definition Sum256 :: "string \<Rightarrow> string" where
  "Sum256 m =
     (let ws = words (sha_pad m)
      in concat (map (\<lambda>w. big_endian 4 (unat w)) (sha_blocks (length ws div 16) sha_init ws)))"

text \<open>A digest has 32 bytes.\<close>

lemma length_big_endian [simp]: "length (big_endian n v) = n"
  by (simp add: big_endian_def)

lemma length_sha_round [simp]: "length (sha_round s kw) = length s"
  by (cases "(s, kw)" rule: sha_round.cases) (simp_all add: Let_def)

lemma length_sha_block: "length (sha_block s ws) = length s"
proof -
  have "length (foldl sha_round s xs) = length s" for xs by (induction xs arbitrary: s) simp_all
  then show ?thesis by (simp add: sha_block_def)
qed

lemma length_sha_blocks: "length (sha_blocks n s ws) = length s"
  by (induction n s ws rule: sha_blocks.induct) (simp_all add: length_sha_block)

lemma length_Sum256: "length (Sum256 m) = 32"
proof -
  have "length (concat (map (\<lambda>w. big_endian 4 (unat w)) ws)) = 4 * length ws" for ws :: "32 word list"
    by (induction ws) simp_all
  then show ?thesis by (simp add: Sum256_def Let_def length_sha_blocks sha_init_def)
qed

end
