(* ===== verification/Naryo_Ingest.thy ===== *)
theory Naryo_Ingest
  imports Rest_Api Sha256
begin

text \<open>
  The webhook that Naryo's broadcasters call (\<^verbatim>\<open>internal/http/naryo_ingest.go\<close> and the handler
  \<open>PostNaryoEvent\<close> of \<^verbatim>\<open>handlers.go\<close>) and the routes (\<^verbatim>\<open>routes.go\<close>).
\<close>

section \<open>Authorisation\<close>

definition checkNaryoIngestAuth :: "env \<Rightarrow> request \<Rightarrow> response option" where
  "checkNaryoIngestAuth env r =
     (let secret = NaryoIngestSecret env
      in if secret = [] then Some (error_response 503 ''naryo ingest not configured'')
         else if rq_headers r ''X-Naryo-Webhook-Secret'' \<noteq> secret then Some (error_response 401 ''unauthorized'')
         else None)"

section \<open>The event of a body\<close>

definition normalizeJSONToPayloadMap :: "any \<Rightarrow> obj" where
  "normalizeJSONToPayloadMap v =
     (case v of AObj m \<Rightarrow> m | AArr xs \<Rightarrow> [(''items'', v)] | _ \<Rightarrow> [(''value'', v)])"

definition anyToStableString :: "any \<Rightarrow> string" where
  "anyToStableString v =
     (case v of
        ANil \<Rightarrow> []
      | AStr s \<Rightarrow> TrimSpace s
      | ANumber l \<Rightarrow> TrimSpace l
      | AFloat x \<Rightarrow> TrimRight (TrimRight (fmt_fixed 6 x) (CHR ''0'')) (CHR ''.'')
      | ABool b \<Rightarrow> if b then ''true'' else ''false''
      | _ \<Rightarrow> TrimSpace (sprint v))"

definition event_id_keys :: "string list" where
  "event_id_keys = [''eventId'', ''id'', ''transaction_id'', ''transactionId'', ''hash'', ''consensus_timestamp'']"

fun extract_first :: "string list \<Rightarrow> obj \<Rightarrow> string" where
  "extract_first [] m = []"
| "extract_first (k # ks) m = (let s = anyToStableString (field m k) in if s \<noteq> [] then s else extract_first ks m)"

definition extractNaryoEventID :: "obj \<Rightarrow> string" where
  "extractNaryoEventID m = extract_first event_id_keys m"

definition body_hash_id :: "string \<Rightarrow> string" where
  "body_hash_id raw = ''naryo-'' @ hex (take 12 (Sum256 raw))"

definition bytesTrimSpaceJSON :: "string \<Rightarrow> string" where
  "bytesTrimSpaceJSON b = TrimSpace b"

definition parseNaryoBroadcastBody :: "string \<Rightarrow> string + obj \<times> string" where
  "parseNaryoBroadcastBody raw0 =
     (let raw = bytesTrimSpaceJSON raw0
      in if raw = [] then Inl ''empty body''
         else case parse_whole raw of
             None \<Rightarrow> Inl ''invalid json''
           | Some v \<Rightarrow>
               if \<not> numbers_in_range v then Inl ''invalid json''
               else let payload = normalizeJSONToPayloadMap (interface_value v);
                        eventID = TrimSpace (extractNaryoEventID payload)
                    in Inr (payload, if eventID = [] then body_hash_id raw else eventID))"

section \<open>Handlers\<close>

text \<open>What both handlers answer when the event was passed to the service.\<close>

definition ingest_response :: "'n service \<times> bool \<times> err option \<Rightarrow> obj \<Rightarrow> 'n service \<times> response" where
  "ingest_response x extra =
     (case x of
        (s, dup, Some e) \<Rightarrow>
          (s, case e of
                ErrNotFound \<Rightarrow> error_response 404 ''session not found''
              | ErrInvalidNaryoEvent \<Rightarrow> error_response 400 (err_text e)
              | _ \<Rightarrow> error_response 500 (err_text e))
      | (s, dup, None) \<Rightarrow> (s, writeJSON 200 ([(''ok'', ABool True), (''duplicate'', ABool dup)] @ extra)))"

definition PostNaryoEventSession :: "env \<Rightarrow> 'n service \<Rightarrow> request \<Rightarrow> 'n service \<times> response" where
  "PostNaryoEventSession env s r =
     (case checkNaryoIngestAuth env r of
        Some bad \<Rightarrow> (s, bad)
      | None \<Rightarrow>
          let sid = TrimSpace (rq_path r)
          in if sid = [] then (s, error_response 400 ''missing sessionId'')
             else case parseNaryoBroadcastBody (rq_body r) of
                 Inl msg \<Rightarrow> (s, error_response 400 msg)
               | Inr (payload, eventID) \<Rightarrow>
                   ingest_response (IngestNaryoEvent s sid eventID payload) [(''eventId'', AStr eventID)])"

record naryoEventBody =
  nb_SessionID :: string
  nb_EventID :: string
  nb_Payload :: obj

definition naryoEventBody_fields :: "(string \<times> naryoEventBody setter) list" where
  "naryoEventBody_fields =
     [(''sessionId'', set_str (\<lambda>s. nb_SessionID_update (\<lambda>_. s))),
      (''eventId'', set_str (\<lambda>s. nb_EventID_update (\<lambda>_. s))),
      (''payload'', set_map nb_Payload (\<lambda>m. nb_Payload_update (\<lambda>_. m)))]"

definition PostNaryoEvent :: "env \<Rightarrow> 'n service \<Rightarrow> request \<Rightarrow> 'n service \<times> response" where
  "PostNaryoEvent env s r =
     (case checkNaryoIngestAuth env r of
        Some bad \<Rightarrow> (s, bad)
      | None \<Rightarrow>
          (case readJSON naryoEventBody_fields \<lparr>nb_SessionID = [], nb_EventID = [], nb_Payload = []\<rparr> r of
             Inl bad \<Rightarrow> (s, bad)
           | Inr body \<Rightarrow>
               if nb_SessionID body = [] \<or> nb_EventID body = []
               then (s, error_response 400 ''sessionId and eventId required'')
               else ingest_response (IngestNaryoEvent s (nb_SessionID body) (nb_EventID body) (nb_Payload body)) []))"

section \<open>Routes\<close>

text \<open>
  A path is the list of its decoded segments; a wildcard matches one that is not empty.  Patterns of one
  mux never overlap here, so the order of the table does not matter.  \<open>GET\<close> also serves \<open>HEAD\<close>.
\<close>

datatype segment = Lit string | Wild

datatype endpoint =
    EHealth | EStatus | ECreate | EStart | EStop | EPause | EResume | EReconfigure | EPaymentStream
  | ETopUpX402 | ETopUpDeposit | ENaryoEventSession | ENaryoEvent

fun match_path :: "segment list \<Rightarrow> string list \<Rightarrow> string list option" where
  "match_path [] [] = Some []"
| "match_path (Lit l # ps) (x # xs) = (if x = l then match_path ps xs else None)"
| "match_path (Wild # ps) (x # xs) = (if x = [] then None else map_option ((#) x) (match_path ps xs))"
| "match_path _ _ = None"

definition NewMux :: "(string \<times> segment list \<times> endpoint) list" where
  "NewMux =
     [(''GET'', [Lit ''healthz''], EHealth),
      (''GET'', [Lit ''v1'', Lit ''pipelines'', Wild, Lit ''status''], EStatus),
      (''POST'', [Lit ''v1'', Lit ''pipelines''], ECreate),
      (''POST'', [Lit ''v1'', Lit ''pipelines'', Wild, Lit ''start''], EStart),
      (''POST'', [Lit ''v1'', Lit ''pipelines'', Wild, Lit ''stop''], EStop),
      (''POST'', [Lit ''v1'', Lit ''pipelines'', Wild, Lit ''pause''], EPause),
      (''POST'', [Lit ''v1'', Lit ''pipelines'', Wild, Lit ''resume''], EResume),
      (''PUT'', [Lit ''v1'', Lit ''pipelines'', Wild, Lit ''reconfigure''], EReconfigure),
      (''PUT'', [Lit ''v1'', Lit ''pipelines'', Wild, Lit ''payment-stream''], EPaymentStream),
      (''POST'', [Lit ''v1'', Lit ''agents'', Wild, Lit ''topup'', Lit ''x402''], ETopUpX402),
      (''POST'', [Lit ''v1'', Lit ''agents'', Wild, Lit ''topup'', Lit ''deposit''], ETopUpDeposit)]"

definition RegisterInternalRoutes :: "(string \<times> segment list \<times> endpoint) list" where
  "RegisterInternalRoutes =
     [(''POST'', [Lit ''internal'', Lit ''naryo'', Lit ''v1'', Lit ''events'', Wild], ENaryoEventSession),
      (''POST'', [Lit ''internal'', Lit ''naryo'', Lit ''v1'', Lit ''events''], ENaryoEvent)]"

text \<open>The endpoint and the value of the wildcard, or the status 404 or 405.\<close>

definition route :: "(string \<times> segment list \<times> endpoint) list \<Rightarrow> string \<Rightarrow> string list \<Rightarrow> nat + endpoint \<times> string" where
  "route table meth path =
     (let hits = List.map_filter (\<lambda>(m, p, e). map_option (\<lambda>vs. (m, e, concat vs)) (match_path p path)) table
      in if hits = [] then Inl 404
         else case List.find (\<lambda>(m, e, v). m = meth \<or> m = ''GET'' \<and> meth = ''HEAD'') hits of
             None \<Rightarrow> Inl 405
           | Some (m, e, v) \<Rightarrow> Inr (e, v))"

definition endpoint_handler ::
  "('n, 'a, 't, 'p, 'k) API \<Rightarrow> 'n service \<Rightarrow> endpoint \<Rightarrow> request \<Rightarrow> 'n outcome" where
  "endpoint_handler a s e r =
     (case e of
        EHealth \<Rightarrow> Some (s, Health)
      | EStatus \<Rightarrow> Some (s, GetStatus s r)
      | ECreate \<Rightarrow> Some (CreatePipeline a s r)
      | EStart \<Rightarrow> PostStart a s r
      | EStop \<Rightarrow> PostStop a s r
      | EPause \<Rightarrow> PostPause a s r
      | EResume \<Rightarrow> PostResume a s r
      | EReconfigure \<Rightarrow> PutReconfigure s r
      | EPaymentStream \<Rightarrow> PutPaymentStream s r
      | ETopUpX402 \<Rightarrow> Some (TopUpX402 s r)
      | ETopUpDeposit \<Rightarrow> Some (TopUpDeposit a s r)
      | ENaryoEventSession \<Rightarrow> Some (PostNaryoEventSession (ap_env a) s r)
      | ENaryoEvent \<Rightarrow> Some (PostNaryoEvent (ap_env a) s r))"

text \<open>A mux without a match answers in plain text, not JSON.\<close>

definition serve ::
  "('n, 'a, 't, 'p, 'k) API \<Rightarrow> 'n service \<Rightarrow> (string \<times> segment list \<times> endpoint) list \<Rightarrow> string \<Rightarrow> string list \<Rightarrow>
   request \<Rightarrow> 'n outcome" where
  "serve a s table meth path r =
     (case route table meth path of
        Inl n \<Rightarrow> Some (s, \<lparr>rs_status = n, rs_body = AStr (if n = 404 then ''404 page not found'' else ''Method Not Allowed'')\<rparr>)
      | Inr (e, v) \<Rightarrow> endpoint_handler a s e (r\<lparr>rq_path := v\<rparr>))"

end
