(* ===== verification/Rest_Facts.thy ===== *)
theory Rest_Facts
  imports Naryo_Ingest Lifecycle
begin

text \<open>
  What the REST surface guarantees: the shape of its responses, that a refused request changes nothing
  it should not, and what the deposit endpoint credits.
\<close>

section \<open>Shape of the responses\<close>

definition response_ok :: "response \<Rightarrow> bool" where
  "response_ok p \<longleftrightarrow> (\<exists>m. rs_body p = AObj m \<and>
     (if rs_status p \<in> {200, 201} then map_of m ''error'' = None
      else rs_status p \<in> {400, 401, 404, 409, 500, 503} \<and> (\<exists>msg. map_of m ''error'' = Some (AStr msg))))"

named_theorems shape_intros \<open>a handler answers with a well-formed response\<close>

lemma ok_error_response [shape_intros]:
  "st \<in> {400, 401, 404, 409, 500, 503} \<Longrightarrow> response_ok (error_response st msg)"
  by (auto simp: response_ok_def error_response_def writeJSON_def)

lemma ok_writeJSON [shape_intros]: "st \<in> {200, 201} \<Longrightarrow> map_of m ''error'' = None \<Longrightarrow> response_ok (writeJSON st m)"
  by (auto simp: response_ok_def writeJSON_def)

lemma ok_writeErr [shape_intros]: "response_ok (writeErr e)"
  by (cases e) (auto simp: writeErr_def error_response_def writeJSON_def response_ok_def)

lemma ok_lifecycle: "response_ok (snd (lifecycle_response x))"
  by (cases x) (auto simp: lifecycle_response_def ok_true_def intro!: shape_intros split: option.split)

lemma ok_GetStatus: "response_ok (GetStatus s r)"
proof -
  have "map_of (status_body s sid sess) ''error'' = None" for sid sess
    by (simp add: status_body_def map_add_def split: sum.split)
  then show ?thesis
    by (auto simp: GetStatus_def Let_def intro!: shape_intros split: sum.split option.split)
qed

lemma ok_CreatePipeline: "response_ok (snd (CreatePipeline a s r))"
  by (auto simp: CreatePipeline_def created_body_def Let_def intro!: shape_intros split: prod.split sum.split)

lemma ok_readJSON: "readJSON fs z r = Inl bad \<Longrightarrow> response_ok bad"
  by (auto simp: readJSON_def intro!: shape_intros split: prod.splits bool.splits)

lemma ok_PutReconfigure: "PutReconfigure s r = Some (s', p) \<Longrightarrow> response_ok p"
  by (auto simp: PutReconfigure_def intro!: shape_intros dest: ok_readJSON split: sum.splits option.splits)

lemma ok_PutPaymentStream: "PutPaymentStream s r = Some (s', p) \<Longrightarrow> response_ok p"
  by (auto simp: PutPaymentStream_def intro!: shape_intros dest: ok_readJSON split: sum.splits option.splits)

lemma ok_TopUpX402: "response_ok (snd (TopUpX402 s r))"
  by (auto simp: TopUpX402_def Let_def intro!: shape_intros dest: ok_readJSON split: sum.splits option.splits prod.splits)

lemma ok_deposit_amount: "deposit_amount a agentID body = Inl bad \<Longrightarrow> response_ok bad"
  by (auto simp: deposit_amount_def intro!: shape_intros split: if_splits option.splits sum.splits)

lemma ok_TopUpDeposit: "response_ok (snd (TopUpDeposit a s r))"
  by (auto simp: TopUpDeposit_def Let_def intro!: shape_intros dest: ok_readJSON ok_deposit_amount
      split: sum.splits option.splits prod.splits)

lemma ok_ingest_response: "map_of extra ''error'' = None \<Longrightarrow> response_ok (snd (ingest_response x extra))"
  by (auto simp: ingest_response_def intro!: shape_intros split: prod.split option.split err.split)

lemma ok_auth: "checkNaryoIngestAuth env r = Some bad \<Longrightarrow> response_ok bad"
  by (auto simp: checkNaryoIngestAuth_def Let_def intro!: shape_intros split: if_splits)

lemma ok_webhooks:
  "response_ok (snd (PostNaryoEventSession env s r))" "response_ok (snd (PostNaryoEvent env s r))"
  by (auto simp: PostNaryoEventSession_def PostNaryoEvent_def Let_def intro!: shape_intros ok_ingest_response
      dest: ok_auth ok_readJSON split: option.split sum.split prod.split)

lemma ok_PostLifecycle:
  "PostStart a s r = Some x \<Longrightarrow> response_ok (snd x)" "PostStop a s r = Some x \<Longrightarrow> response_ok (snd x)"
  "PostPause a s r = Some x \<Longrightarrow> response_ok (snd x)" "PostResume a s r = Some x \<Longrightarrow> response_ok (snd x)"
  by (auto simp: PostStart_def PostStop_def PostPause_def PostResume_def ok_lifecycle)

section \<open>Refused requests\<close>

definition kept :: "'n service \<Rightarrow> 'n service \<Rightarrow> bool" where
  "kept s s' \<longleftrightarrow> store s' = store s \<and> ledger s' = ledger s \<and> activity s' = activity s"

lemma kept_refl [simp]: "kept s s"
  by (simp add: kept_def)

lemma Update_failed_same:
  assumes "Update st sid fn c = Some (st', c', Some e)" "\<And>v v' c' e. fn v c = Some (v', c', Inl e) \<Longrightarrow> v' = v"
  shows "st' = st"
  using assms(1)
proof (cases rule: UpdateE)
  case (found v v' res)
  then have "v' = v" using assms(2) by (cases res) auto
  with found have "(sessions st)(sid \<mapsto> v') = sessions st" by (simp add: fun_upd_idem)
  with found show ?thesis by (cases st) simp
qed simp

lemma failed_same: "failed st sid fn st' \<Longrightarrow> (\<And>v v' c c' e. fn v c = Some (v', c', Inl e) \<Longrightarrow> v' = v) \<Longrightarrow> st' = st"
  unfolding failed_def using Update_failed_same by metis

lemma activity_emit [simp]: "activity (emit s call) = activity s"
  by (simp add: emit_def)
lemma rejectStart_frame [simp]: "ledger (rejectStart s sid a e) = ledger s" "activity (rejectStart s sid a e) = activity s"
  by (simp_all add: rejectStart_def)

definition refused_frame :: "'n service \<Rightarrow> 'n service \<times> err option \<Rightarrow> bool" where
  "refused_frame s x \<longleftrightarrow> snd x = None \<or> ledger (fst x) = ledger s \<and> activity (fst x) = activity s"

lemma frame_refuse [simp]: "refused_frame s (s', Some e) = (ledger s' = ledger s \<and> activity s' = activity s)" "refused_frame s (s', None)"
  by (simp_all add: refused_frame_def)

lemma frame_Pause: "on_return (refused_frame s) (Pause nc s sid)"
  unfolding Pause_def Let_def
  by (auto intro!: on_return_bind split: option.split sum.split prod.split)
lemma frame_Stop: "on_return (refused_frame s) (Stop nc s sid)"
  unfolding Stop_def Let_def
  by (auto intro!: on_return_bind split: option.split sum.split prod.split)
lemma frame_Resume: "on_return (refused_frame s) (Resume nc s sid)"
  unfolding Resume_def Let_def
  by (auto intro!: on_return_bind split: option.split sum.split prod.split)
lemma frame_Start: "on_return (refused_frame s) (Start nc s sid)"
  unfolding Start_def Let_def
  by (auto intro!: on_return_bind split: option.split sum.split prod.split)
lemma frame_Reconfigure: "on_return (refused_frame s) (Reconfigure s sid patch)"
  unfolding Reconfigure_def Let_def
  by (cases "patch = []")
     (auto simp: Option.bind_assoc split_def intro!: on_return_bind split: option.split sum.split)
lemma frame_Stream: "on_return (refused_frame s) (SetPaymentStreamActive s sid b)"
  unfolding SetPaymentStreamActive_def Let_def
  by (auto intro!: on_return_bind split: option.split sum.split prod.split)

lemma kept_Start: "Start nc s sid = Some (s', Some e) \<Longrightarrow> kept s s'"
  using on_returnD [OF frame_Start] failed_same [OF failed_Start reject_start] unfolding kept_def by fastforce

lemma kept_Stop: "Stop nc s sid = Some (s', Some e) \<Longrightarrow> kept s s'"
  using on_returnD [OF frame_Stop] failed_same [OF failed_Stop reject_stop] unfolding kept_def by fastforce

lemma kept_Pause: "Pause nc s sid = Some (s', Some e) \<Longrightarrow> kept s s'"
  using on_returnD [OF frame_Pause] failed_same [OF failed_Pause reject_pause] unfolding kept_def by fastforce

lemma kept_Resume: "Resume nc s sid = Some (s', Some e) \<Longrightarrow> kept s s'"
  using on_returnD [OF frame_Resume] failed_same [OF failed_Resume reject_resume] unfolding kept_def by fastforce

lemma kept_Reconfigure: "Reconfigure s sid patch = Some (s', Some e) \<Longrightarrow> kept s s'"
  using on_returnD [OF frame_Reconfigure] failed_same [OF failed_Reconfigure reject_reconfigure] unfolding kept_def by fastforce

lemma kept_Stream: "SetPaymentStreamActive s sid b = Some (s', Some e) \<Longrightarrow> kept s s'"
  using on_returnD [OF frame_Stream] failed_same [OF failed_Stream reject_stream] unfolding kept_def by fastforce

lemma kept_CreditTopUp: "CreditTopUp s args = (s', Some e) \<Longrightarrow> kept s s'"
  by (auto simp: kept_def CreditTopUp_def Credit_def Let_def split: option.splits if_splits prod.splits)

lemma kept_Ingest: "IngestNaryoEvent s sid eid payload = (s', dup, Some e) \<Longrightarrow> kept s s'"
  by (auto simp: kept_def IngestNaryoEvent_def AppendNaryoEvent_def Let_def split: option.splits if_splits prod.splits)

lemma kept_lifecycle:
  "map_option lifecycle_response m = Some (s', p) \<Longrightarrow> 400 \<le> rs_status p \<Longrightarrow> \<exists>e. m = Some (s', Some e)"
  by (auto simp: lifecycle_response_def ok_true_def writeJSON_def split: option.splits)

lemma kept_ingest_response:
  "ingest_response (IngestNaryoEvent s sid eid payload) extra = (s', p) \<Longrightarrow> 400 \<le> rs_status p \<Longrightarrow> kept s s'"
  by (auto simp: ingest_response_def writeJSON_def dest: kept_Ingest split: prod.splits option.splits)

lemma kept_TopUpX402: "TopUpX402 s r = (s', p) \<Longrightarrow> 400 \<le> rs_status p \<Longrightarrow> kept s s'"
  by (auto simp: TopUpX402_def writeJSON_def Let_def dest: kept_CreditTopUp
      split: sum.splits prod.splits option.splits if_splits)

lemma kept_TopUpDeposit: "TopUpDeposit a s r = (s', p) \<Longrightarrow> 400 \<le> rs_status p \<Longrightarrow> kept s s'"
  by (auto simp: TopUpDeposit_def writeJSON_def Let_def dest: kept_CreditTopUp
      split: sum.splits prod.splits option.splits if_splits)

lemma kept_PutReconfigure: "PutReconfigure s r = Some (s', p) \<Longrightarrow> 400 \<le> rs_status p \<Longrightarrow> kept s s'"
  by (auto simp: PutReconfigure_def writeJSON_def dest: kept_Reconfigure split: sum.splits option.splits)

lemma kept_PutPaymentStream: "PutPaymentStream s r = Some (s', p) \<Longrightarrow> 400 \<le> rs_status p \<Longrightarrow> kept s s'"
  by (auto simp: PutPaymentStream_def writeJSON_def dest: kept_Stream split: sum.splits option.splits)

lemma kept_PostNaryoEventSession:
  assumes "PostNaryoEventSession env s r = (s', p)" "400 \<le> rs_status p"
  shows "kept s s'"
proof (cases "checkNaryoIngestAuth env r")
  case None
  show ?thesis
  proof (cases "TrimSpace (rq_path r) = []")
    case False
    then show ?thesis
      using assms None kept_ingest_response
      by (cases "parseNaryoBroadcastBody (rq_body r)") (auto simp: PostNaryoEventSession_def Let_def)
  qed (use assms None in \<open>simp add: PostNaryoEventSession_def\<close>)
qed (use assms in \<open>simp add: PostNaryoEventSession_def\<close>)

lemma kept_PostNaryoEvent:
  assumes "PostNaryoEvent env s r = (s', p)" "400 \<le> rs_status p"
  shows "kept s s'"
proof (cases "checkNaryoIngestAuth env r")
  case None
  then show ?thesis
    using assms kept_ingest_response
    by (cases "readJSON naryoEventBody_fields \<lparr>nb_SessionID = [], nb_EventID = [], nb_Payload = []\<rparr> r")
       (auto simp: PostNaryoEvent_def split: if_splits)
qed (use assms in \<open>simp add: PostNaryoEvent_def\<close>)

lemma kept_lifecycle_response:
  assumes "map_option lifecycle_response m = Some (s', p)" "400 \<le> rs_status p"
    and "\<And>s' e. m = Some (s', Some e) \<Longrightarrow> kept s s'"
  shows "kept s s'"
proof -
  obtain e where "m = Some (s', Some e)" using kept_lifecycle [OF assms(1,2)] by (elim exE)
  then show ?thesis by (rule assms(3))
qed

lemma kept_PostLifecycle:
  "PostStart a s r = Some (s', p) \<Longrightarrow> 400 \<le> rs_status p \<Longrightarrow> kept s s'"
  "PostStop a s r = Some (s', p) \<Longrightarrow> 400 \<le> rs_status p \<Longrightarrow> kept s s'"
  "PostPause a s r = Some (s', p) \<Longrightarrow> 400 \<le> rs_status p \<Longrightarrow> kept s s'"
  "PostResume a s r = Some (s', p) \<Longrightarrow> 400 \<le> rs_status p \<Longrightarrow> kept s s'"
  unfolding PostStart_def PostStop_def PostPause_def PostResume_def
  by (erule (1) kept_lifecycle_response, erule kept_Start kept_Stop kept_Pause kept_Resume)+

section \<open>Deposits\<close>

definition deposit_text :: "string \<Rightarrow> string" where
  "deposit_text tx = enc (JObj [(''transactionId'', JStr tx)])"

definition deposit_request :: "string \<Rightarrow> string \<Rightarrow> request" where
  "deposit_request agentID tx =
     \<lparr>rq_path = agentID, rq_headers = (\<lambda>_. []), rq_pipelineId = [], rq_body = deposit_text tx, rq_rand = None\<rparr>"

lemma readJSON_deposit:
  assumes "ascii tx"
  shows "readJSON topUpDepositBody_fields \<lparr>db_transactionId = [], db_amountUnits = 0\<rparr> (deposit_request agentID tx) =
    Inr \<lparr>db_transactionId = tx, db_amountUnits = 0\<rparr>"
proof -
  have k: "clean ''transactionId'' = ''transactionId''" by (rule clean_ascii) simp
  have "parse_first (deposit_text tx) = Some (AObj [(''transactionId'', AStr tx)])"
    using assms unfolding deposit_text_def by (subst parse_first_enc) (simp_all add: clean_ascii k)
  then show ?thesis
    by (simp add: readJSON_def decode_body_def decode_struct_def topUpDepositBody_fields_def deposit_request_def set_str_def)
qed

text \<open>A deposit the live client verifies, to an agent whose ledger has room for it.\<close>

definition verified_deposit ::
  "('n, 'a, 't, 'p, 'k) API \<Rightarrow> string \<Rightarrow> string \<Rightarrow> int \<Rightarrow> string \<Rightarrow> bool" where
  "verified_deposit a agentID tx n asset \<longleftrightarrow>
     agentID \<noteq> [] \<and> \<not> SkipTopupVerify (ap_HederaCfg a) \<and> 0 < n \<and>
     (case ap_HederaClient a of
        Some c \<Rightarrow> VerifyTopupTx (ap_sdk a) c tx (ServiceAccountID (ap_HederaCfg a)) agentID = Inr (n, asset)
      | None \<Rightarrow> False)"

lemma TopUpDeposit_verified:
  assumes "verified_deposit a agentID tx n asset" "ascii tx" "tx \<noteq> []" "ledger s = Some l"
  obtains s' l' where "TopUpDeposit a s (deposit_request agentID tx) =
      (s', writeJSON 200 [(''agentId'', AStr agentID), (''creditedUnits'', AInt n), (''asset'', AStr asset),
         (''transactionId'', AStr tx)])"
    "ledger s' = Some l'" "l' = fst (Credit l agentID n tx ''hedera_deposit'')"
    "hcs s' = map_option (\<lambda>calls. calls @ [AgentTopUp \<lparr>tu_AgentID = agentID, tu_AmountUnits = n,
       tu_Source = ''hedera_deposit'', tu_SourceTxID = tx, tu_Asset = asset\<rparr>]) (hcs s)"
proof -
  obtain l' where c: "Credit l agentID n tx ''hedera_deposit'' = (l', None)"
  proof -
    have "snd (Credit l agentID n tx ''hedera_deposit'') = None"
      using assms(1) by (simp add: Credit_def Let_def verified_deposit_def)
    then show thesis using that by (metis prod.collapse)
  qed
  have d: "deposit_amount a agentID \<lparr>db_transactionId = tx, db_amountUnits = 0\<rparr> = Inr (n, asset)"
    using assms(1) by (auto simp: deposit_amount_def verified_deposit_def split: option.splits)
  define args where "args = \<lparr>tu_AgentID = agentID, tu_AmountUnits = n, tu_Source = ''hedera_deposit'',
    tu_SourceTxID = tx, tu_Asset = asset\<rparr>"
  define s' where "s' = recordActivity (emit (s\<lparr>ledger := Some l'\<rparr>) (AgentTopUp args)) ''agent_top_up'' []
    [(''agentId'', AStr agentID), (''amountUnits'', AInt n), (''source'', AStr ''hedera_deposit'')]"
  have n: "\<not> (agentID = [] \<or> n \<le> 0)" using assms(1) by (simp add: verified_deposit_def)
  have "CreditTopUp s args = (s', None)"
    using n c assms(4) by (simp add: CreditTopUp_def s'_def args_def)
  then have "TopUpDeposit a s (deposit_request agentID tx) =
      (s', writeJSON 200 [(''agentId'', AStr agentID), (''creditedUnits'', AInt n), (''asset'', AStr asset),
         (''transactionId'', AStr tx)])"
    using n d assms(3) unfolding TopUpDeposit_def readJSON_deposit [OF assms(2)]
    by (simp add: deposit_request_def args_def)
  moreover have "ledger s' = Some l'" by (simp add: s'_def)
  moreover have "hcs s' = map_option (\<lambda>calls. calls @ [AgentTopUp args]) (hcs s)"
    by (simp add: s'_def recordActivity_def emit_def split: option.split)
  moreover have "l' = fst (Credit l agentID n tx ''hedera_deposit'')" using c by simp
  ultimately show thesis unfolding args_def by (intro that)
qed

lemma verified_blank: "verified_deposit a agentID tx n asset \<Longrightarrow> verified_deposit a agentID (CHR '' '' # tx) n asset"
  by (simp add: verified_deposit_def hedera.blank split: option.splits)

lemma Credit_new:
  assumes "agentID \<noteq> []" "0 < n" "creditKey agentID tx src \<notin> credited l"
  shows "balances (fst (Credit l agentID n tx src)) agentID = add64 (balances l agentID) n"
    "tx \<noteq> [] \<Longrightarrow> credited (fst (Credit l agentID n tx src)) = insert (creditKey agentID tx src) (credited l)"
  using assms by (simp_all add: Credit_def Let_def)

lemma Credit_old:
  assumes "tx \<noteq> []" "creditKey agentID tx src \<in> credited l"
  shows "fst (Credit l agentID n tx src) = l"
  using assms by (simp add: Credit_def Let_def)

section \<open>A concrete surface\<close>

definition demo_api :: "(RecordingClient, string, string, string, string) API" where
  "demo_api = \<lparr>ap_naryo = recording_client, ap_env = (\<lambda>k. if k = ''NARYO_INGEST_SECRET'' then ''s3'' else []),
     ap_sdk = demo_sdk, ap_HederaClient = Some (NewClientFromConfig demo_sdk demo_hedera), ap_HederaCfg = demo_hedera\<rparr>"

definition demo_request :: "string \<Rightarrow> string \<Rightarrow> request" where
  "demo_request path body = \<lparr>rq_path = path,
     rq_headers = (\<lambda>k. if k = ''X-Naryo-Webhook-Secret'' then ''s3'' else []), rq_pipelineId = [], rq_body = body,
     rq_rand = None\<rparr>"

text \<open>Starting the stopped session is a conflict.\<close>

lemma demo_conflict:
  obtains s' where "endpoint_handler demo_api demo_stopped EStart (demo_request demo_sid []) =
    Some (s', error_response 409 ''invalid pipeline state transition: start from stopped'')"
proof -
  obtain s' r where r: "Start recording_client demo_stopped demo_sid = Some (s', r)"
    using rec_client.Start_returns by (metis returnsE surj_pair)
  have "map_option snd (Start recording_client demo_stopped demo_sid) =
      Some (Some (ErrInvalidTransition ''start from'' StateStopped))" by code_simp
  with r have "r = Some (ErrInvalidTransition ''start from'' StateStopped)" by simp
  with r have "endpoint_handler demo_api demo_stopped EStart (demo_request demo_sid []) =
    Some (s', error_response 409 ''invalid pipeline state transition: start from stopped'')"
    by (simp add: endpoint_handler_def PostStart_def demo_api_def demo_request_def lifecycle_response_def writeErr_def)
  then show thesis by (rule that)
qed

section \<open>Properties\<close>

text \<open>
  C37: every answer of an endpoint is a JSON object; it has an error text exactly when its status is
  not 200 or 201, and the status of an error is one of the six the code uses.
\<close>

theorem response_shape:
  assumes "endpoint_handler a s e r = Some (s', p)"
  shows "\<exists>m. rs_body p = AObj m \<and>
     (if rs_status p \<in> {200, 201} then map_of m ''error'' = None
      else rs_status p \<in> {400, 401, 404, 409, 500, 503} \<and> (\<exists>msg. map_of m ''error'' = Some (AStr msg)))"
proof -
  have "response_ok Health" by (simp add: Health_def ok_writeJSON)
  then have "response_ok p"
    using assms ok_GetStatus [of s r] ok_CreatePipeline [of a s r] ok_TopUpX402 [of s r] ok_TopUpDeposit [of a s r]
      ok_webhooks [of "ap_env a" s r] ok_PostLifecycle [of a s r "(s', p)"] ok_PutReconfigure [of s r s' p]
      ok_PutPaymentStream [of s r s' p]
    by (cases e) (auto simp: endpoint_handler_def)
  then show ?thesis by (simp only: response_ok_def)
qed

theorem response_shape_witness:
  "\<exists>s' m. endpoint_handler demo_api demo_stopped EStart (demo_request demo_sid []) =
       Some (s', \<lparr>rs_status = 409, rs_body = AObj m\<rparr>) \<and> (\<exists>msg. map_of m ''error'' = Some (AStr msg))"
proof (rule demo_conflict)
  fix s'
  let ?p = "error_response 409 ''invalid pipeline state transition: start from stopped''"
  assume h: "endpoint_handler demo_api demo_stopped EStart (demo_request demo_sid []) = Some (s', ?p)"
  have "rs_status ?p = 409" by (simp add: error_response_def writeJSON_def)
  with response_shape [OF h] obtain m where m: "rs_body ?p = AObj m" "\<exists>msg. map_of m ''error'' = Some (AStr msg)" by auto
  have "?p = \<lparr>rs_status = 409, rs_body = AObj m\<rparr>"
    using m(1) \<open>rs_status ?p = 409\<close> by (metis response.surjective unit.exhaust)
  with h m(2) show ?thesis by metis
qed

text \<open>
  C36: a request that is answered with an error has changed no session, no stored event, no balance and
  no entry of the activity feed.  The exception is creating a pipeline, which may have been preceded by
  the development credit.
\<close>

theorem refused_request_changes_nothing:
  assumes "endpoint_handler a s e r = Some (s', p)" "400 \<le> rs_status p" "e \<noteq> ECreate"
  shows "store s' = store s \<and> ledger s' = ledger s \<and> activity s' = activity s"
proof -
  have "kept s s'"
    using assms kept_TopUpX402 [of s r s' p] kept_TopUpDeposit [of a s r s' p]
      kept_PostNaryoEventSession [of "ap_env a" s r s' p] kept_PostNaryoEvent [of "ap_env a" s r s' p]
      kept_PostLifecycle [of a s r s' p] kept_PutReconfigure [of s r s' p] kept_PutPaymentStream [of s r s' p]
    by (cases e) (simp_all add: endpoint_handler_def)
  then show ?thesis by (simp only: kept_def)
qed

theorem refused_request_changes_nothing_witness:
  "\<exists>s' p. endpoint_handler demo_api demo_stopped EStart (demo_request demo_sid []) = Some (s', p) \<and>
     rs_status p = 409 \<and> store s' = store demo_stopped"
proof (rule demo_conflict)
  fix s'
  let ?p = "error_response 409 ''invalid pipeline state transition: start from stopped''"
  assume h: "endpoint_handler demo_api demo_stopped EStart (demo_request demo_sid []) = Some (s', ?p)"
  have "rs_status ?p = 409" by (simp add: error_response_def writeJSON_def)
  with refused_request_changes_nothing [OF h] h show ?thesis by auto
qed

text \<open>
  C31: what the deposit endpoint credits.  A verified deposit is credited the first time its transaction
  id is posted; posting it again is answered like the first time, and reported to the audit log
  again, but credits nothing.  Yet the id with a blank in front, which verifies as the same
  transaction, is credited once more.
\<close>

theorem deposit_replay:
  assumes "verified_deposit a agentID tx n asset" "ascii tx" "tx \<noteq> []" "ledger s = Some l"
    and "creditKey agentID tx ''hedera_deposit'' \<notin> credited l"
    and "creditKey agentID (CHR '' '' # tx) ''hedera_deposit'' \<notin> credited l"
  shows "\<exists>s1 s2 s3 p q. TopUpDeposit a s (deposit_request agentID tx) = (s1, p) \<and>
     TopUpDeposit a s1 (deposit_request agentID tx) = (s2, p) \<and>
     TopUpDeposit a s2 (deposit_request agentID (CHR '' '' # tx)) = (s3, q) \<and>
     rs_status p = 200 \<and> rs_status q = 200 \<and>
     PrepaidBalance s1 agentID = add64 (PrepaidBalance s agentID) n \<and> ledger s2 = ledger s1 \<and>
     (hcs s \<noteq> None \<longrightarrow> hcs s2 \<noteq> hcs s1) \<and>
     PrepaidBalance s3 agentID = add64 (PrepaidBalance s1 agentID) n"
proof -
  let ?src = "''hedera_deposit''"
  have ag: "agentID \<noteq> []" "0 < n" using assms(1) by (auto simp: verified_deposit_def)
  obtain s1 l1 where 1: "TopUpDeposit a s (deposit_request agentID tx) =
      (s1, writeJSON 200 [(''agentId'', AStr agentID), (''creditedUnits'', AInt n), (''asset'', AStr asset),
         (''transactionId'', AStr tx)])"
    "ledger s1 = Some l1" "l1 = fst (Credit l agentID n tx ?src)"
    "hcs s1 = map_option (\<lambda>calls. calls @ [AgentTopUp \<lparr>tu_AgentID = agentID, tu_AmountUnits = n,
       tu_Source = ''hedera_deposit'', tu_SourceTxID = tx, tu_Asset = asset\<rparr>]) (hcs s)"
    by (rule TopUpDeposit_verified [OF assms(1-4)])
  obtain s2 l2 where 2: "TopUpDeposit a s1 (deposit_request agentID tx) =
      (s2, writeJSON 200 [(''agentId'', AStr agentID), (''creditedUnits'', AInt n), (''asset'', AStr asset),
         (''transactionId'', AStr tx)])"
    "ledger s2 = Some l2" "l2 = fst (Credit l1 agentID n tx ?src)"
    "hcs s2 = map_option (\<lambda>calls. calls @ [AgentTopUp \<lparr>tu_AgentID = agentID, tu_AmountUnits = n,
       tu_Source = ''hedera_deposit'', tu_SourceTxID = tx, tu_Asset = asset\<rparr>]) (hcs s1)"
    by (rule TopUpDeposit_verified [OF assms(1-3) 1(2)])
  obtain s3 l3 where 3: "TopUpDeposit a s2 (deposit_request agentID (CHR '' '' # tx)) =
      (s3, writeJSON 200 [(''agentId'', AStr agentID), (''creditedUnits'', AInt n), (''asset'', AStr asset),
         (''transactionId'', AStr (CHR '' '' # tx))])"
    "ledger s3 = Some l3" "l3 = fst (Credit l2 agentID n (CHR '' '' # tx) ?src)"
    using assms(2) by (rule_tac TopUpDeposit_verified [OF verified_blank [OF assms(1)] _ _ 2(2)]) auto
  have l2: "l2 = l1" using 2(3) 1(3) Credit_new(2) [OF ag assms(5,3)] Credit_old [OF assms(3)] by auto
  have "creditKey agentID (CHR '' '' # tx) ?src \<notin> credited l1"
    using 1(3) Credit_new(2) [OF ag assms(5,3)] assms(6) by (auto simp: creditKey_def)
  then have "balances l3 agentID = add64 (balances l1 agentID) n"
    using 3(3) l2 Credit_new(1) [OF ag] by simp
  moreover have "balances l1 agentID = add64 (balances l agentID) n"
    using 1(3) Credit_new(1) [OF ag assms(5)] by simp
  moreover have "hcs s \<noteq> None \<longrightarrow> hcs s2 \<noteq> hcs s1" using 1(4) 2(4) by auto
  ultimately show ?thesis
    using 1(1,2) 2(1,2) 3(1,2) l2 ag(1) assms(4)
    by (auto simp: PrepaidBalance_def GetBalance_def writeJSON_def intro!: exI)
qed

theorem deposit_replay_witness:
  "\<exists>s1 s2 s3 p q. TopUpDeposit demo_api demo_service (deposit_request ''a1'' ''0.0.5@1.2'') = (s1, p) \<and>
     TopUpDeposit demo_api s1 (deposit_request ''a1'' ''0.0.5@1.2'') = (s2, p) \<and>
     TopUpDeposit demo_api s2 (deposit_request ''a1'' '' 0.0.5@1.2'') = (s3, q) \<and>
     PrepaidBalance s1 ''a1'' = add64 100 40 \<and> ledger s2 = ledger s1 \<and>
     PrepaidBalance s3 ''a1'' = add64 (add64 100 40) 40"
proof -
  let ?l = "TestingSetBalance NewMemoryLedger ''a1'' 100"
  have "VerifyTopupTx demo_sdk (NewClientFromConfig demo_sdk demo_hedera) ''0.0.5@1.2'' ''0.0.9'' ''a1'' =
      Inr (40, ''HBAR_OR_TOKEN'')" by code_simp
  then have v: "verified_deposit demo_api ''a1'' ''0.0.5@1.2'' 40 ''HBAR_OR_TOKEN''"
    by (simp add: verified_deposit_def demo_api_def demo_hedera_def)
  have l: "ledger demo_service = Some ?l" by (simp add: demo_service_def NewService_def WithPrepaidLedger_def Let_def)
  have "PrepaidBalance demo_service ''a1'' = 100"
    using l by (simp add: PrepaidBalance_def GetBalance_def TestingSetBalance_def)
  with deposit_replay [OF v _ _ l] show ?thesis
    by (simp add: TestingSetBalance_def NewMemoryLedger_def) metis
qed

end
