(* ===== verification/Mcp_Tools.thy ===== *)
theory Mcp_Tools
  imports Naryo_Ingest
begin

text \<open>
  The tools of the Model Context Protocol server (\<^verbatim>\<open>internal/mcp/pipeline.go\<close>) over the same
  service as the REST handlers.  The MCP library decodes the arguments, checks them against the
  schema of the tool and carries the result; a tool is modelled from its typed arguments to what it
  returns to the library.
\<close>

section \<open>Results\<close>

text \<open>The structured output \<open>{statusCode, body}\<close> and the Go error beside it.\<close>

record tool_result =
  tl_status :: nat
  tl_body :: obj
  tl_err :: "err option"

definition mapPipelineErr :: "err \<Rightarrow> nat \<times> obj" where
  "mapPipelineErr e =
     (case e of
        ErrNotFound \<Rightarrow> (404, [(''error'', AStr ''not found'')])
      | ErrInvalidTransition _ _ \<Rightarrow> (409, [(''error'', AStr (err_text e))])
      | InsufficientPrepaidError rem req \<Rightarrow>
          (409, [(''error'', AStr (err_text e))] @ [(''requiredPrepaidUnits'', AInt req)] @
                [(''remainingPrepaidUnits'', AInt rem)])
      | _ \<Rightarrow> (400, [(''error'', AStr (err_text e))]))"

definition okToolResult :: "nat \<Rightarrow> obj \<Rightarrow> tool_result" where
  "okToolResult status body = \<lparr>tl_status = status, tl_body = body, tl_err = None\<rparr>"

definition errToolResult :: "err \<Rightarrow> tool_result" where
  "errToolResult e = (case mapPipelineErr e of (st, body) \<Rightarrow> \<lparr>tl_status = st, tl_body = body, tl_err = Some e\<rparr>)"

section \<open>Tools\<close>

definition rent_pipeline :: "env \<Rightarrow> 'n service \<Rightarrow> string option \<Rightarrow> string \<Rightarrow> 'n service \<times> tool_result" where
  "rent_pipeline env s rnd agentID =
     (let u = PrepaidDevAutoCreditUnits env;
          s1 = (if 0 < u \<and> agentID \<noteq> []
                then fst (CreditTopUp s \<lparr>tu_AgentID = agentID, tu_AmountUnits = u, tu_Source = ''dev_auto'',
                                         tu_SourceTxID = [], tu_Asset = []\<rparr>)
                else s)
      in case Create s1 rnd agentID of
          (s2, Inl e) \<Rightarrow> (s2, errToolResult e)
        | (s2, Inr sess) \<Rightarrow>
            (s2, okToolResult 201 [(''id'', AStr (ID sess)), (''state'', AStr (state_text (State sess)))]))"

datatype lifecycle_tool = start_pipeline | stop_pipeline | pause_pipeline | resume_pipeline

fun tool_call :: "lifecycle_tool \<Rightarrow> 'n naryo_client \<Rightarrow> 'n service \<Rightarrow> string \<Rightarrow> ('n service \<times> err option) option" where
  "tool_call start_pipeline = Start"
| "tool_call stop_pipeline = Stop"
| "tool_call pause_pipeline = Pause"
| "tool_call resume_pipeline = Resume"

definition lifecycle_result :: "'n service \<times> err option \<Rightarrow> 'n service \<times> tool_result" where
  "lifecycle_result x =
     (case x of
        (s, Some e) \<Rightarrow> (s, errToolResult e)
      | (s, None) \<Rightarrow> (s, okToolResult 200 [(''ok'', AStr ''true'')]))"

definition run_lifecycle_tool ::
  "lifecycle_tool \<Rightarrow> 'n naryo_client \<Rightarrow> 'n service \<Rightarrow> string \<Rightarrow> ('n service \<times> tool_result) option" where
  "run_lifecycle_tool t nc s pid = map_option lifecycle_result (tool_call t nc s pid)"

definition reconfigure_pipeline :: "'n service \<Rightarrow> string \<Rightarrow> obj \<Rightarrow> ('n service \<times> tool_result) option" where
  "reconfigure_pipeline s pid patch = map_option lifecycle_result (Reconfigure s pid patch)"

definition get_pipeline_status :: "'n service \<Rightarrow> string \<Rightarrow> tool_result" where
  "get_pipeline_status s pid =
     (case Status s pid of
        Inl e \<Rightarrow> errToolResult e
      | Inr sess \<Rightarrow>
          (case CheckStatusPrepaid s sess of
             Some e \<Rightarrow> errToolResult e
           | None \<Rightarrow>
               okToolResult 200
                 ([(''id'', AStr (ID sess)), (''agentId'', AStr (AgentID sess)),
                   (''state'', AStr (state_text (State sess))), (''billedSeconds'', AInt (BilledSeconds sess)),
                   (''paymentStreamActive'', ABool (PaymentStreamActive sess)),
                   (''rateCentsPerSecond'', AInt (RateCentsPerSecond sess)),
                   (''lastNaryoOpId'', AStr (LastNaryoOpID sess)), (''config'', AObj (Config sess)),
                   (''rateUnitsPerMinute'', AInt (RateUnitsPerMinute sess)),
                   (''chargedUnits'', AInt (ChargedUnits sess)),
                   (''summaryWindowMinutes'', AInt (SummaryWindowMinutes sess)),
                   (''autoPausedForFunds'', ABool (AutoPausedForFunds sess))] @
                  (if AgentID sess \<noteq> [] then [(''prepaidBalanceUnits'', AInt (PrepaidBalance s (AgentID sess)))] else []) @
                  (case NaryoEventsForSession s pid 10 of
                     Inl _ \<Rightarrow> [] | Inr ev \<Rightarrow> [(''recentNaryoEvents'', events_json ev)]))))"

section \<open>Agreement with the REST handlers\<close>

definition as_response :: "tool_result \<Rightarrow> response" where
  "as_response t = writeJSON (tl_status t) (tl_body t)"

lemma as_response_err: "as_response (errToolResult e) = writeErr e"
  by (cases e) (simp_all add: as_response_def errToolResult_def mapPipelineErr_def writeErr_def error_response_def)

lemma as_response_ok: "as_response (okToolResult st body) = writeJSON st body"
  by (simp add: as_response_def okToolResult_def)

definition as_outcome :: "('n service \<times> tool_result) option \<Rightarrow> 'n outcome" where
  "as_outcome x = map_option (map_prod id as_response) x"

lemma lifecycle_agrees: "map_prod id as_response (lifecycle_result x) = lifecycle_response x"
  by (cases x) (auto simp: lifecycle_result_def lifecycle_response_def as_response_err as_response_ok ok_true_def
      split: option.split)

lemma Create_errors:
  assumes "Create s rnd a = (s', Inl e)"
  shows "is_insufficient_prepaid e \<or> rnd = None \<and> e = ErrOther ''rand''"
  using assms
  by (auto simp: Create_def newSessionID_def checkPrepaid_def Let_def split: option.splits if_splits prod.splits)

lemma tl_err_simps [simp]: "tl_err (okToolResult st body) = None" "tl_err (errToolResult e) = Some e"
  by (simp_all add: okToolResult_def errToolResult_def split_beta)

lemma rent_pipeline_eq:
  "rent_pipeline env s rnd agentID =
     (case Create (dev_auto_credit env s agentID) rnd agentID of
        (s2, Inl e) \<Rightarrow> (s2, errToolResult e)
      | (s2, Inr sess) \<Rightarrow> (s2, okToolResult 201 (created_body sess)))"
  unfolding rent_pipeline_def dev_auto_credit_def created_body_def Let_def ..

lemma rent_agrees:
  "CreatePipeline a s r =
     (case rent_pipeline (ap_env a) s (rq_rand r) (decode_create (rq_body r)) of (s', x) \<Rightarrow>
        (s', if tl_err x = Some (ErrOther ''rand'') then error_response 500 ''rand'' else as_response x))"
proof -
  let ?agent = "decode_create (rq_body r)"
  let ?s1 = "dev_auto_credit (ap_env a) s ?agent"
  obtain s2 res where c: "Create ?s1 (rq_rand r) ?agent = (s2, res)" by (cases "Create ?s1 (rq_rand r) ?agent")
  show ?thesis
  proof (cases res)
    case (Inl e)
    with Create_errors [of ?s1 "rq_rand r" ?agent s2 e] c show ?thesis
      by (cases e) (auto simp: CreatePipeline_def rent_pipeline_eq as_response_err)
  next
    case (Inr sess)
    with c show ?thesis by (simp add: CreatePipeline_def rent_pipeline_eq as_response_ok)
  qed
qed

definition tool_endpoint :: "lifecycle_tool \<Rightarrow> endpoint" where
  "tool_endpoint t = (case t of start_pipeline \<Rightarrow> EStart | stop_pipeline \<Rightarrow> EStop | pause_pipeline \<Rightarrow> EPause
     | resume_pipeline \<Rightarrow> EResume)"

text \<open>
  C33: the MCP tools and the REST endpoints are the same operations.  On the same service and input
  they leave the same state and report the same status and body, with two exceptions: a creation for
  which the random source fails is status 500 over REST and 400 as a tool, and a successful
  reconfiguration tells only the REST client that Naryo was not touched.
\<close>

theorem mcp_agrees_with_rest:
  "endpoint_handler a s (tool_endpoint t) r = as_outcome (run_lifecycle_tool t (ap_naryo a) s (rq_path r)) \<and>
   GetStatus s r = as_response (get_pipeline_status s (rq_path r)) \<and>
   CreatePipeline a s r =
     (case rent_pipeline (ap_env a) s (rq_rand r) (decode_create (rq_body r)) of (s', x) \<Rightarrow>
        (s', if tl_err x = Some (ErrOther ''rand'') then error_response 500 ''rand'' else as_response x)) \<and>
   PutReconfigure s r =
     (case readJSON reconfigureBody_fields \<lparr>rb_patch = []\<rparr> r of
        Inl bad \<Rightarrow> Some (s, bad)
      | Inr body \<Rightarrow> map_option (\<lambda>(s', x).
            (s', if tl_err x = None then writeJSON 200 (tl_body x @ [(''naryoTouched'', ABool False)]) else as_response x))
          (reconfigure_pipeline s (rq_path r) (rb_patch body)))"
proof (intro conjI)
  show "endpoint_handler a s (tool_endpoint t) r = as_outcome (run_lifecycle_tool t (ap_naryo a) s (rq_path r))"
    by (cases t)
       (simp_all add: tool_endpoint_def endpoint_handler_def as_outcome_def run_lifecycle_tool_def PostStart_def
         PostStop_def PostPause_def PostResume_def option.map_comp comp_def lifecycle_agrees)
  show "GetStatus s r = as_response (get_pipeline_status s (rq_path r))"
    by (auto simp: GetStatus_def get_pipeline_status_def as_response_err as_response_ok status_body_def Status_def
        Get_def CheckStatusPrepaid_def writeErr_def Let_def split: sum.splits option.splits if_splits)
  show "CreatePipeline a s r =
     (case rent_pipeline (ap_env a) s (rq_rand r) (decode_create (rq_body r)) of (s', x) \<Rightarrow>
        (s', if tl_err x = Some (ErrOther ''rand'') then error_response 500 ''rand'' else as_response x))"
    by (rule rent_agrees)
  show "PutReconfigure s r =
     (case readJSON reconfigureBody_fields \<lparr>rb_patch = []\<rparr> r of
        Inl bad \<Rightarrow> Some (s, bad)
      | Inr body \<Rightarrow> map_option (\<lambda>(s', x).
            (s', if tl_err x = None then writeJSON 200 (tl_body x @ [(''naryoTouched'', ABool False)]) else as_response x))
          (reconfigure_pipeline s (rq_path r) (rb_patch body)))"
  proof (cases "readJSON reconfigureBody_fields \<lparr>rb_patch = []\<rparr> r")
    case (Inr body)
    then show ?thesis
    proof (cases "Reconfigure s (rq_path r) (rb_patch body)")
      case (Some x)
      with Inr show ?thesis
        by (cases x; cases "snd x")
           (simp_all add: PutReconfigure_def reconfigure_pipeline_def lifecycle_result_def as_response_err okToolResult_def)
    qed (simp add: PutReconfigure_def reconfigure_pipeline_def)
  qed (simp add: PutReconfigure_def)
qed

end
