(* ===== verification/Go_Float.thy ===== *)
theory Go_Float
  imports Json_Text
begin

text \<open>
  Arithmetic on \<open>float64\<close>, \<open>strconv.ParseFloat\<close> and \<open>time.ParseDuration\<close>, as far as the program uses them.
\<close>

section \<open>Arithmetic\<close>

datatype float64 = FFin f64 | FInf bool | FNaN

text \<open>The number nearest to a ratio, with its sign; an infinity when it is out of range.\<close>

definition of_ratio :: "bool \<Rightarrow> nat \<Rightarrow> nat \<Rightarrow> float64" where
  "of_ratio neg p q =
     (if p = 0 then FFin (F64 neg 0 (- 1074))
      else case round_f64 p q of None \<Rightarrow> FInf neg | Some (m, e) \<Rightarrow> FFin (F64 neg m e))"

definition of_int64 :: "int \<Rightarrow> float64" where
  "of_int64 n = of_ratio (n < 0) (nat \<bar>n\<bar>) 1"

definition negative :: "float64 \<Rightarrow> bool" where
  "negative x = (case x of FFin a \<Rightarrow> fneg a | FInf s \<Rightarrow> s | FNaN \<Rightarrow> False)"

fun f_mul :: "float64 \<Rightarrow> float64 \<Rightarrow> float64" where
  "f_mul FNaN y = FNaN"
| "f_mul x FNaN = FNaN"
| "f_mul (FFin a) (FFin b) = of_ratio (fneg a \<noteq> fneg b) (f64_num a * f64_num b) (f64_den a * f64_den b)"
| "f_mul (FFin a) (FInf s) = (if fman a = 0 then FNaN else FInf (fneg a \<noteq> s))"
| "f_mul (FInf s) (FFin b) = (if fman b = 0 then FNaN else FInf (s \<noteq> fneg b))"
| "f_mul (FInf s) (FInf t) = FInf (s \<noteq> t)"

fun f_div :: "float64 \<Rightarrow> float64 \<Rightarrow> float64" where
  "f_div FNaN y = FNaN"
| "f_div x FNaN = FNaN"
| "f_div (FFin a) (FFin b) =
     (if fman b = 0 then (if fman a = 0 then FNaN else FInf (fneg a \<noteq> fneg b))
      else of_ratio (fneg a \<noteq> fneg b) (f64_num a * f64_den b) (f64_den a * f64_num b))"
| "f_div (FFin a) (FInf s) = FFin (F64 (fneg a \<noteq> s) 0 (- 1074))"
| "f_div (FInf s) (FFin b) = FInf (s \<noteq> fneg b)"
| "f_div (FInf s) (FInf t) = FNaN"

text \<open>The verb \<open>%.df\<close> on any \<open>float64\<close>.\<close>

definition fmt_float :: "nat \<Rightarrow> float64 \<Rightarrow> string" where
  "fmt_float d x = (case x of FFin a \<Rightarrow> fmt_fixed d a | FInf s \<Rightarrow> (if s then ''-Inf'' else ''+Inf'') | FNaN \<Rightarrow> ''NaN'')"

section \<open>Parsing a float\<close>

text \<open>\<open>underscoreOK\<close>: an underscore stands between digits, or between a base prefix and a digit.\<close>

datatype seen = SawStart | SawDigit | SawUnderscore | SawOther

fun underscores :: "bool \<Rightarrow> seen \<Rightarrow> string \<Rightarrow> bool" where
  "underscores hx saw [] \<longleftrightarrow> saw \<noteq> SawUnderscore"
| "underscores hx saw (c # cs) =
     (if is_digit c \<or> hx \<and> hex_val c \<noteq> None then underscores hx SawDigit cs
      else if c = CHR ''_'' then saw = SawDigit \<and> underscores hx SawUnderscore cs
      else saw \<noteq> SawUnderscore \<and> underscores hx SawOther cs)"

text \<open>The sign, the mantissa with its number of digits after the point, and the exponent.\<close>

definition drop_sign :: "string \<Rightarrow> bool \<times> string" where
  "drop_sign s =
     (if s \<noteq> [] \<and> (hd s = CHR ''+'' \<or> hd s = CHR ''-'') then (hd s = CHR ''-'', tl s) else (False, s))"

definition hex_prefix :: "string \<Rightarrow> bool" where
  "hex_prefix s \<longleftrightarrow> 2 < length s \<and> hd s = CHR ''0'' \<and> lower_char (s ! 1) = CHR ''x''"

definition base_prefix :: "string \<Rightarrow> bool" where
  "base_prefix s \<longleftrightarrow> 2 \<le> length s \<and> hd s = CHR ''0'' \<and> lower_char (s ! 1) \<in> {CHR ''b'', CHR ''o'', CHR ''x''}"

definition underscoreOK :: "string \<Rightarrow> bool" where
  "underscoreOK s0 =
     (let s = snd (drop_sign s0)
      in if base_prefix s then underscores (lower_char (s ! 1) = CHR ''x'') SawDigit (drop 2 s)
         else underscores False SawStart s)"

text \<open>Digits of the exponent beyond the fifth are ignored.\<close>

definition read_exponent :: "string \<Rightarrow> int option" where
  "read_exponent s0 =
     (case drop_sign s0 of (neg, s) \<Rightarrow>
        if s = [] \<or> \<not> is_digit (hd s) \<or> \<not> list_all (\<lambda>c. is_digit c \<or> c = CHR ''_'') s then None
        else let e = foldl (\<lambda>e c. if e < 10000 then e * 10 + int ((case digit_val c of None \<Rightarrow> 0 | Some n \<Rightarrow> n)) else e) 0
                       (filter is_digit s)
             in Some (if neg then - e else e))"

definition readFloat :: "string \<Rightarrow> (bool \<times> bool \<times> nat \<times> nat \<times> int) option" where
  "readFloat s0 =
     (case drop_sign s0 of (neg, s1) \<Rightarrow>
        let hx = hex_prefix s1; s = (if hx then drop 2 s1 else s1);
            dig = (\<lambda>c. is_digit c \<or> hx \<and> hex_val c \<noteq> None);
            body = takeWhile (\<lambda>c. dig c \<or> c = CHR ''_'' \<or> c = CHR ''.'') s; rest = drop (length body) s;
            frac = filter dig (dropWhile (\<lambda>c. c \<noteq> CHR ''.'') body); ds = filter dig body;
            m = foldl (\<lambda>v c. v * (if hx then 16 else 10) + (case hex_val c of None \<Rightarrow> 0 | Some n \<Rightarrow> n)) 0 ds
        in if ds = [] \<or> 1 < length (filter (\<lambda>c. c = CHR ''.'') body) \<or> \<not> underscoreOK s0 then None
           else if rest = [] then (if hx then None else Some (neg, hx, m, length frac, 0))
           else if lower_char (hd rest) \<noteq> (if hx then CHR ''p'' else CHR ''e'') then None
           else map_option (\<lambda>e. (neg, hx, m, length frac, e)) (read_exponent (tl rest)))"

datatype num_error = ErrSyntax | ErrRange

definition special :: "string \<Rightarrow> float64 option" where
  "special s0 =
     (case drop_sign s0 of (neg, s) \<Rightarrow>
        if ToLower s \<in> {''inf'', ''infinity''} then Some (FInf neg)
        else if ToLower s0 = ''nan'' then Some FNaN else None)"

definition ParseFloat :: "string \<Rightarrow> num_error + float64" where
  "ParseFloat s =
     (case special s of
        Some x \<Rightarrow> Inr x
      | None \<Rightarrow>
          (case readFloat s of
             None \<Rightarrow> Inl ErrSyntax
           | Some (neg, hx, m, k, e) \<Rightarrow>
               let x = (if hx then e - 4 * int k else e - int k); b = (if hx then 2 else 10);
                   v = of_ratio neg (m * b ^ nat x) (b ^ nat (- x))
               in (case v of FInf _ \<Rightarrow> Inl ErrRange | _ \<Rightarrow> Inr v)))"

section \<open>Parsing a duration\<close>

fun leadingInt :: "nat \<Rightarrow> string \<Rightarrow> (nat \<times> string) option" where
  "leadingInt x [] = Some (x, [])"
| "leadingInt x (c # cs) =
     (if \<not> is_digit c then Some (x, c # cs)
      else if 2 ^ 63 div 10 < x then None
      else let x' = x * 10 + (case digit_val c of None \<Rightarrow> 0 | Some n \<Rightarrow> n) in if 2 ^ 63 < x' then None else leadingInt x' cs)"

fun leadingFraction :: "nat \<Rightarrow> float64 \<Rightarrow> bool \<Rightarrow> string \<Rightarrow> nat \<times> float64 \<times> string" where
  "leadingFraction x scale overflow [] = (x, scale, [])"
| "leadingFraction x scale overflow (c # cs) =
     (if \<not> is_digit c then (x, scale, c # cs)
      else let y = x * 10 + (case digit_val c of None \<Rightarrow> 0 | Some n \<Rightarrow> n)
           in if overflow \<or> (2 ^ 63 - 1) div 10 < x \<or> 2 ^ 63 < y then leadingFraction x scale True cs
              else leadingFraction y (f_mul scale (of_int64 10)) False cs)"

definition unit_ns :: "string \<Rightarrow> nat option" where
  "unit_ns = map_of
     [(''ns'', 1), (''us'', 10 ^ 3), (bytes [194, 181, 115], 10 ^ 3), (bytes [206, 188, 115], 10 ^ 3),
      (''ms'', 10 ^ 6), (''s'', 10 ^ 9), (''m'', 60 * 10 ^ 9), (''h'', 3600 * 10 ^ 9)]"

definition to_uint64 :: "float64 \<Rightarrow> nat" where
  "to_uint64 x = (case x of FFin a \<Rightarrow> f64_num a div f64_den a | _ \<Rightarrow> 0)"

text \<open>One number with its unit, in nanoseconds, and the rest of the text.\<close>

definition duration_part :: "string \<Rightarrow> (nat \<times> string) option" where
  "duration_part s0 =
     (case leadingInt 0 s0 of
        None \<Rightarrow> None
      | Some (v, s1) \<Rightarrow>
          let pre = (s1 \<noteq> s0); dot = (s1 \<noteq> [] \<and> hd s1 = CHR ''.'');
              (f, scale, s2) = (if dot then leadingFraction 0 (of_int64 1) False (tl s1) else (0, of_int64 1, s1));
              post = (dot \<and> s2 \<noteq> tl s1);
              u = takeWhile (\<lambda>c. c \<noteq> CHR ''.'' \<and> \<not> is_digit c) s2
          in if \<not> pre \<and> \<not> post \<or> u = [] then None
             else (case unit_ns u of
                 None \<Rightarrow> None
               | Some unit \<Rightarrow>
                   if 2 ^ 63 div unit < v then None
                   else let v' = v * unit + (if 0 < f then to_uint64 (f_mul (of_int64 (int f)) (f_div (of_int64 (int unit)) scale)) else 0)
                        in if 0 < f \<and> 2 ^ 63 < v' then None else Some (v', drop (length u) s2)))"

lemma length_leadingInt: "leadingInt x s = Some (v, t) \<Longrightarrow> length t \<le> length s"
  by (induction x s rule: leadingInt.induct) (auto simp: Let_def split: if_splits)

lemma length_leadingFraction: "leadingFraction x sc ov s = (f, sc', t) \<Longrightarrow> length t \<le> length s"
  by (induction x sc ov s rule: leadingFraction.induct) (auto simp: Let_def split: if_splits)

lemma duration_part_shorter: "duration_part s = Some (v, t) \<Longrightarrow> length t < length s"
proof -
  assume h: "duration_part s = Some (v, t)"
  then obtain v1 s1 where i: "leadingInt 0 s = Some (v1, s1)"
    by (auto simp: duration_part_def split: option.splits)
  define dot where "dot = (s1 \<noteq> [] \<and> hd s1 = CHR ''.'')"
  obtain f sc s2 where l: "(if dot then leadingFraction 0 (of_int64 1) False (tl s1) else (0, of_int64 1, s1)) = (f, sc, s2)"
    by (cases "if dot then leadingFraction 0 (of_int64 1) False (tl s1) else (0, of_int64 1, s1)") blast
  then have "length s2 \<le> length s1"
    using length_leadingFraction [of 0 "of_int64 1" False "tl s1" f sc s2] by (auto split: if_splits)
  moreover have "takeWhile (\<lambda>c. c \<noteq> CHR ''.'' \<and> \<not> is_digit c) s2 \<noteq> []"
    "t = drop (length (takeWhile (\<lambda>c. c \<noteq> CHR ''.'' \<and> \<not> is_digit c) s2)) s2"
    using h i l by (auto simp: duration_part_def Let_def dot_def split: option.splits if_splits)
  ultimately show ?thesis
    using length_leadingInt [OF i] by (cases s2) (auto split: if_splits)
qed

text \<open>The sum of the parts, in 64 bits.\<close>

function duration_parts :: "nat \<Rightarrow> string \<Rightarrow> nat option" where
  "duration_parts d s =
     (if s = [] then Some d
      else case duration_part s of
          None \<Rightarrow> None
        | Some (v, t) \<Rightarrow> let d' = (d + v) mod 2 ^ 64 in if 2 ^ 63 < d' then None else duration_parts d' t)"
  by pat_completeness auto
termination
  by (relation "measure (\<lambda>(d, s). length s)") (auto dest: duration_part_shorter)

declare duration_parts.simps [simp del]

definition ParseDuration :: "string \<Rightarrow> int option" where
  "ParseDuration s0 =
     (case drop_sign s0 of (neg, s) \<Rightarrow>
        if s = ''0'' then Some 0
        else if s = [] then None
        else (case duration_parts 0 s of
            None \<Rightarrow> None
          | Some d \<Rightarrow> if neg then Some (- int d) else if 2 ^ 63 - 1 < d then None else Some (int d)))"

end
