(* ===== verification/Payment_Gate.thy ===== *)
theory Payment_Gate
  imports Config Go_Float
begin

text \<open>
  What a start costs and which requests are gated: \<open>MulUSDPrice\<close> of \<^verbatim>\<open>config/x402.go\<close> and
  \<^verbatim>\<open>http/middleware/x402.go\<close>.  The x402 library is a parameter.
\<close>

section \<open>The price\<close>

text \<open>The errors, with the text that could not be read.\<close>

datatype price_error = NotADollarAmount string | BadNumber num_error string

definition MulUSDPrice :: "string \<Rightarrow> int \<Rightarrow> price_error + string" where
  "MulUSDPrice perUnit units0 =
     (let s = TrimSpace perUnit; units = (if units0 \<le> 0 then 300 else units0)
      in if \<not> HasPrefix s ''$'' then Inl (NotADollarAmount s)
         else (case ParseFloat (TrimPrefix s ''$'') of
                 Inl e \<Rightarrow> Inl (BadNumber e (TrimPrefix s ''$''))
               | Inr n \<Rightarrow> Inr (CHR ''$'' # fmt_float 10 (f_mul n (of_int64 units)))))"

section \<open>The routes\<close>

text \<open>The price of a route is computed for each request, but from the configuration only.\<close>

record x402_route =
  xr_Scheme :: string
  xr_PayTo :: string
  xr_Price :: "price_error + string"
  xr_Network :: string
  xr_Description :: string
  xr_MimeType :: string

definition PipelineRoutes :: "X402 \<Rightarrow> (string \<times> x402_route) list" where
  "PipelineRoutes cfg =
     (let runSecs = (if StartRunwaySeconds cfg \<le> 0 then 300 else StartRunwaySeconds cfg)
      in [(''POST /v1/pipelines/*/start'',
           \<lparr>xr_Scheme = ''exact'', xr_PayTo = PayTo cfg, xr_Price = MulUSDPrice (Price cfg) runSecs,
            xr_Network = XNetwork cfg, xr_Description = ''Pipeline start'', xr_MimeType = ''application/json''\<rparr>)])"

section \<open>The gate\<close>

text \<open>
  The library: a server \<open>'s\<close> for routes and a facilitator \<open>'f\<close>, the registration of the exact scheme
  for a network, the first synchronisation (its error is a text) and the middleware \<open>'m\<close>, with its
  timeout in nanoseconds.
\<close>

record ('s, 'f, 'm) x402_lib =
  Newx402HTTPResourceServer :: "(string \<times> x402_route) list \<Rightarrow> 'f \<Rightarrow> 's"
  Register :: "'s \<Rightarrow> string \<Rightarrow> 's"
  Initialize :: "'s \<Rightarrow> int \<Rightarrow> 's \<times> string option"
  PaymentMiddlewareFromHTTPServer :: "'s \<Rightarrow> 'f \<Rightarrow> bool \<Rightarrow> int \<Rightarrow> 'm"

text \<open>The middleware and the lines it printed.\<close>

definition PaymentGate :: "('s, 'f, 'm) x402_lib \<Rightarrow> X402 \<Rightarrow> 'f \<Rightarrow> bool \<Rightarrow> 'm \<times> string list" where
  "PaymentGate lib cfg facilitator syncFacilitatorOnStart =
     (let timeout = 30 * 10 ^ 9;
          httpServer = Register lib (Newx402HTTPResourceServer lib (PipelineRoutes cfg) facilitator) (XNetwork cfg);
          (httpServer, out) =
            (if syncFacilitatorOnStart
             then (case Initialize lib httpServer timeout of
                     (srv, Some e) \<Rightarrow> (srv, [''Warning: failed to initialize x402 server: '' @ e])
                   | (srv, None) \<Rightarrow> (srv, []))
             else (httpServer, []))
      in (PaymentMiddlewareFromHTTPServer lib httpServer facilitator False timeout, out))"

end
