(* ===== verification/Api_Main.thy ===== *)
theory Api_Main
  imports Hcs_Logger Rest_Facts Mcp_Tools Observability Payment_Gate
begin

text \<open>
  The process: \<^verbatim>\<open>cmd/api/main.go\<close>.  How the components are built from the environment and how a
  request finds its handler.  Signals, listening and shutdown are not modelled.
\<close>

section \<open>Wiring\<close>

definition main_logger :: "Hedera \<Rightarrow> hcs_logger" where
  "main_logger cfg =
     NewLogger (if AuditTopicID cfg \<noteq> [] \<and> OperatorAccountID cfg \<noteq> [] \<and> OperatorPrivateKey cfg \<noteq> []
                then [WithHCSTopic True (AuditTopicID cfg)] else [])"

definition main_options :: "env \<Rightarrow> Hedera \<Rightarrow> MemoryLedger \<Rightarrow> 'n service_option list" where
  "main_options env cfg led =
     [WithPrepaidLedger (Some led), WithSummaryWindowMinutes (HSummaryWindowMinutes cfg)] @
     (let ru = PrepaidRateUnitsPerMinute env in if 0 < ru then [WithRateUnitsPerMinute ru] else []) @
     (let di = PrepaidDebitIntervalSeconds env in if 0 < di then [WithDebitIntervalSeconds di] else []) @
     (let ms = PrepaidMinStartMinutes env in if 0 < ms then [WithMinStartMinutes ms] else [])"

text \<open>The service at the time \<open>now\<close>, with the client that \<open>NewFromEnv\<close> returned.\<close>

definition main_service :: "env \<Rightarrow> gotime \<Rightarrow> 'n \<Rightarrow> 'n service" where
  "main_service env now client =
     NewService NewMemoryStore client (Some []) 1 (Some (NewActivityLog 256)) now
       (main_options env (LoadHederaFromEnv env) NewMemoryLedger)"

definition main_api ::
  "env \<Rightarrow> ('a, 't, 'p, 'k) hiero \<Rightarrow> 'n observable_client \<Rightarrow> ('n, 'a, 't, 'p, 'k) API" where
  "main_api env sdk c =
     \<lparr>ap_naryo = naryo_client.truncate c, ap_env = env, ap_sdk = sdk,
      ap_HederaClient = Some (NewClientFromConfig sdk (LoadHederaFromEnv env)), ap_HederaCfg = LoadHederaFromEnv env\<rparr>"

definition main_addr :: "env \<Rightarrow> string" where
  "main_addr env = (if env ''PORT'' \<noteq> [] then CHR '':'' # env ''PORT'' else '':8080'')"

text \<open>
  What main builds before it listens, or the error it exits with: the service, the API, the views, the
  logger, the gate with the lines it printed, and whether the warnings about the payee and about
  provisioning are given.
\<close>

definition zero_payee :: "X402 \<Rightarrow> bool" where
  "zero_payee xcfg =
     (let addr = TrimSpace (PayTo xcfg) in addr = [] \<or> EqualFold addr ''0x0000000000000000000000000000000000000000'')"

definition main_start ::
  "('a, 't, 'p, 'k) hiero \<Rightarrow> 'w outside \<Rightarrow> ('s, 'f, 'm) x402_lib \<Rightarrow> (string \<Rightarrow> 'f) \<Rightarrow> string \<Rightarrow> env \<Rightarrow> gotime \<Rightarrow> 'w \<Rightarrow>
   err + 'w HTTPClient service \<times> ('w HTTPClient, 'a, 't, 'p, 'k) API \<times> 'w HTTPClient observable_client \<times> hcs_logger \<times>
         ('m \<times> string list) \<times> bool \<times> bool" where
  "main_start sdk out lib NewHTTPFacilitatorClient defaultFacilitatorURL env now w =
     (let xcfg = LoadX402FromEnv defaultFacilitatorURL env;
          facilitator = NewHTTPFacilitatorClient (FacilitatorURL xcfg)
      in case NewFromEnv env w of
          Inl e \<Rightarrow> Inl e
        | Inr c \<Rightarrow>
            Inr (main_service env now c, main_api env sdk (observable_http out), observable_http out,
                 main_logger (LoadHederaFromEnv env), PaymentGate lib xcfg facilitator True,
                 zero_payee xcfg, NaryoSkipEgressProvision env))"

section \<open>The root mux\<close>

datatype target =
    TEndpoint endpoint string
  | TSummary | TDetail string | TConfiguration
  | TGuarded
  | TMcp
  | TStatus nat

definition root_table :: "(string \<times> segment list \<times> (string \<Rightarrow> target)) list" where
  "root_table =
     [(''GET'', [Lit ''healthz''], TEndpoint EHealth),
      (''GET'', [Lit ''observability'', Lit ''v1'', Lit ''summary''], \<lambda>_. TSummary),
      (''GET'', [Lit ''observability'', Lit ''v1'', Lit ''pipelines'', Wild], TDetail),
      (''GET'', [Lit ''observability'', Lit ''v1'', Lit ''naryo'', Lit ''configuration''], \<lambda>_. TConfiguration)] @
     map (\<lambda>(m, p, e). (m, p, TEndpoint e)) RegisterInternalRoutes"

text \<open>The pattern \<open>/v1/\<close> takes every longer path below it, with any method; \<open>/mcp\<close> is an exact path.\<close>

definition root_route :: "string \<Rightarrow> string list \<Rightarrow> target" where
  "root_route meth path =
     (if path = [''mcp''] then TMcp
      else if 2 \<le> length path \<and> hd path = ''v1'' then TGuarded
      else let hits = List.map_filter (\<lambda>(m, p, f). map_option (\<lambda>vs. (m, f (concat vs))) (match_path p path)) root_table
           in if hits = [] then TStatus 404
              else case List.find (\<lambda>(m, t). m = meth \<or> m = ''GET'' \<and> meth = ''HEAD'') hits of
                  None \<Rightarrow> TStatus 405
                | Some (m, t) \<Rightarrow> t)"

text \<open>
  \<open>gate\<close> is the payment middleware of the x402 library in front of \<open>/v1/\<close>: the response it gives
  instead of the handler's, if it stops the request.  \<open>mcp\<close> is the MCP library's transport in front of
  the tools.
\<close>

definition root_serve ::
  "('n, 'a, 't, 'p, 'k) API \<Rightarrow> 'n observable_client \<Rightarrow> (string \<Rightarrow> string list \<Rightarrow> request \<Rightarrow> response option) \<Rightarrow>
   ('n service \<Rightarrow> request \<Rightarrow> 'n outcome) \<Rightarrow> string list \<Rightarrow> 'n service \<Rightarrow> string \<Rightarrow> string list \<Rightarrow> request \<Rightarrow> 'n outcome" where
  "root_serve a c gate mcp order s meth path r =
     (let d = \<lparr>ob_env = ap_env a, ob_Naryo = Some c, ob_method = meth\<rparr>
      in case root_route meth path of
          TEndpoint e v \<Rightarrow> endpoint_handler a s e (r\<lparr>rq_path := v\<rparr>)
        | TSummary \<Rightarrow> ObservabilitySummary d order s
        | TDetail v \<Rightarrow> Some (s, ObservabilityPipelineDetail d s (r\<lparr>rq_path := v\<rparr>))
        | TConfiguration \<Rightarrow> ObservabilityNaryoConfiguration d s r
        | TGuarded \<Rightarrow> (case gate meth path r of Some p \<Rightarrow> Some (s, p) | None \<Rightarrow> serve a s NewMux meth path r)
        | TMcp \<Rightarrow> mcp s r
        | TStatus n \<Rightarrow> Some (s, \<lparr>rs_status = n, rs_body = AStr (if n = 404 then ''404 page not found'' else ''Method Not Allowed'')\<rparr>))"

section \<open>What the wiring guarantees\<close>

definition positive_or :: "int \<Rightarrow> int \<Rightarrow> int" where
  "positive_or n def = (if 0 < n then n else def)"

lemma env_positive: "0 < env_int env k 1 \<or> env_int env k 1 = 0"
  using env_int_bounds [of 1 env k] by auto

lemma window_in_range:
  "5 \<le> HSummaryWindowMinutes (LoadHederaFromEnv env) \<and> HSummaryWindowMinutes (LoadHederaFromEnv env) \<le> 15"
  using clamp_bounds by (auto simp: LoadHederaFromEnv_def Let_def split: option.split)

section \<open>Properties\<close>

text \<open>
  C40: the service that main builds, for any environment: prepaid metering is on with an empty ledger,
  the rate, the debit interval and the least run time are the configured ones where they are positive
  and 1 unit, 300 seconds and 10 minutes otherwise, the summary window is the clamped one, the feed
  keeps 256 entries, and the audit log has a topic exactly when one is configured with an operator.
\<close>

theorem main_service_settings:
  "let s = main_service env now c in
     ledger s = Some NewMemoryLedger \<and> sessions (store s) = Map.empty \<and> hcs s = Some [] \<and>
     rateUnitsPerMinute s = positive_or (PrepaidRateUnitsPerMinute env) 1 \<and>
     debitIntervalSeconds s = positive_or (PrepaidDebitIntervalSeconds env) 300 \<and>
     minStartMinutes s = positive_or (PrepaidMinStartMinutes env) 10 \<and>
     summaryWindowMinutes s = HSummaryWindowMinutes (LoadHederaFromEnv env) \<and>
     5 \<le> summaryWindowMinutes s \<and> summaryWindowMinutes s \<le> 15 \<and>
     map_option al_max (activity s) = Some 256 \<and>
     loop_started (main_logger (LoadHederaFromEnv env)) =
       (getEnv env ''HEDERA_AUDIT_TOPIC_ID'' \<noteq> [] \<and> getEnv env ''HEDERA_OPERATOR_ID'' \<noteq> [] \<and>
        getEnv env ''HEDERA_OPERATOR_KEY'' \<noteq> [])"
proof -
  have h: "AuditTopicID (LoadHederaFromEnv env) = getEnv env ''HEDERA_AUDIT_TOPIC_ID''"
    "OperatorAccountID (LoadHederaFromEnv env) = getEnv env ''HEDERA_OPERATOR_ID''"
    "OperatorPrivateKey (LoadHederaFromEnv env) = getEnv env ''HEDERA_OPERATOR_KEY''"
    by (simp_all add: LoadHederaFromEnv_def Let_def split: option.split)
  have l: "loop_started (main_logger (LoadHederaFromEnv env)) =
       (getEnv env ''HEDERA_AUDIT_TOPIC_ID'' \<noteq> [] \<and> getEnv env ''HEDERA_OPERATOR_ID'' \<noteq> [] \<and>
        getEnv env ''HEDERA_OPERATOR_KEY'' \<noteq> [])"
    by (simp add: loop_started_def main_logger_def NewLogger_def WithHCSTopic_def h)
  have w: "clampSummaryWin (HSummaryWindowMinutes (LoadHederaFromEnv env)) = HSummaryWindowMinutes (LoadHederaFromEnv env)"
    using window_in_range [of env] by (simp add: clampSummaryWin_def)
  show ?thesis
    using window_in_range [of env] l w
    by (simp add: main_service_def main_options_def NewService_def Let_def positive_or_def WithPrepaidLedger_def
        WithSummaryWindowMinutes_def WithRateUnitsPerMinute_def WithDebitIntervalSeconds_def WithMinStartMinutes_def
        NewMemoryStore_def NewActivityLog_def)
qed

end
