(* ===== verification/Process.thy ===== *)
theory Process
  imports Api_Main Accounting
begin

text \<open>
  The running process: requests on every route, tool calls and billing ticks interleave over the
  service that main builds.  What the service guarantees holds for all of them.
\<close>

lemma main_service_starts: "sessions (store (main_service env now c)) = Map.empty \<and> hcs (main_service env now c) = Some []"
  by (simp add: main_service_def main_options_def NewService_def Let_def WithPrepaidLedger_def
        WithSummaryWindowMinutes_def WithRateUnitsPerMinute_def WithDebitIntervalSeconds_def WithMinStartMinutes_def
        NewMemoryStore_def)

section \<open>Steps of the process\<close>

text \<open>The id drawn for a creation is not in use: eight random bytes do not repeat.\<close>

definition fresh_id :: "'n service \<Rightarrow> string option \<Rightarrow> bool" where
  "fresh_id s rnd \<longleftrightarrow> (case newSessionID rnd of Inl e \<Rightarrow> True | Inr sid \<Rightarrow> sessions (store s) sid = None)"

text \<open>
  A request to the root mux other than to the MCP transport, a tool called through that transport, a
  tick of the billing loop, or time passing.  \<open>gate\<close> and the transport are the libraries in front.
\<close>

inductive process_step ::
  "('n, 'a, 't, 'p, 'k) API \<Rightarrow> 'n observable_client \<Rightarrow> (string \<Rightarrow> string list \<Rightarrow> request \<Rightarrow> response option) \<Rightarrow>
   'n service \<Rightarrow> 'n service \<Rightarrow> bool" for a c gate where
  request: "root_serve a c gate mcp order s meth path r = Some (s', p) \<Longrightarrow> root_route meth path \<noteq> TMcp \<Longrightarrow>
    fresh_id s (rq_rand r) \<Longrightarrow> process_step a c gate s s'"
| rent: "fresh_id s rnd \<Longrightarrow> process_step a c gate s (fst (rent_pipeline (ap_env a) s rnd agentID))"
| tool: "run_lifecycle_tool t (ap_naryo a) s pid = Some (s', x) \<Longrightarrow> process_step a c gate s s'"
| reconfigure_tool: "reconfigure_pipeline s pid patch = Some (s', x) \<Longrightarrow> process_step a c gate s s'"
| tick: "iteration (store s) order \<Longrightarrow> runBillingTick (ap_naryo a) order s = Some s' \<Longrightarrow> process_step a c gate s s'"
| clock: "wall s \<le> t \<Longrightarrow> process_step a c gate s (at_time t s)"

text \<open>A dashboard request reaches the Naryo client only.\<close>

definition service_move :: "'n naryo_client \<Rightarrow> 'n service \<Rightarrow> 'n service \<Rightarrow> bool" where
  "service_move nc s s' \<longleftrightarrow> (svc_step nc)\<^sup>*\<^sup>* s s' \<or> (\<exists>n. s' = s\<lparr>naryo := n\<rparr>)"

named_theorems move_intros \<open>what a handler does is a run of the service\<close>

lemma move_refl [move_intros]: "(svc_step nc)\<^sup>*\<^sup>* s s"
  by (rule rtranclp.rtrancl_refl)

lemma Create_moves:
  assumes "fresh_id s rnd"
  shows "(svc_step nc)\<^sup>*\<^sup>* s (fst (Create s rnd agent))"
proof (cases "newSessionID rnd")
  case (Inl e)
  then have "fst (Create s rnd agent) = s" by (simp add: Create_def split: option.split)
  then show ?thesis by (simp only: move_refl)
next
  case (Inr sid)
  with assms show ?thesis by (intro r_into_rtranclp svc_step.create) (simp_all add: fresh_id_def)
qed

lemma auto_credit_moves: "(svc_step nc)\<^sup>*\<^sup>* s (dev_auto_credit env s agent)"
  by (auto simp: dev_auto_credit_def Let_def intro: svc_step.topup)

lemma fresh_after_credit: "fresh_id (dev_auto_credit env s agent) rnd = fresh_id s rnd"
  by (simp add: fresh_id_def dev_auto_credit_def Let_def split: sum.split)

lemma credited_Create_moves:
  "fresh_id s rnd \<Longrightarrow> (svc_step nc)\<^sup>*\<^sup>* s (fst (Create (dev_auto_credit env s agent) rnd agent))"
  by (rule rtranclp_trans [OF auto_credit_moves Create_moves]) (simp add: fresh_after_credit)

lemma rent_moves [move_intros]:
  "fresh_id s rnd \<Longrightarrow> (svc_step nc)\<^sup>*\<^sup>* s (fst (rent_pipeline env s rnd agent))"
  using credited_Create_moves [of s rnd nc env agent]
  by (auto simp: rent_pipeline_eq split: prod.split sum.split)

lemma CreatePipeline_moves [move_intros]:
  "fresh_id s (rq_rand r) \<Longrightarrow> (svc_step nc)\<^sup>*\<^sup>* s (fst (CreatePipeline a s r))"
  using credited_Create_moves [of s "rq_rand r" nc "ap_env a" "decode_create (rq_body r)"]
  by (auto simp: CreatePipeline_def Let_def split: prod.split sum.split)

lemma topup_moves: "CreditTopUp s args = (s', e) \<Longrightarrow> (svc_step nc)\<^sup>*\<^sup>* s s'"
  using svc_step.topup [of nc s args] by auto

lemma event_moves: "(svc_step nc)\<^sup>*\<^sup>* s (fst (ingest_response (IngestNaryoEvent s sid eid m) extra))"
proof -
  have "fst (ingest_response x extra) = fst x" for x :: "'a service \<times> bool \<times> err option"
    by (simp add: ingest_response_def split: prod.split option.split)
  then show ?thesis using svc_step.event [of nc s sid eid m] by auto
qed

lemma TopUp_moves [move_intros]:
  "(svc_step nc)\<^sup>*\<^sup>* s (fst (TopUpX402 s r))" "(svc_step nc)\<^sup>*\<^sup>* s (fst (TopUpDeposit a s r))"
  by (auto simp: TopUpX402_def TopUpDeposit_def Let_def intro: topup_moves split: sum.split prod.split option.split)

lemma webhook_moves [move_intros]:
  "(svc_step nc)\<^sup>*\<^sup>* s (fst (PostNaryoEventSession env s r))" "(svc_step nc)\<^sup>*\<^sup>* s (fst (PostNaryoEvent env s r))"
  by (auto simp: PostNaryoEventSession_def PostNaryoEvent_def Let_def intro: event_moves
      split: sum.split prod.split option.split)

lemma operation_moves:
  "Start nc s sid = Some (s', e) \<Longrightarrow> (svc_step nc)\<^sup>*\<^sup>* s s'" "Stop nc s sid = Some (s', e) \<Longrightarrow> (svc_step nc)\<^sup>*\<^sup>* s s'"
  "Pause nc s sid = Some (s', e) \<Longrightarrow> (svc_step nc)\<^sup>*\<^sup>* s s'" "Resume nc s sid = Some (s', e) \<Longrightarrow> (svc_step nc)\<^sup>*\<^sup>* s s'"
  "Reconfigure s sid patch = Some (s', e) \<Longrightarrow> (svc_step nc)\<^sup>*\<^sup>* s s'"
  "SetPaymentStreamActive s sid b = Some (s', e) \<Longrightarrow> (svc_step nc)\<^sup>*\<^sup>* s s'"
  by (blast intro: svc_step.intros)+

lemma lifecycle_response_state: "fst (lifecycle_response x) = fst x"
  by (simp add: lifecycle_response_def split: prod.split option.split)

lemma lifecycle_result_state: "fst (lifecycle_result x) = fst x"
  by (simp add: lifecycle_result_def split: prod.split option.split)

lemma lifecycle_moves:
  "PostStart a s r = Some (s', p) \<Longrightarrow> (svc_step (ap_naryo a))\<^sup>*\<^sup>* s s'"
  "PostStop a s r = Some (s', p) \<Longrightarrow> (svc_step (ap_naryo a))\<^sup>*\<^sup>* s s'"
  "PostPause a s r = Some (s', p) \<Longrightarrow> (svc_step (ap_naryo a))\<^sup>*\<^sup>* s s'"
  "PostResume a s r = Some (s', p) \<Longrightarrow> (svc_step (ap_naryo a))\<^sup>*\<^sup>* s s'"
  unfolding PostStart_def PostStop_def PostPause_def PostResume_def
  by (auto dest!: arg_cong [of _ _ fst] simp: lifecycle_response_state intro: operation_moves)

lemma put_moves:
  "PutReconfigure s r = Some (s', p) \<Longrightarrow> (svc_step nc)\<^sup>*\<^sup>* s s'"
  "PutPaymentStream s r = Some (s', p) \<Longrightarrow> (svc_step nc)\<^sup>*\<^sup>* s s'"
  unfolding PutReconfigure_def PutPaymentStream_def
  by (auto intro: operation_moves split: sum.splits prod.splits option.splits)

lemma endpoint_moves:
  assumes h: "endpoint_handler a s e r = Some (s', p)" and fresh: "fresh_id s (rq_rand r)"
  shows "(svc_step (ap_naryo a))\<^sup>*\<^sup>* s s'"
proof -
  note runs = CreatePipeline_moves [OF fresh] TopUp_moves webhook_moves
  have "(svc_step (ap_naryo a))\<^sup>*\<^sup>* s (fst x)"
    if "endpoint_handler a s e r = Some x" "e \<in> {EHealth, EStatus, ECreate, ETopUpX402, ETopUpDeposit,
      ENaryoEventSession, ENaryoEvent}" for x
    using that by (auto simp: endpoint_handler_def intro: runs)
  from this [OF h] h show ?thesis
    by (cases e) (simp_all add: endpoint_handler_def lifecycle_moves put_moves)
qed

lemma serve_moves:
  "serve a s table meth path r = Some (s', p) \<Longrightarrow> fresh_id s (rq_rand r) \<Longrightarrow> (svc_step (ap_naryo a))\<^sup>*\<^sup>* s s'"
  by (auto simp: serve_def intro: endpoint_moves split: sum.splits prod.splits)

lemma view_moves:
  "ObservabilitySummary d order s = Some (s', p) \<Longrightarrow> \<exists>n. s' = s\<lparr>naryo := n\<rparr>"
  "ObservabilityNaryoConfiguration d s r = Some (s', p) \<Longrightarrow> \<exists>n. s' = s\<lparr>naryo := n\<rparr>"
proof -
  have same: "\<exists>n. s = s\<lparr>naryo := n\<rparr>" by (intro exI [of _ "naryo s"]) simp
  show "ObservabilitySummary d order s = Some (s', p) \<Longrightarrow> \<exists>n. s' = s\<lparr>naryo := n\<rparr>"
    using same by (auto simp: ObservabilitySummary_def Let_def bind_eq_Some_conv split: if_splits option.splits)
  show "ObservabilityNaryoConfiguration d s r = Some (s', p) \<Longrightarrow> \<exists>n. s' = s\<lparr>naryo := n\<rparr>"
    using same by (auto simp: ObservabilityNaryoConfiguration_def Let_def bind_eq_Some_conv split: if_splits option.splits)
qed

lemma root_moves:
  assumes "root_serve a c gate mcp order s meth path r = Some (s', p)" "root_route meth path \<noteq> TMcp"
    "fresh_id s (rq_rand r)"
  shows "service_move (ap_naryo a) s s'"
  using assms
  by (cases "root_route meth path")
     (auto simp: root_serve_def Let_def service_move_def dest: view_moves intro: serve_moves endpoint_moves
       split: option.splits)

lemma process_step_moves: "process_step a c gate s s' \<Longrightarrow> service_move (ap_naryo a) s s'"
proof (induction rule: process_step.induct)
  case (request mcp order s meth path r s' p)
  then show ?case by (rule root_moves)
next
  case (rent s rnd agentID)
  then show ?case by (simp add: service_move_def rent_moves)
next
  case (tool t s pid s' x)
  then obtain y where "tool_call t (ap_naryo a) s pid = Some y" "fst y = s'"
    by (auto simp: run_lifecycle_tool_def dest!: arg_cong [of _ _ fst] simp: lifecycle_result_state)
  then show ?case by (cases t; cases y) (auto simp: service_move_def intro: operation_moves)
next
  case (reconfigure_tool s pid patch s' x)
  then obtain y where "Reconfigure s pid patch = Some y" "fst y = s'"
    by (auto simp: reconfigure_pipeline_def dest!: arg_cong [of _ _ fst] simp: lifecycle_result_state)
  then show ?case by (cases y) (auto simp: service_move_def intro: operation_moves)
qed (auto simp: service_move_def intro: svc_step.intros)

section \<open>What every run of the process keeps\<close>

definition final_kept :: "'n service \<Rightarrow> 'n service \<Rightarrow> bool" where
  "final_kept s s' \<longleftrightarrow> (\<forall>sid v. sessions (store s) sid = Some v \<longrightarrow> State v = StateStopped \<longrightarrow>
     (\<exists>v'. sessions (store s') sid = Some v' \<and> State v' = StateStopped \<and>
       BilledSeconds v' = BilledSeconds v \<and> ChargedUnits v' = ChargedUnits v))"

definition books_kept :: "'n service \<Rightarrow> 'n service \<Rightarrow> bool" where
  "books_kept s s' \<longleftrightarrow> accounts_kept s s' \<and> (table_ok (store s) \<longrightarrow> table_ok (store s')) \<and> final_kept s s'"

lemma final_kept_trans: "final_kept a b \<Longrightarrow> final_kept b c \<Longrightarrow> final_kept a c"
  unfolding final_kept_def by metis

lemma books_kept_refl [simp]: "books_kept s s"
  by (simp add: books_kept_def final_kept_def)

lemma books_kept_trans: "books_kept a b \<Longrightarrow> books_kept b c \<Longrightarrow> books_kept a c"
  using accounts_kept_trans final_kept_trans by (auto simp: books_kept_def)

lemma move_keeps_books: "service_move nc s s' \<Longrightarrow> books_kept s s'"
proof -
  assume "service_move nc s s'"
  then consider (run) "(svc_step nc)\<^sup>*\<^sup>* s s'" | (view) n where "s' = s\<lparr>naryo := n\<rparr>"
    unfolding service_move_def by blast
  then show ?thesis
  proof cases
    case run
    then show ?thesis
      using run_accounts [OF run] run_ok [OF run] run_stopped [OF run] by (simp add: books_kept_def final_kept_def)
  next
    case view
    then show ?thesis
      by (simp add: books_kept_def final_kept_def accounts_kept_def account_def reports_def)
  qed
qed

lemma process_keeps_books: "(process_step a c gate)\<^sup>*\<^sup>* s s' \<Longrightarrow> books_kept s s'"
  by (induction rule: rtranclp_induct) (auto intro: books_kept_trans move_keeps_books process_step_moves)

section \<open>Property\<close>

text \<open>
  C25: the books of the running process.  From the service that main builds, after any interleaving of
  requests on any route with any body, tool calls, billing ticks and passing time, every session is
  stored under its own id, its payment stream is active only while it runs, what it was charged is
  what the summaries reported and what is still pending, and once it is stopped no further run of the
  process changes its state, its billed time or its charges.
\<close>

theorem process_keeps_the_books:
  assumes "(process_step a c gate)\<^sup>*\<^sup>* (main_service env now n) s" "sessions (store s) sid = Some v"
  shows "ID v = sid \<and> (PaymentStreamActive v \<longrightarrow> State v = StateRunning) \<and>
    (State v = StateCreated \<longrightarrow> BilledSeconds v = 0 \<and> ChargedUnits v = 0) \<and>
    wrap64 (reports s sid + SummaryPendingUnits v) = wrap64 (ChargedUnits v) \<and>
    (\<forall>s'. State v = StateStopped \<longrightarrow> (process_step a c gate)\<^sup>*\<^sup>* s s' \<longrightarrow>
      (\<exists>v'. sessions (store s') sid = Some v' \<and> State v' = StateStopped \<and>
        BilledSeconds v' = BilledSeconds v \<and> ChargedUnits v' = ChargedUnits v))"
proof -
  let ?m = "main_service env now n"
  have m: "sessions (store ?m) = Map.empty" "hcs ?m = Some []"
    using main_service_starts [of env now n] by simp_all
  have k: "books_kept ?m s" by (rule process_keeps_books [OF assms(1)])
  have "table_ok (store s)" using k m by (simp add: books_kept_def table_ok_def)
  then have t: "session_ok v \<and> ID v = sid" using assms(2) unfolding table_ok_def by blast
  have "account ?m sid = 0" using m by (simp add: account_def reports_def unreported_def wrap64_def)
  then have "account s sid = 0" using k m by (simp add: books_kept_def accounts_kept_def)
  with t charged_is_reported assms(2) show ?thesis
    using process_keeps_books [of a c gate s] by (auto simp: session_ok_def books_kept_def final_kept_def)
qed


definition bare_api :: "(RecordingClient, string, string, string, string) API" where
  "bare_api = main_api (\<lambda>_. []) demo_sdk (observable_recording 0)"

definition create_request :: request where
  "create_request = \<lparr>rq_path = [], rq_headers = (\<lambda>_. []), rq_pipelineId = [], rq_body = [], rq_rand = Some ''12345678''\<rparr>"

lemma created_over_http:
  "root_serve bare_api (observable_recording 0) (\<lambda>_ _ _. None) mcp order s ''POST'' [''v1'', ''pipelines''] create_request =
   Some (fst (CreatePipeline bare_api s create_request), snd (CreatePipeline bare_api s create_request))"
  by (simp add: root_serve_def root_route_def serve_def route_def NewMux_def List.map_filter_def endpoint_handler_def
      create_request_def)

theorem process_keeps_the_books_witness:
  "\<exists>s v. (process_step bare_api (observable_recording 0) (\<lambda>_ _ _. None))\<^sup>*\<^sup>* (main_service (\<lambda>_. []) 0 NewRecordingClient) s \<and>
     sessions (store s) demo_sid = Some v \<and> ID v = demo_sid \<and> wrap64 (reports s demo_sid + SummaryPendingUnits v) = 0"
proof -
  let ?m = "main_service (\<lambda>_. []) 0 NewRecordingClient"
  let ?s = "fst (CreatePipeline bare_api ?m create_request)"
  have agent: "decode_create [] = []" by code_simp
  have env: "ap_env bare_api = (\<lambda>_. [])" by (simp add: bare_api_def main_api_def)
  have credit: "dev_auto_credit (\<lambda>_. []) ?m [] = ?m" by (simp add: dev_auto_credit_def)
  have sid: "newSessionID (Some ''12345678'') = Inr demo_sid" by code_simp
  have "root_route ''POST'' [''v1'', ''pipelines''] \<noteq> TMcp" by (simp add: root_route_def)
  moreover have "fresh_id ?m (rq_rand create_request)"
    by (simp add: fresh_id_def main_service_starts split: sum.split)
  ultimately have "process_step bare_api (observable_recording 0) (\<lambda>_ _ _. None) ?m ?s"
    by (rule process_step.request [OF created_over_http])
  then have run: "(process_step bare_api (observable_recording 0) (\<lambda>_ _ _. None))\<^sup>*\<^sup>* ?m ?s" by blast
  have "checkPrepaid ?m [] = None" by (simp add: checkPrepaid_def split: option.split)
  then obtain s2 v where c: "Create ?m (Some ''12345678'') [] = (s2, Inr v)"
    using sid by (simp add: Create_def Let_def)
  then have "?s = s2" by (simp add: CreatePipeline_def Let_def create_request_def agent env credit)
  then have v: "sessions (store ?s) demo_sid = Some v" "State v = StateCreated"
    using sessions_Create [OF c] sid by auto
  show ?thesis
    using process_keeps_the_books [OF run v(1)] run v by (auto simp: wrap64_def)
qed

end
