(* ===== verification/Redelivery.thy ===== *)
theory Redelivery
  imports Process
begin

text \<open>
  Webhook deliveries over runs of the process: an event that was accepted once stays known whatever
  the process does in between, so a second delivery of it changes nothing.
\<close>

section \<open>What the store remembers\<close>

text \<open>The event was accepted for a session of the store.\<close>

definition delivered :: "'n service \<Rightarrow> string \<Rightarrow> string \<Rightarrow> bool" where
  "delivered s sid eid \<longleftrightarrow> sid \<noteq> [] \<and> eid \<noteq> [] \<and> sessions (store s) sid \<noteq> None \<and>
     dedupKey sid eid \<in> naryoDedup (store s)"

lemma updated_dedup: "updated s sid fn s' \<Longrightarrow> naryoDedup s' = naryoDedup s"
  unfolding updated_def by (elim disjE exE) (simp, auto elim: UpdateE)

lemma tick_sessions_dedup:
  "tick_sessions now s pids sids = Some (s', pids') \<Longrightarrow> naryoDedup (store s') = naryoDedup (store s)"
proof (induction sids arbitrary: s pids)
  case (Cons sid sids)
  then obtain s1 p1 where "tick_one now s pids sid = Some (s1, p1)" "tick_sessions now s1 p1 sids = Some (s', pids')"
    by (auto simp: bind_eq_Some_conv)
  then show ?case using Cons.IH updated_dedup [OF updated_tick_one] by metis
qed simp

lemma tick_dedup: "runBillingTick nc order s = Some s' \<Longrightarrow> naryoDedup (store s') = naryoDedup (store s)"
  by (clarsimp simp: runBillingTick_def bind_eq_Some_conv simp del: split_paired_Ex)
     (metis store_pause_sessions tick_sessions_dedup)

lemma event_dedup: "naryoDedup (store s) \<subseteq> naryoDedup (store (fst (IngestNaryoEvent s sid eid payload)))"
proof -
  obtain st dup r where a: "AppendNaryoEvent (store s) (wall s) sid eid payload = (st, dup, r)"
    by (metis prod_cases3)
  then have "naryoDedup (store s) \<subseteq> naryoDedup st" by (auto simp: AppendNaryoEvent_def Let_def split: if_splits)
  with a show ?thesis by (simp add: IngestNaryoEvent_def Let_def split: option.split)
qed

lemma svc_step_dedup: "svc_step nc s s' \<Longrightarrow> naryoDedup (store s) \<subseteq> naryoDedup (store s')"
proof (induction rule: svc_step.induct)
  case (create rnd sid s agent)
  then show ?case by (simp add: Create_def Let_def Put_def split: option.split)
next
  case (event s sid eid payload)
  then show ?case by (rule event_dedup)
qed (auto simp: at_time_def dest: tick_dedup
    dest!: updated_Start updated_Stop updated_Pause updated_Resume updated_Reconfigure updated_Stream updated_dedup)

lemma delivered_step: "svc_step nc s s' \<Longrightarrow> delivered s sid eid \<Longrightarrow> delivered s' sid eid"
  using svc_step_dedup [of nc s s'] svc_step_table [of nc s s'] by (fastforce simp: delivered_def table_change_def)

lemma delivered_run: "(svc_step nc)\<^sup>*\<^sup>* s s' \<Longrightarrow> delivered s sid eid \<Longrightarrow> delivered s' sid eid"
  by (induction rule: rtranclp_induct) (auto intro: delivered_step)

lemma delivered_process: "(process_step a c gate)\<^sup>*\<^sup>* s s' \<Longrightarrow> delivered s sid eid \<Longrightarrow> delivered s' sid eid"
proof (induction rule: rtranclp_induct)
  case (step s1 s2)
  then show ?case
    using process_step_moves [OF step(2)] delivered_run unfolding service_move_def
    by (elim disjE exE) (blast, simp add: delivered_def)
qed

section \<open>A second delivery\<close>

lemma Append_outcome:
  assumes "AppendNaryoEvent st t sid eid payload = (st', dup, e)"
  shows "e = None \<Longrightarrow> sid \<noteq> [] \<and> eid \<noteq> [] \<and> sessions st' sid \<noteq> None \<and> dedupKey sid eid \<in> naryoDedup st'"
    "e \<noteq> None \<Longrightarrow> st' = st \<and> (e = Some ErrNotFound \<or> e = Some ErrInvalidNaryoEvent \<and> (sid = [] \<or> eid = []))"
  using assms by (auto simp: AppendNaryoEvent_def Let_def split: if_splits)

lemma Ingest_outcome:
  assumes "IngestNaryoEvent s sid eid payload = (s1, dup, e)"
  shows "e = None \<Longrightarrow> delivered s1 sid eid"
    "e \<noteq> None \<Longrightarrow> s1 = s \<and> (e = Some ErrNotFound \<or> e = Some ErrInvalidNaryoEvent \<and> (sid = [] \<or> eid = []))"
proof -
  obtain st d e' where a: "AppendNaryoEvent (store s) (wall s) sid eid payload = (st, d, e')"
    by (metis prod_cases3)
  have s1: "e' = e" "store s1 = st" "e \<noteq> None \<Longrightarrow> s1 = s\<lparr>store := st\<rparr>"
    using assms a by (auto simp: IngestNaryoEvent_def Let_def split: option.splits if_splits)
  show "e = None \<Longrightarrow> delivered s1 sid eid"
    using Append_outcome(1) [OF a] s1 by (simp add: delivered_def)
  show "e \<noteq> None \<Longrightarrow> s1 = s \<and> (e = Some ErrNotFound \<or> e = Some ErrInvalidNaryoEvent \<and> (sid = [] \<or> eid = []))"
    using Append_outcome(2) [OF a] s1 by auto
qed

lemma Ingest_delivered: "delivered s sid eid \<Longrightarrow> IngestNaryoEvent s sid eid payload = (s, True, None)"
  by (simp add: delivered_def IngestNaryoEvent_def AppendNaryoEvent_def Let_def)

lemma Ingest_invalid:
  "sid = [] \<or> eid = [] \<Longrightarrow> IngestNaryoEvent s sid eid payload = (s, False, Some ErrInvalidNaryoEvent)"
  by (simp add: IngestNaryoEvent_def AppendNaryoEvent_def)

text \<open>The answer to a repetition of a recorded event: the same, as a duplicate.\<close>

definition repeated :: "response \<Rightarrow> response" where
  "repeated p = (case rs_body p of
     AObj m \<Rightarrow> p\<lparr>rs_body := AObj (AList.update ''duplicate'' (ABool True) m)\<rparr> | _ \<Rightarrow> p)"

text \<open>
  How a handler treats a request now (\<open>x\<close>) and in a later state \<open>t\<close> (\<open>y\<close>): recorded now, it is a
  duplicate later; an unknown session changes nothing now; anything else changes nothing and is
  answered the same later.
\<close>

definition once :: "'n service \<Rightarrow> 'n service \<Rightarrow> 'n service \<times> response \<Rightarrow> 'n service \<times> response \<Rightarrow> bool" where
  "once s t x y \<longleftrightarrow> (if rs_status (snd x) = 200 then y = (t, repeated (snd x))
     else fst x = s \<and> (rs_status (snd x) \<noteq> 404 \<longrightarrow> y = (t, snd x)))"

lemma once_error: "st \<noteq> 200 \<Longrightarrow> once s t (s, error_response st msg) (t, error_response st msg)"
  by (simp add: once_def error_response_def writeJSON_def)

lemma once_ingest:
  assumes "\<And>s1. IngestNaryoEvent s sid eid payload = (s1, dup, None) \<Longrightarrow> (process_step a c gate)\<^sup>*\<^sup>* s1 t"
    and "map_of extra ''duplicate'' = None" and i: "IngestNaryoEvent s sid eid payload = (s1, dup, e)"
  shows "once s t (ingest_response (s1, dup, e) extra) (ingest_response (IngestNaryoEvent t sid eid payload) extra)"
proof (cases e)
  case None
  then have "delivered t sid eid" using Ingest_outcome(1) [OF i] delivered_process assms(1) i by blast
  then show ?thesis
    using None by (simp add: Ingest_delivered once_def ingest_response_def repeated_def writeJSON_def)
next
  case (Some x)
  then have s1: "s1 = s" "x = ErrNotFound \<or> x = ErrInvalidNaryoEvent \<and> (sid = [] \<or> eid = [])"
    using Ingest_outcome(2) [OF i] by auto
  then show ?thesis
    using Some by (auto simp: Ingest_invalid once_def ingest_response_def error_response_def writeJSON_def)
qed

lemma once_session:
  assumes "PostNaryoEventSession env s r = (s1, p)" "(process_step a c gate)\<^sup>*\<^sup>* s1 t"
  shows "once s t (s1, p) (PostNaryoEventSession env t r)"
proof (cases "checkNaryoIngestAuth env r")
  case (Some bad)
  then show ?thesis
    using assms(1) by (auto simp: PostNaryoEventSession_def checkNaryoIngestAuth_def Let_def once_error split: if_splits)
next
  case auth: None
  show ?thesis
  proof (cases "TrimSpace (rq_path r) = [] \<or> isl (parseNaryoBroadcastBody (rq_body r))")
    case True
    with auth assms(1) show ?thesis
      by (auto simp: PostNaryoEventSession_def Let_def once_error isl_def split: if_splits)
  next
    case False
    then obtain payload eid where b: "parseNaryoBroadcastBody (rq_body r) = Inr (payload, eid)"
      by (cases "parseNaryoBroadcastBody (rq_body r)") auto
    obtain s2 d e where i: "IngestNaryoEvent s (TrimSpace (rq_path r)) eid payload = (s2, d, e)" by (metis prod_cases3)
    with assms(1) auth False b have x: "(s1, p) = ingest_response (s2, d, e) [(''eventId'', AStr eid)]"
      by (simp add: PostNaryoEventSession_def Let_def)
    then have "s1 = s2" by (auto simp: ingest_response_def split: option.splits)
    then have "once s t (ingest_response (s2, d, e) [(''eventId'', AStr eid)])
        (ingest_response (IngestNaryoEvent t (TrimSpace (rq_path r)) eid payload) [(''eventId'', AStr eid)])"
      using assms(2) i by (intro once_ingest) auto
    then show ?thesis
      using auth False b by (simp add: PostNaryoEventSession_def Let_def x)
  qed
qed

lemma once_plain:
  assumes "PostNaryoEvent env s r = (s1, p)" "(process_step a c gate)\<^sup>*\<^sup>* s1 t"
  shows "once s t (s1, p) (PostNaryoEvent env t r)"
proof (cases "checkNaryoIngestAuth env r")
  case (Some bad)
  then show ?thesis
    using assms(1) by (auto simp: PostNaryoEvent_def checkNaryoIngestAuth_def Let_def once_error split: if_splits)
next
  case auth: None
  let ?body = "readJSON naryoEventBody_fields \<lparr>nb_SessionID = [], nb_EventID = [], nb_Payload = []\<rparr> r"
  show ?thesis
  proof (cases ?body)
    case (Inl bad)
    then have "\<exists>st msg. bad = error_response st msg \<and> st \<noteq> 200" by (auto simp: readJSON_def split: prod.splits bool.splits)
    with auth assms(1) Inl show ?thesis by (auto simp: PostNaryoEvent_def once_error)
  next
    case (Inr body)
    show ?thesis
    proof (cases "nb_SessionID body = [] \<or> nb_EventID body = []")
      case True
      with auth assms(1) Inr show ?thesis by (auto simp: PostNaryoEvent_def once_error)
    next
      case False
      let ?in = "\<lambda>s. IngestNaryoEvent s (nb_SessionID body) (nb_EventID body) (nb_Payload body)"
      obtain s2 d e where i: "?in s = (s2, d, e)" by (metis prod_cases3)
      with assms(1) auth False Inr have x: "(s1, p) = ingest_response (s2, d, e) []"
        by (auto simp: PostNaryoEvent_def)
      then have "s1 = s2" by (auto simp: ingest_response_def split: option.splits)
      then have "once s t (ingest_response (s2, d, e) []) (ingest_response (?in t) [])"
        using assms(2) i by (intro once_ingest) auto
      then show ?thesis using auth False Inr by (simp add: PostNaryoEvent_def x)
    qed
  qed
qed

section \<open>Property\<close>

text \<open>
  C32: the webhooks act at most once.  Without a configured secret a request is refused with 503, with
  another secret than the configured one with 401, and nothing changes.  A request that was accepted
  (200) and is delivered again after any further run of the process, other events, requests on any
  route, tool calls and ticks included, leaves the service as it then is and is answered as a
  duplicate.  A request that was not accepted has changed nothing, and unless its session was unknown
  (404) it is answered in the same way after any further run, again without a change.
\<close>

theorem webhook_at_most_once:
  assumes "PostNaryoEventSession env s r = (s1, p)" "(process_step a c gate)\<^sup>*\<^sup>* s1 t1"
    and "PostNaryoEvent env s r = (s2, q)" "(process_step a c gate)\<^sup>*\<^sup>* s2 t2"
  shows "(if NaryoIngestSecret env = [] then s1 = s \<and> rs_status p = 503 \<and> s2 = s \<and> rs_status q = 503
      else if rq_headers r ''X-Naryo-Webhook-Secret'' \<noteq> NaryoIngestSecret env
      then s1 = s \<and> rs_status p = 401 \<and> s2 = s \<and> rs_status q = 401 else True) \<and>
    (if rs_status p = 200 then PostNaryoEventSession env t1 r = (t1, repeated p)
     else s1 = s \<and> (rs_status p \<noteq> 404 \<longrightarrow> PostNaryoEventSession env t1 r = (t1, p))) \<and>
    (if rs_status q = 200 then PostNaryoEvent env t2 r = (t2, repeated q)
     else s2 = s \<and> (rs_status q \<noteq> 404 \<longrightarrow> PostNaryoEvent env t2 r = (t2, q)))"
proof (intro conjI)
  show "if NaryoIngestSecret env = [] then s1 = s \<and> rs_status p = 503 \<and> s2 = s \<and> rs_status q = 503
      else if rq_headers r ''X-Naryo-Webhook-Secret'' \<noteq> NaryoIngestSecret env
      then s1 = s \<and> rs_status p = 401 \<and> s2 = s \<and> rs_status q = 401 else True"
    using assms(1,3)
    by (auto simp: PostNaryoEventSession_def PostNaryoEvent_def checkNaryoIngestAuth_def error_response_def writeJSON_def)
  show "if rs_status p = 200 then PostNaryoEventSession env t1 r = (t1, repeated p)
      else s1 = s \<and> (rs_status p \<noteq> 404 \<longrightarrow> PostNaryoEventSession env t1 r = (t1, p))"
    by (rule once_session [OF assms(1,2), unfolded once_def fst_conv snd_conv])
  show "if rs_status q = 200 then PostNaryoEvent env t2 r = (t2, repeated q)
      else s2 = s \<and> (rs_status q \<noteq> 404 \<longrightarrow> PostNaryoEvent env t2 r = (t2, q))"
    by (rule once_plain [OF assms(3,4), unfolded once_def fst_conv snd_conv])
qed

text \<open>An event, another one through the mux, and the first one again.\<close>

definition event_request :: "string \<Rightarrow> request" where
  "event_request eid = demo_request demo_sid (enc (JObj [(''id'', JStr eid)]))"

theorem webhook_at_most_once_witness:
  "\<exists>s1 p t1 p'. PostNaryoEventSession (ap_env demo_api) demo_stopped (event_request ''e1'') = (s1, p) \<and> rs_status p = 200 \<and>
     PostNaryoEventSession (ap_env demo_api) s1 (event_request ''e2'') = (t1, p') \<and> rs_status p' = 200 \<and>
     PostNaryoEventSession (ap_env demo_api) t1 (event_request ''e1'') = (t1, repeated p)"
proof -
  let ?post = "PostNaryoEventSession (ap_env demo_api)"
  let ?s1 = "fst (?post demo_stopped (event_request ''e1''))"
  let ?t1 = "fst (?post ?s1 (event_request ''e2''))"
  obtain p where p: "?post demo_stopped (event_request ''e1'') = (?s1, p)" by (metis prod.collapse)
  obtain p' where p': "?post ?s1 (event_request ''e2'') = (?t1, p')" by (metis prod.collapse)
  obtain s2 q where q: "PostNaryoEvent (ap_env demo_api) demo_stopped (event_request ''e1'') = (s2, q)" by (metis surj_pair)
  have ok: "rs_status (snd (?post demo_stopped (event_request ''e1''))) = 200"
    "rs_status (snd (?post ?s1 (event_request ''e2''))) = 200" by code_simp+
  have path: "root_route ''POST'' [''internal'', ''naryo'', ''v1'', ''events'', demo_sid] = TEndpoint ENaryoEventSession demo_sid"
    by code_simp
  have "root_serve demo_api (observable_recording 0) (\<lambda>_ _ _. None) (\<lambda>_ _. None) [] ?s1 ''POST''
      [''internal'', ''naryo'', ''v1'', ''events'', demo_sid] (event_request ''e2'') = Some (?t1, p')"
    using p' by (simp add: root_serve_def path endpoint_handler_def event_request_def demo_request_def)
  then have "process_step demo_api (observable_recording 0) (\<lambda>_ _ _. None) ?s1 ?t1"
    by (rule process_step.request) (simp_all add: path event_request_def demo_request_def fresh_id_def newSessionID_def)
  then have "(process_step demo_api (observable_recording 0) (\<lambda>_ _ _. None))\<^sup>*\<^sup>* ?s1 ?t1" by blast
  note again = webhook_at_most_once [OF p this q rtranclp.rtrancl_refl, THEN conjunct2, THEN conjunct1]
  have "rs_status p = 200" "rs_status p' = 200" using ok p p' by (metis snd_conv)+
  then show ?thesis using again p p' by (intro exI [of _ ?s1] exI [of _ p] exI [of _ ?t1] exI [of _ p']) simp
qed

end
