(* ===== verification/Price_Facts.thy ===== *)
theory Price_Facts
  imports Payment_Gate Complex_Main
begin

text \<open>How close the price that is asked is to price per second times seconds.\<close>

section \<open>Rounding\<close>

lemma bit_count_bounds: "0 < n \<Longrightarrow> 2 ^ (bit_count n - 1) \<le> n \<and> n < 2 ^ bit_count n \<and> 0 < bit_count n"
proof (induction n rule: bit_count.induct)
  case (1 n)
  show ?case
  proof (cases "n div 2 = 0")
    case True
    with 1 have "n = 1" by simp
    then show ?thesis by (simp add: bit_count.simps [of "Suc 0"] bit_count.simps [of 0])
  next
    case False
    with 1 have h: "2 ^ (bit_count (n div 2) - 1) \<le> n div 2" "n div 2 < 2 ^ bit_count (n div 2)" "0 < bit_count (n div 2)"
      by auto
    then obtain k where k: "bit_count (n div 2) = Suc k" using gr0_implies_Suc by blast
    have "2 ^ Suc k \<le> n" "n < 2 ^ Suc (Suc k)" using h k by auto
    then show ?thesis using 1 k by (simp add: bit_count.simps [of n])
  qed
qed

lemma round_div_error:
  assumes "0 < b"
  shows "\<bar>real (round_div a b) - real a / real b\<bar> \<le> 1 / 2"
proof -
  have r: "real a / real b = real (a div b) + real (a mod b) / real b"
  proof -
    have "real a = real (a div b) * real b + real (a mod b)" by (metis div_mult_mod_eq of_nat_add of_nat_mult)
    with assms show ?thesis by (simp add: add_divide_distrib)
  qed
  consider "2 * (a mod b) < b" | "b < 2 * (a mod b)" | "2 * (a mod b) = b" by linarith
  then show ?thesis
  proof cases
    case 1
    then have "real (a mod b) / real b < 1 / 2" using assms by (simp add: divide_less_eq)
    with 1 r show ?thesis by (simp add: round_div_def Let_def)
  next
    case 2
    then have "1 / 2 < real (a mod b) / real b" using assms by (simp add: less_divide_eq)
    moreover have "real (a mod b) / real b < 1" using assms by (simp add: divide_less_eq)
    ultimately show ?thesis using 2 r by (simp add: round_div_def Let_def)
  next
    case 3
    then have "real (a mod b) / real b = 1 / 2" using assms by (simp add: divide_eq_eq)
    with 3 r show ?thesis by (simp add: round_div_def Let_def)
  qed
qed

text \<open>The quotient at an exponent is the ratio scaled by it.\<close>

lemma scaled_ratio:
  "real (p * 2 ^ nat (- e)) / real (q * 2 ^ nat e) = real p / real q * 2 powi (- e)"
  by (cases "0 \<le> e") (simp_all add: power_int_def power_one_over divide_simps)

lemma ratio_bounds:
  assumes "0 < p" "0 < q"
  shows "2 powi (int (bit_count p) - int (bit_count q) - 1) < real p / real q"
    "real p / real q < 2 powi (int (bit_count p) - int (bit_count q) + 1)"
proof -
  obtain a b where ab: "bit_count p = Suc a" "bit_count q = Suc b"
    using bit_count_bounds assms gr0_implies_Suc by metis
  have "2 ^ a \<le> p" "p < 2 ^ Suc a" "2 ^ b \<le> q" "q < 2 ^ Suc b"
    using bit_count_bounds [OF assms(1)] bit_count_bounds [OF assms(2)] ab by auto
  then have r: "2 ^ a \<le> real p" "real p < 2 ^ Suc a" "2 ^ b \<le> real q" "real q < 2 ^ Suc b"
    by (metis of_nat_le_iff of_nat_less_iff of_nat_numeral of_nat_power)+
  have "2 ^ a / 2 ^ Suc b < real p / real q"
    using r assms by (intro frac_less2) auto
  moreover have "real p / real q < 2 ^ Suc a / 2 ^ b" using r assms by (intro frac_less) auto
  moreover have "(2::real) powi (int a - int (Suc b)) = 2 ^ a / 2 ^ Suc b"
    "(2::real) powi (int (Suc a) - int b) = 2 ^ Suc a / 2 ^ b"
    by (simp_all add: power_int_diff power_int_add)
  ultimately show "2 powi (int (bit_count p) - int (bit_count q) - 1) < real p / real q"
    "real p / real q < 2 powi (int (bit_count p) - int (bit_count q) + 1)"
    using ab by (simp_all add: algebra_simps)
qed


definition scaled :: "nat \<Rightarrow> nat \<Rightarrow> int \<Rightarrow> real" where
  "scaled p q e = real p / real q * 2 powi (- e)"

lemma scaled_back: "scaled p q e * 2 powi e = real p / real q"
  by (simp add: scaled_def flip: power_int_add)

definition round_exp :: "nat \<Rightarrow> nat \<Rightarrow> int" where
  "round_exp p q =
     (let e0 = max (- 1074) (int (bit_count p) - int (bit_count q) - 53)
      in if 2 ^ 53 \<le> (p * 2 ^ nat (- e0)) div (q * 2 ^ nat e0) then e0 + 1 else e0)"

lemma round_f64_at:
  "round_f64 p q =
     (let e = round_exp p q; m = round_div (p * 2 ^ nat (- e)) (q * 2 ^ nat e)
      in case (if m = 2 ^ 53 then (2 ^ 52, e + 1) else (m, e)) of (m2, e2) \<Rightarrow> if 971 < e2 then None else Some (m2, e2))"
  unfolding round_f64_def round_exp_def Let_def prod.case ..

lemma div_at_least: "0 < b \<Longrightarrow> (k \<le> a div b) = (real k \<le> real a / real b)"
proof -
  assume b: "0 < b"
  then have "(k \<le> a div b) = (k * b \<le> a)" by (rule less_eq_div_iff_mult_less_eq)
  also have "\<dots> = (real k * real b \<le> real a)" by (simp only: of_nat_le_iff flip: of_nat_mult)
  also have "\<dots> = (real k \<le> real a / real b)" using b by (simp add: pos_le_divide_eq)
  finally show ?thesis .
qed

lemma round_exp_props:
  assumes "0 < p" "0 < q"
  shows "scaled p q (round_exp p q) < 2 ^ 53" "- 1074 \<le> round_exp p q"
    "- 1074 < round_exp p q \<Longrightarrow> 2 ^ 52 \<le> scaled p q (round_exp p q)"
proof -
  let ?d = "int (bit_count p) - int (bit_count q)"
  define e0 where "e0 = max (- 1074) (?d - 53)"
  have big: "(2 ^ 53 \<le> (p * 2 ^ nat (- e0)) div (q * 2 ^ nat e0)) = (2 ^ 53 \<le> scaled p q e0)"
    using assms div_at_least [of "q * 2 ^ nat e0" "2 ^ 53" "p * 2 ^ nat (- e0)"]
    unfolding scaled_ratio scaled_def by simp
  have e: "round_exp p q = (if 2 ^ 53 \<le> scaled p q e0 then e0 + 1 else e0)"
    unfolding round_exp_def Let_def e0_def [symmetric] big ..
  have half: "scaled p q (e0 + 1) = scaled p q e0 / 2"
    by (simp add: scaled_def power_int_diff)
  have "scaled p q e0 < 2 powi (?d + 1) * 2 powi (- e0)"
    using ratio_bounds [OF assms] unfolding scaled_def by (intro mult_strict_right_mono) simp_all
  also have "\<dots> = 2 powi (?d + 1 - e0)" by (simp add: power_int_add flip: power_int_add)
  also have "\<dots> \<le> 2 powi 54" by (intro power_int_increasing) (simp_all add: e0_def)
  finally have up: "scaled p q e0 < 2 ^ 54" by simp
  then show "scaled p q (round_exp p q) < 2 ^ 53" using e half by simp
  have "- 1074 \<le> e0" by (simp add: e0_def)
  then show "- 1074 \<le> round_exp p q" using e by simp
  show "2 ^ 52 \<le> scaled p q (round_exp p q)" if "- 1074 < round_exp p q"
  proof (cases "2 ^ 53 \<le> scaled p q e0")
    case True
    with e half show ?thesis by simp
  next
    case False
    with e that have d: "e0 = ?d - 53" by (simp add: e0_def)
    have "2 powi 52 = 2 powi (?d - 1) * (2::real) powi (- e0)" by (simp add: d flip: power_int_add)
    also have "\<dots> < scaled p q e0"
      using ratio_bounds [OF assms] unfolding scaled_def by (intro mult_strict_right_mono) simp_all
    finally show ?thesis using False e by simp
  qed
qed


lemma round_f64_error:
  assumes "0 < p" "0 < q" "round_f64 p q = Some (m, e)"
  shows "\<bar>real m * 2 powi e - real p / real q\<bar> \<le> real p / real q / 2 ^ 53 + 1 / 2 ^ 1075"
proof -
  define E where "E = round_exp p q"
  define M where "M = round_div (p * 2 ^ nat (- E)) (q * 2 ^ nat E)"
  define r where "r = real p / real q"
  have r: "r = scaled p q E * 2 powi E" by (simp add: r_def scaled_back)
  have "real m * 2 powi e = real M * 2 powi E"
    using assms(3) by (auto simp: round_f64_at Let_def power_int_add simp flip: E_def M_def split: if_splits)
  moreover have "\<bar>real M - scaled p q E\<bar> \<le> 1 / 2"
    using round_div_error [of "q * 2 ^ nat E" "p * 2 ^ nat (- E)"] assms unfolding M_def scaled_ratio scaled_def by simp
  then have "\<bar>real M - scaled p q E\<bar> * 2 powi E \<le> 1 / 2 * 2 powi E" by (intro mult_right_mono) simp_all
  then have "\<bar>real M * 2 powi E - r\<bar> \<le> 1 / 2 * 2 powi E"
    by (simp add: r abs_mult flip: left_diff_distrib)
  moreover have "1 / 2 * 2 powi E \<le> r / 2 ^ 53 + 1 / 2 ^ 1075"
  proof (cases "E = - 1074")
    case True
    have "1 / 2 * (2::real) powi (- 1074) = 1 / 2 ^ 1075" by (simp add: power_int_minus divide_simps)
    with True show ?thesis by (simp add: r_def)
  next
    case False
    then have "2 ^ 52 \<le> scaled p q E" using round_exp_props [OF assms(1,2)] by (auto simp: E_def)
    then have "2 ^ 52 * 2 powi E \<le> r" unfolding r by (intro mult_right_mono) simp_all
    then show ?thesis by simp
  qed
  ultimately show ?thesis by (simp add: r_def)
qed

lemma round_f64_None:
  assumes "0 < p" "0 < q" "round_f64 p q = None"
  shows "2 ^ 1023 \<le> real p / real q"
proof -
  define E where "E = round_exp p q"
  have "971 \<le> E" using assms(3) by (auto simp: round_f64_at Let_def simp flip: E_def split: if_splits)
  then have "2 ^ 52 \<le> scaled p q E" using round_exp_props [OF assms(1,2)] by (auto simp: E_def)
  then have "2 ^ 52 * 2 powi E \<le> scaled p q E * 2 powi E" by (intro mult_right_mono) simp_all
  then have "2 ^ 52 * 2 powi E \<le> real p / real q" by (simp only: scaled_back)
  moreover have "(2::real) powi 971 \<le> 2 powi E" using \<open>971 \<le> E\<close> by (intro power_int_increasing) simp_all
  then have "2 ^ 52 * 2 ^ 971 \<le> 2 ^ 52 * (2::real) powi E" by simp
  ultimately show ?thesis by (simp flip: power_add)
qed

section \<open>Values\<close>

definition fval :: "f64 \<Rightarrow> real" where
  "fval x = real (fman x) * 2 powi (fexp x)"

lemma f64_ratio: "real (f64_num x) / real (f64_den x) = fval x" "0 < f64_den x"
  by (cases "0 \<le> fexp x"; simp add: f64_num_def f64_den_def fval_def power_int_def power_one_over divide_simps)+

definition near :: "real \<Rightarrow> real \<Rightarrow> bool" where
  "near x r \<longleftrightarrow> 0 \<le> x \<and> \<bar>x - r\<bar> \<le> r / 2 ^ 53 + 1 / 2 ^ 1075"

lemma of_ratio_near:
  assumes "0 < q" "real p / real q < 2 ^ 1023"
  obtains x where "of_ratio s p q = FFin x" "fneg x = s" "near (fval x) (real p / real q)"
proof (cases "p = 0")
  case True
  then show ?thesis by (intro that [of "F64 s 0 (- 1074)"]) (simp_all add: of_ratio_def near_def fval_def)
next
  case False
  with assms round_f64_None [of p q] obtain m e where "round_f64 p q = Some (m, e)" by fastforce
  with False assms round_f64_error [of p q m e] show ?thesis
    by (intro that [of "F64 s m e"]) (simp_all add: of_ratio_def near_def fval_def)
qed


section \<open>Texts\<close>

lemma dec_nat_less [simp]: "n < 10 \<Longrightarrow> dec_nat n = [digit n]"
  by (subst dec_nat.simps) simp

lemma dec_nat_step: "10 \<le> n \<Longrightarrow> dec_nat n = dec_nat (n div 10) @ [digit (n mod 10)]"
  by (subst dec_nat.simps) simp

lemma pad_step: "pad_left (Suc (Suc d)) (dec_nat n) = pad_left (Suc d) (dec_nat (n div 10)) @ [digit (n mod 10)]"
proof (cases "n < 10")
  case True
  have "digit 0 = CHR ''0''" by code_simp
  with True show ?thesis by (simp add: pad_left_def flip: replicate_append_same)
next
  case False
  then show ?thesis by (simp add: dec_nat_step pad_left_def)
qed

lemma length_padded: "n < 10 ^ Suc d \<Longrightarrow> length (pad_left (Suc d) (dec_nat n)) = Suc d"
proof (induction d arbitrary: n)
  case (Suc d)
  then have "n div 10 < 10 ^ Suc d" by (simp add: less_mult_imp_div_less)
  with Suc.IH show ?case by (simp add: pad_step)
qed (simp add: pad_left_def)

lemma padded_split:
  "pad_left (Suc (Suc d)) (dec_nat n) = dec_nat (n div 10 ^ Suc d) @ pad_left (Suc d) (dec_nat (n mod 10 ^ Suc d))"
proof (induction d arbitrary: n)
  case 0
  have "pad_left (Suc 0) (dec_nat k) = dec_nat k" for k
    using dec_nat_not_Nil [of k] by (cases "dec_nat k") (simp_all add: pad_left_def)
  moreover have "pad_left (Suc 0) [x] = [x]" for x by (simp add: pad_left_def)
  ultimately show ?case by (simp add: pad_step)
next
  case (Suc d)
  define k where "k = n div 10 mod 10 ^ Suc d"
  have "n mod 10 ^ Suc (Suc d) = 10 * k + n mod 10"
    using mod_mult2_eq [of n 10 "10 ^ Suc d"] by (simp only: k_def power_Suc)
  then have "n mod 10 ^ Suc (Suc d) div 10 = n div 10 mod 10 ^ Suc d" "n mod 10 ^ Suc (Suc d) mod 10 = n mod 10"
    by (simp_all only: flip: k_def) simp_all
  then have "pad_left (Suc (Suc d)) (dec_nat (n mod 10 ^ Suc (Suc d))) =
      pad_left (Suc d) (dec_nat (n div 10 mod 10 ^ Suc d)) @ [digit (n mod 10)]"
    by (simp only: pad_step)
  moreover have "n div 10 div 10 ^ Suc d = n div 10 ^ Suc (Suc d)" by (simp only: power_Suc div_mult2_eq)
  ultimately show ?case using Suc.IH [of "n div 10"] pad_step [of "Suc d" n] by (simp only: append_assoc)
qed

lemma fmt_fixed_split:
  assumes "\<not> fneg x"
  shows "fmt_fixed (Suc d) x =
    (let n = round_div (f64_num x * 10 ^ Suc d) (f64_den x)
     in dec_nat (n div 10 ^ Suc d) @ CHR ''.'' # pad_left (Suc d) (dec_nat (n mod 10 ^ Suc d)))"
  using assms length_padded [of "round_div (f64_num x * 10 ^ Suc d) (f64_den x) mod 10 ^ Suc d" d]
  by (simp add: fmt_fixed_def Let_def sign_text_def padded_split del: power_Suc)


lemma is_digit_iff: "is_digit c \<longleftrightarrow> digit_val c \<noteq> None"
  by (simp add: is_digit_def digit_val_def Let_def)

lemma hex_val_decimal: "is_digit c \<Longrightarrow> hex_val c = digit_val c"
  by (simp add: is_digit_def digit_val_def hex_val_def Let_def)

lemma read_digits_foldl:
  "read_digits acc s = Some n \<Longrightarrow> list_all is_digit s \<and> foldl (\<lambda>v c. v * 10 + (case hex_val c of None \<Rightarrow> 0 | Some n \<Rightarrow> n)) acc s = n"
  by (induction acc s rule: read_digits.induct)
     (auto simp: is_digit_iff hex_val_decimal mult.commute split: option.splits)

lemma digits_underscores:
  "list_all (\<lambda>c. is_digit c \<or> c = CHR ''.'') s \<Longrightarrow> saw \<noteq> SawUnderscore \<Longrightarrow> underscores False saw s"
  by (induction "False" saw s rule: underscores.induct) (auto simp: is_digit_def)

lemma not_digits [simp]: "\<not> is_digit (CHR ''.'')" "\<not> is_digit (CHR ''+'')" "\<not> is_digit (CHR ''-'')"
  "\<not> is_digit (CHR ''_'')" "\<not> is_digit (CHR ''i'')" "\<not> is_digit (CHR ''n'')"
  by (simp_all add: is_digit_def)

lemma lower_digit: "is_digit c \<Longrightarrow> lower_char c = c"
  by (simp add: is_digit_def lower_char_def Let_def)

lemma lower_dot [simp]: "lower_char (CHR ''.'') = CHR ''.''"
  by (simp add: lower_char_def)

lemma not_prefix_char: "is_digit c \<or> c = CHR ''.'' \<Longrightarrow> lower_char c \<notin> {CHR ''x'', CHR ''b'', CHR ''o''}"
  using lower_digit [of c] by (auto simp: is_digit_def)

lemma ParseFloat_decimal:
  assumes "read_digits 0 (i @ f) = Some m" "i \<noteq> []"
  shows "ParseFloat (i @ CHR ''.'' # f) =
    (case of_ratio False m (10 ^ length f) of FInf _ \<Rightarrow> Inl ErrRange | v \<Rightarrow> Inr v)"
proof -
  let ?t = "i @ CHR ''.'' # f"
  have d: "list_all is_digit i" "list_all is_digit f"
    and m: "foldl (\<lambda>v c. v * 10 + (case hex_val c of None \<Rightarrow> 0 | Some n \<Rightarrow> n)) 0 (i @ f) = m"
    using read_digits_foldl [OF assms(1)] by auto
  obtain c cs where i: "i = c # cs" "is_digit c" using assms(2) d by (cases i) auto
  then have sign: "drop_sign ?t = (False, ?t)" by (auto simp: drop_sign_def)
  have dots: "list_all (\<lambda>c. is_digit c \<or> c = CHR ''.'') ?t" using d by (auto simp: list_all_iff)
  have low: "map lower_char ?t = ?t" using d by (auto simp: list_all_iff lower_digit intro: map_idI)
  have "hd ?t = c" using i by simp
  then have sp: "special ?t = None"
    using i low sign not_digits by (auto simp: special_def ToLower_def)
  have second: "is_digit (?t ! 1) \<or> ?t ! 1 = CHR ''.''"
    using dots nth_mem [of 1 ?t] i by (fastforce simp: list_all_iff)
  then have "lower_char (?t ! 1) \<notin> {CHR ''x'', CHR ''b'', CHR ''o''}" by (rule not_prefix_char)
  then have nx: "\<not> hex_prefix ?t" "\<not> base_prefix ?t" by (auto simp: hex_prefix_def base_prefix_def)
  have und: "underscoreOK ?t" using sign nx dots by (simp add: underscoreOK_def digits_underscores)
  have body: "takeWhile (\<lambda>c. is_digit c \<or> c = CHR ''_'' \<or> c = CHR ''.'') ?t = ?t"
    using dots by (auto simp: list_all_iff)
  have fr: "dropWhile (\<lambda>c. c \<noteq> CHR ''.'') ?t = CHR ''.'' # f"
    using d by (subst dropWhile_append2) (auto simp: list_all_iff)
  have keep: "filter is_digit i = i" "filter is_digit f = f" "filter (\<lambda>c. c = CHR ''.'') i = []" "filter (\<lambda>c. c = CHR ''.'') f = []"
    using d by (auto simp: list_all_iff filter_id_conv filter_empty_conv)
  have "readFloat ?t = Some (False, False, m, length f, 0)"
    using nx und assms(2) m by (simp add: readFloat_def sign Let_def body fr keep del: foldl_append)
  then show ?thesis
    by (cases "of_ratio False m (10 ^ length f)") (simp_all add: ParseFloat_def sp Let_def)
qed


section \<open>The product\<close>

lemma product_estimate:
  fixes d t :: real
  assumes x: "0 \<le> x" "\<bar>x - v\<bar> \<le> v * d + t" and y: "0 \<le> y" "\<bar>y - u\<bar> \<le> u * d + t"
    and z: "\<bar>z - x * y\<bar> \<le> x * y * d + t" and "0 \<le> v" "1 \<le> u" "0 \<le> t" "t \<le> d" "d \<le> 1 / 4"
  shows "\<bar>z - v * u\<bar> \<le> 6 * (v * u * d) + 4 * (t * u)"
proof -
  have du: "d \<le> u * d" using assms by (simp add: mult_le_cancel_right1)
  have y2: "\<bar>y - u\<bar> \<le> 2 * (u * d)" using y du assms by linarith
  have "u * d \<le> u / 4" using assms by (simp add: mult_left_mono [of d "1 / 4" u, simplified])
  with y2 have "y \<le> 2 * u" using assms by linarith
  have a: "\<bar>x - v\<bar> * y \<le> (v * d + t) * (2 * u)"
    using x y \<open>y \<le> 2 * u\<close> by (intro mult_mono) auto
  have b: "v * \<bar>y - u\<bar> \<le> v * (2 * (u * d))" using assms y2 by (intro mult_left_mono) auto
  have "x * y - v * u = (x - v) * y + v * (y - u)" by (simp add: algebra_simps)
  then have "\<bar>x * y - v * u\<bar> \<le> \<bar>x - v\<bar> * y + v * \<bar>y - u\<bar>"
    using abs_triangle_ineq [of "(x - v) * y" "v * (y - u)"] assms by (simp add: abs_mult)
  with a b have c: "\<bar>x * y - v * u\<bar> \<le> 4 * (v * u * d) + 2 * (t * u)" by (simp add: algebra_simps)
  have "x * y * d \<le> (v * u + (4 * (v * u * d) + 2 * (t * u))) * d"
    using c assms by (intro mult_right_mono) (auto simp: abs_le_iff)
  also have "\<dots> \<le> v * u * d + (4 * (v * u * d) + 2 * (t * u)) * (1 / 4)"
    using mult_left_mono [of d "1 / 4" "4 * (v * u * d) + 2 * (t * u)"] assms by (simp add: distrib_right)
  also have "\<dots> = 2 * (v * u * d) + t * u / 2"
  proof -
    have "A + (4 * A + 2 * B) * (1 / 4) = 2 * A + B / 2" for A B :: real by (simp add: field_simps)
    then show ?thesis .
  qed
  finally have e: "x * y * d \<le> 2 * (v * u * d) + t * u / 2" .
  have "t \<le> t * u" using assms by (simp add: mult_le_cancel_left1)
  then show ?thesis using c e z assms by (simp add: abs_le_iff)
qed

lemma near_product:
  assumes "near x v" "near y u" "near z (x * y)" "0 \<le> v" "1 \<le> u" "u \<le> 2 ^ 63"
  shows "\<bar>z - v * u\<bar> \<le> v * u / 2 ^ 50 + 1 / 2 ^ 1000"
proof -
  let ?t = "1 / 2 ^ 1075 :: real"
  have t: "?t \<le> 1 / 2 ^ 53" by (simp add: divide_simps)
  have "\<bar>z - v * u\<bar> \<le> 6 * (v * u * (1 / 2 ^ 53)) + 4 * (?t * u)"
    using assms t by (intro product_estimate [of x v _ _ y]) (simp_all add: near_def)
  also have "6 * (v * u * (1 / 2 ^ 53)) \<le> v * u / 2 ^ 50" using assms by (simp add: divide_simps)
  also have "4 * (?t * u) \<le> 4 * (?t * 2 ^ 63)" using assms by (intro mult_left_mono) simp_all
  also have "4 * (?t * 2 ^ 63) \<le> 1 / 2 ^ 1000" by (simp add: divide_simps)
  finally show ?thesis by simp
qed


lemma of_int64_near:
  assumes "0 < u" "u \<le> 2 ^ 63"
  obtains y where "of_int64 u = FFin y" "\<not> fneg y" "near (fval y) (real_of_int u)"
proof -
  have u: "real (nat \<bar>u\<bar>) / real 1 = real_of_int u" using assms by simp
  have "real_of_int u \<le> 2 ^ 63" using assms by (metis of_int_le_iff of_int_numeral of_int_power)
  also have "\<dots> < (2::real) ^ 1023" by simp
  finally show ?thesis
    using of_ratio_near [of 1 "nat \<bar>u\<bar>" False thesis] that assms unfolding u of_int64_def by simp
qed

lemma f_mul_near:
  assumes "\<not> fneg a" "\<not> fneg b" "fval a * fval b < 2 ^ 1023"
  obtains z where "f_mul (FFin a) (FFin b) = FFin z" "\<not> fneg z" "near (fval z) (fval a * fval b)"
proof -
  have r: "real (f64_num a * f64_num b) / real (f64_den a * f64_den b) = fval a * fval b"
    using f64_ratio [of a] f64_ratio [of b] by (simp add: times_divide_times_eq [symmetric])
  show ?thesis
    using of_ratio_near [of "f64_den a * f64_den b" "f64_num a * f64_num b" False thesis] that assms f64_ratio(2)
    unfolding r by simp
qed

lemma near_factors:
  assumes "near x v" "near y u" "0 \<le> v" "v * u \<le> 2 ^ 1000" "1 \<le> u" "u \<le> 2 ^ 63"
  shows "x * y < 2 ^ 1023"
proof -
  have "v \<le> v * u" using mult_left_mono [OF assms(5,3)] by simp
  then have "v \<le> 2 ^ 1000" using assms(4) by linarith
  have "x \<le> 2 * v + 1" "y \<le> 2 * u"
    using assms by (auto simp: near_def abs_le_iff)
  then have "x * y \<le> (2 * v + 1) * (2 * u)" using assms by (intro mult_mono) (auto simp: near_def)
  also have "\<dots> = 4 * (v * u) + 2 * u" by (simp add: algebra_simps)
  also have "\<dots> \<le> 4 * 2 ^ 1000 + 2 * 2 ^ 63" using assms by linarith
  also have "\<dots> < 2 ^ 1023" by simp
  finally show ?thesis .
qed

lemma abs_chain:
  fixes a b c h r t :: real
  assumes "\<bar>a - b\<bar> \<le> e / 2" "\<bar>b - c\<bar> \<le> r + t" "t \<le> e / 2"
  shows "\<bar>a - c\<bar> \<le> e + r"
  using assms by linarith

text \<open>
  C24: what a start costs.  When the configured price per second is a dollar sign with a decimal
  fraction, the gate asks for an amount in dollars with ten decimals that differs from the price times
  the seconds of the runway by at most one unit of the last decimal and a relative error of \<open>1 / 2 ^ 50\<close>.
\<close>

theorem start_price_is_close:
  assumes "TrimSpace (Price cfg) = CHR ''$'' # i @ CHR ''.'' # f" "i \<noteq> []" "read_digits 0 (i @ f) = Some m"
    and "StartRunwaySeconds cfg = u" "0 < u" "u < 2 ^ 63" "real m / 10 ^ length f * u \<le> 2 ^ 1000"
  shows "\<exists>rt n. PipelineRoutes cfg = [(''POST /v1/pipelines/*/start'', rt)] \<and>
    xr_Price rt = Inr (CHR ''$'' # dec_nat (n div 10 ^ 10) @ CHR ''.'' # pad_left 10 (dec_nat (n mod 10 ^ 10))) \<and>
    \<bar>n / 10 ^ 10 - real m / 10 ^ length f * u\<bar> \<le> 1 / 10 ^ 10 + real m / 10 ^ length f * u / 2 ^ 50"
proof -
  define v where "v = real m / 10 ^ length f"
  have v: "0 \<le> v" "v * u \<le> 2 ^ 1000" "v = real m / real (10 ^ length f)" using assms(7) by (simp_all add: v_def)
  have "1 \<le> u" using assms(5) by simp
  then have u: "1 \<le> real_of_int u" by simp
  obtain y where y: "of_int64 u = FFin y" "\<not> fneg y" "near (fval y) (real_of_int u)"
    using of_int64_near assms by (metis order_less_imp_le)
  have "v \<le> v * u" using mult_left_mono [OF u v(1)] by simp
  also have "\<dots> < 2 ^ 1023" using v(2) by (rule order_le_less_trans) simp
  finally obtain x where x: "of_ratio False m (10 ^ length f) = FFin x" "\<not> fneg x" "near (fval x) v"
    using of_ratio_near [of "10 ^ length f" m False thesis] unfolding v(3) by auto
  then have p: "ParseFloat (i @ CHR ''.'' # f) = Inr (FFin x)"
    using ParseFloat_decimal [OF assms(3,2)] by simp
  have u63: "real_of_int u \<le> 2 ^ 63"
    using assms(6) by (metis of_int_le_iff of_int_numeral of_int_power order_less_imp_le)
  have "fval x * fval y < 2 ^ 1023" by (rule near_factors [OF x(3) y(3) v(1,2) u u63])
  then obtain z where z: "f_mul (FFin x) (FFin y) = FFin z" "\<not> fneg z" "near (fval z) (fval x * fval y)"
    using f_mul_near x y by metis
  define n where "n = round_div (f64_num z * 10 ^ 10) (f64_den z)"
  have n: "\<bar>real n - fval z * 10 ^ 10\<bar> \<le> 1 / 2"
    using round_div_error [OF f64_ratio(2), of "f64_num z * 10 ^ 10" z]
    by (simp add: n_def flip: f64_ratio(1))
  have "\<bar>fval z - v * u\<bar> \<le> v * u / 2 ^ 50 + 1 / 2 ^ 1000"
    using x y z v u u63 by (intro near_product) simp_all
  then have close: "\<bar>n / 10 ^ 10 - v * u\<bar> \<le> 1 / 10 ^ 10 + v * u / 2 ^ 50"
  proof (rule abs_chain [rotated])
    show "\<bar>n / 10 ^ 10 - fval z\<bar> \<le> 1 / 10 ^ 10 / 2" using n by (simp add: abs_le_iff field_simps)
    show "1 / 2 ^ 1000 \<le> (1 / 10 ^ 10 / 2 :: real)" by simp
  qed
  have "fmt_fixed (Suc 9) z = dec_nat (n div 10 ^ 10) @ CHR ''.'' # pad_left 10 (dec_nat (n mod 10 ^ 10))"
    unfolding fmt_fixed_split [OF z(2)] Let_def by (simp add: n_def)
  then have "MulUSDPrice (Price cfg) u = Inr (CHR ''$'' # dec_nat (n div 10 ^ 10) @ CHR ''.'' # pad_left 10 (dec_nat (n mod 10 ^ 10)))"
    using assms(1,5) p y(1) z(1) by (simp add: MulUSDPrice_def Let_def HasPrefix_def TrimPrefix_def fmt_float_def)
  then show ?thesis
    using assms(4,5) close by (auto simp: PipelineRoutes_def v_def)
qed


theorem start_price_is_close_witness:
  "\<exists>rt n. PipelineRoutes (LoadX402FromEnv [] (\<lambda>_. [])) = [(''POST /v1/pipelines/*/start'', rt)] \<and>
    xr_Price rt = Inr (CHR ''$'' # dec_nat (n div 10 ^ 10) @ CHR ''.'' # pad_left 10 (dec_nat (n mod 10 ^ 10))) \<and>
    \<bar>n / 10 ^ 10 - 51 / 1000\<bar> \<le> (1 / 10 ^ 9 :: real)"
proof -
  let ?cfg = "LoadX402FromEnv [] (\<lambda>_. [])"
  have cfg: "Price ?cfg = ''$0.00017''" "StartRunwaySeconds ?cfg = 300"
    by (simp_all add: LoadX402FromEnv_def getEnvDefault_def getEnv_def env_int_def)
  have "TrimSpace ''$0.00017'' = CHR ''$'' # ''0'' @ CHR ''.'' # ''00017''" by code_simp
  moreover have "read_digits 0 (''0'' @ ''00017'') = Some 17" by code_simp
  ultimately obtain rt n where r: "PipelineRoutes ?cfg = [(''POST /v1/pipelines/*/start'', rt)]"
    "xr_Price rt = Inr (CHR ''$'' # dec_nat (n div 10 ^ 10) @ CHR ''.'' # pad_left 10 (dec_nat (n mod 10 ^ 10)))"
    "\<bar>n / 10 ^ 10 - real 17 / 10 ^ length ''00017'' * real_of_int 300\<bar> \<le>
       1 / 10 ^ 10 + real 17 / 10 ^ length ''00017'' * real_of_int 300 / 2 ^ 50"
    using start_price_is_close [of ?cfg "''0''" "''00017''" 17 300] cfg by auto
  moreover from r(3) have "\<bar>n / 10 ^ 10 - 51 / 1000\<bar> \<le> (1 / 10 ^ 9 :: real)" by (simp add: abs_le_iff)
  ultimately show ?thesis by blast
qed

end
