(* ===== verification/Base64.thy ===== *)
theory Base64
  imports Prelude
begin

text \<open>The standard encoding of \<open>encoding/base64\<close>: it pads with an equals sign, and line breaks are skipped.\<close>

definition b64_alphabet :: string where
  "b64_alphabet = ''ABCDEFGHIJKLMNOPQRSTUVWXYZabcdefghijklmnopqrstuvwxyz0123456789+/''"

definition b64_char :: "nat \<Rightarrow> char" where
  "b64_char n = b64_alphabet ! n"

definition b64_val :: "char \<Rightarrow> nat option" where
  "b64_val = map_of (zip b64_alphabet [0..<64])"

fun EncodeToString :: "string \<Rightarrow> string" where
  "EncodeToString [] = []"
| "EncodeToString [a] =
     (let n = of_char a * 16 in [b64_char (n div 64), b64_char (n mod 64), CHR ''='', CHR ''=''])"
| "EncodeToString [a, b] =
     (let n = (of_char a * 256 + of_char b) * 4
      in [b64_char (n div 64 ^ 2), b64_char (n div 64 mod 64), b64_char (n mod 64), CHR ''=''])"
| "EncodeToString (a # b # c # s) =
     (let n = (of_char a * 256 + of_char b) * 256 + of_char c
      in b64_char (n div 64 ^ 3) # b64_char (n div 64 ^ 2 mod 64) # b64_char (n div 64 mod 64) # b64_char (n mod 64) #
         EncodeToString s)"

text \<open>A group of four; padding only ends the text, and the bits it leaves over are not checked.\<close>

fun decode_groups :: "string \<Rightarrow> string option" where
  "decode_groups [] = Some []"
| "decode_groups (a # b # c # d # s) =
     (case (b64_val a, b64_val b) of
        (Some x, Some y) \<Rightarrow>
          if c = CHR ''='' then (if d = CHR ''='' \<and> s = [] then Some [char_of ((x * 64 + y) div 16)] else None)
          else (case b64_val c of
                  None \<Rightarrow> None
                | Some z \<Rightarrow>
                    let n = (x * 64 + y) * 64 + z
                    in if d = CHR ''=''
                       then (if s = [] then Some [char_of (n div 4 div 256), char_of (n div 4 mod 256)] else None)
                       else (case b64_val d of
                               None \<Rightarrow> None
                             | Some w \<Rightarrow>
                                 let m = n * 64 + w
                                 in map_option (\<lambda>r. char_of (m div 256 ^ 2) # char_of (m div 256 mod 256) # char_of (m mod 256) # r)
                                      (decode_groups s)))
      | _ \<Rightarrow> None)"
| "decode_groups _ = None"

definition DecodeString :: "string \<Rightarrow> string option" where
  "DecodeString s = decode_groups (filter (\<lambda>c. c \<noteq> CHR 0x0A \<and> c \<noteq> CHR 0x0D) s)"

section \<open>Round trip\<close>

lemma b64_alphabet_props: "length b64_alphabet = 64" "distinct b64_alphabet" "CHR ''='' \<notin> set b64_alphabet"
  "CHR 0x0A \<notin> set b64_alphabet" "CHR 0x0D \<notin> set b64_alphabet"
  by (simp_all add: b64_alphabet_def)

lemma b64_char_in: "n < 64 \<Longrightarrow> b64_char n \<in> set b64_alphabet"
  using b64_alphabet_props(1) by (simp add: b64_char_def)

lemma b64_val_char [simp]: "n < 64 \<Longrightarrow> b64_val (b64_char n) = Some n"
  using b64_alphabet_props by (simp add: b64_val_def b64_char_def map_of_zip_nth)

lemma b64_char_not [simp]: "n < 64 \<Longrightarrow> b64_char n \<noteq> CHR ''=''" "n < 64 \<Longrightarrow> b64_char n \<noteq> CHR 0x0A"
  "n < 64 \<Longrightarrow> b64_char n \<noteq> CHR 0x0D"
  using b64_char_in b64_alphabet_props by metis+

lemma byte_bound: "(of_char c :: nat) < 256"
  by (metis of_char_mod_256 mod_less_divisor zero_less_numeral)

lemma join_sextets:
  fixes n :: nat
  shows "n div 64 * 64 + n mod 64 = n" "n div 4096 * 64 + n div 64 mod 64 = n div 64"
    "n div 262144 * 64 + n div 4096 mod 64 = n div 4096"
proof -
  have "n div 4096 = n div 64 div 64" "n div 262144 = n div 4096 div 64"
    using div_mult2_eq [of n 64 64] div_mult2_eq [of n 4096 64] by simp_all
  then show "n div 4096 * 64 + n div 64 mod 64 = n div 64" "n div 262144 * 64 + n div 4096 mod 64 = n div 4096"
    by (simp_all only: div_mult_mod_eq)
qed simp

lemma one_byte:
  assumes "x < (256::nat)"
  shows "x * 16 div 64 < 64 \<and> x * 16 div 16 = x"
  using assms by (simp add: less_mult_imp_div_less)

lemma two_bytes:
  assumes "x < (256::nat)" "y < 256"
  shows "(x * 256 + y) * 4 div 4096 < 64 \<and> (x * 256 + y) * 4 div 4 = x * 256 + y \<and> (x * 256 + y) div 256 = x"
proof (intro conjI)
  show "(x * 256 + y) * 4 div 4096 < 64" using assms by (intro less_mult_imp_div_less) simp
  show "(x * 256 + y) div 256 = x" using assms by (intro div_nat_eqI) simp_all
qed simp

lemma three_bytes:
  assumes "x < (256::nat)" "y < 256" "z < 256"
  shows "((x * 256 + y) * 256 + z) div 262144 < 64 \<and> ((x * 256 + y) * 256 + z) div 65536 = x \<and>
    ((x * 256 + y) * 256 + z) div 256 mod 256 = y \<and> ((x * 256 + y) * 256 + z) mod 256 = z"
proof (intro conjI)
  show "((x * 256 + y) * 256 + z) div 262144 < 64" using assms by (intro less_mult_imp_div_less) simp
  show "((x * 256 + y) * 256 + z) div 65536 = x" using assms by (intro div_nat_eqI) simp_all
  have "((x * 256 + y) * 256 + z) div 256 = x * 256 + y" using assms by (intro div_nat_eqI) simp_all
  then show "((x * 256 + y) * 256 + z) div 256 mod 256 = y" using assms by (simp only: mod_mult_self3 mod_less)
  show "((x * 256 + y) * 256 + z) mod 256 = z" using assms by (simp only: mod_mult_self3 mod_less)
qed

lemma char_of_low_byte [simp]: "char_of (256 * x + of_char b :: nat) = b"
proof -
  have "(256 * x + of_char b) mod 256 = (of_char b :: nat)" using byte_bound [of b] by simp
  then have "char_of ((256 * x + of_char b) mod 256 :: nat) = b" by (simp only: char_of_char)
  then show ?thesis by (simp only: char_of_mod_256)
qed

lemma decode_encoded: "decode_groups (EncodeToString s) = Some s"
proof (induction s rule: EncodeToString.induct)
  case (2 a)
  define n where "n = (of_char a * 16 :: nat)"
  have "n div 64 < 64" "n div 16 = of_char a"
    using one_byte [OF byte_bound, of a] by (simp_all only: n_def)
  then show ?case by (simp add: Let_def join_sextets flip: n_def)
next
  case (3 a b)
  define n where "n = ((of_char a * 256 + of_char b) * 4 :: nat)"
  have "n div 4096 < 64" "n div 4 = of_char a * 256 + of_char b" "n div 4 div 256 = of_char a"
    using two_bytes [OF byte_bound byte_bound, of a b] by (simp_all only: n_def)
  then show ?case by (simp add: Let_def join_sextets flip: n_def)
next
  case (4 a b c s)
  define n where "n = ((of_char a * 256 + of_char b) * 256 + of_char c :: nat)"
  have "n div 262144 < 64" "n div 65536 = of_char a" "n div 256 mod 256 = of_char b" "n mod 256 = of_char c"
    using three_bytes [OF byte_bound byte_bound byte_bound, of a b c] by (simp_all only: n_def)
  moreover from this have "char_of (n div 256) = b" "char_of n = c" by (metis char_of_mod_256 char_of_char)+
  ultimately show ?case
    using 4 unfolding EncodeToString.simps Let_def n_def [symmetric] by (simp add: join_sextets)
qed simp

lemma EncodeToString_text: "set (EncodeToString s) \<subseteq> insert (CHR ''='') (set b64_alphabet)"
proof (induction s rule: EncodeToString.induct)
  case (2 a)
  show ?case using one_byte [OF byte_bound, of a] by (simp add: Let_def b64_char_in)
next
  case (3 a b)
  show ?case using two_bytes [OF byte_bound byte_bound, of a b] by (simp add: Let_def b64_char_in)
next
  case (4 a b c s)
  then show ?case using three_bytes [OF byte_bound byte_bound byte_bound, of a b c] by (simp add: Let_def b64_char_in)
qed simp

lemma base64_roundtrip: "DecodeString (EncodeToString s) = Some s"
proof -
  have "filter (\<lambda>c. c \<noteq> CHR 0x0A \<and> c \<noteq> CHR 0x0D) (EncodeToString s) = EncodeToString s"
    using EncodeToString_text [of s] b64_alphabet_props by (intro filter_True) auto
  then show ?thesis by (simp add: DecodeString_def decode_encoded)
qed

end
