(* ===== verification/X402_Test.thy ===== *)
theory X402_Test
  imports Base64 Payment_Gate
begin

text \<open>
  The mock facilitators and the paying transport of the integration tests
  (\<^verbatim>\<open>internal/x402test/x402test.go\<close>).
\<close>

section \<open>Facilitators\<close>

record verify_response =
  vr_IsValid :: bool
  vr_Payer :: string

record settle_response =
  sr_Success :: bool
  sr_Transaction :: string
  sr_Network :: string
  sr_Payer :: string

record supported_kind =
  sk_X402Version :: int
  sk_Scheme :: string
  sk_Network :: string

text \<open>The three implementations of the interface, with their methods as in the code.\<close>

definition mock_Verify :: "string \<Rightarrow> string \<Rightarrow> string + verify_response" where
  "mock_Verify payload requirements = Inr \<lparr>vr_IsValid = True, vr_Payer = ''0xpayer''\<rparr>"

definition mock_Settle :: "string \<Rightarrow> string \<Rightarrow> string + settle_response" where
  "mock_Settle payload requirements =
     Inr \<lparr>sr_Success = True, sr_Transaction = ''0xabc'', sr_Network = ''eip155:84532'', sr_Payer = ''0xpayer''\<rparr>"

definition mock_GetSupported :: "supported_kind list" where
  "mock_GetSupported = [\<lparr>sk_X402Version = 2, sk_Scheme = ''exact'', sk_Network = ''eip155:84532''\<rparr>]"

definition reject_Verify :: "string \<Rightarrow> string \<Rightarrow> string + verify_response" where
  "reject_Verify payload requirements = Inr \<lparr>vr_IsValid = False, vr_Payer = []\<rparr>"

definition reject_Settle :: "string \<Rightarrow> string \<Rightarrow> string + settle_response" where
  "reject_Settle payload requirements =
     Inr \<lparr>sr_Success = False, sr_Transaction = [], sr_Network = [], sr_Payer = []\<rparr>"

definition reject_GetSupported :: "supported_kind list" where
  "reject_GetSupported = mock_GetSupported"

text \<open>The error of an \<open>ErrorVerifyFacilitator\<close> may be nil.\<close>

definition error_Verify :: "string option \<Rightarrow> string \<Rightarrow> string \<Rightarrow> string + verify_response" where
  "error_Verify Err payload requirements = Inl (case Err of Some e \<Rightarrow> e | None \<Rightarrow> ''verify failed'')"

definition error_Settle :: "string \<Rightarrow> string \<Rightarrow> string + settle_response" where
  "error_Settle payload requirements = Inl ''settle failed''"

definition error_GetSupported :: "supported_kind list" where
  "error_GetSupported = mock_GetSupported"

datatype facilitator = MockFacilitator | RejectVerifyFacilitator | ErrorVerifyFacilitator "string option"

fun Verify :: "facilitator \<Rightarrow> string \<Rightarrow> string \<Rightarrow> string + verify_response" where
  "Verify MockFacilitator = mock_Verify"
| "Verify RejectVerifyFacilitator = reject_Verify"
| "Verify (ErrorVerifyFacilitator e) = error_Verify e"

fun Settle :: "facilitator \<Rightarrow> string \<Rightarrow> string \<Rightarrow> string + settle_response" where
  "Settle MockFacilitator = mock_Settle"
| "Settle RejectVerifyFacilitator = reject_Settle"
| "Settle (ErrorVerifyFacilitator e) = error_Settle"

fun GetSupported :: "facilitator \<Rightarrow> supported_kind list" where
  "GetSupported MockFacilitator = mock_GetSupported"
| "GetSupported RejectVerifyFacilitator = reject_GetSupported"
| "GetSupported (ErrorVerifyFacilitator e) = error_GetSupported"

definition TestX402Config :: X402 where
  "TestX402Config =
     \<lparr>FacilitatorURL = ''http://unused.example'', PayTo = ''0x1111111111111111111111111111111111111111'',
      XNetwork = ''eip155:84532'', Price = ''$0.001'', StartRunwaySeconds = 1\<rparr>"

section \<open>The transport\<close>

text \<open>
  Requests and responses as far as the transport looks at them.  A body is \<open>None\<close> when it is nil, else
  what reading it yields; the body of a response is \<open>None\<close> once it is drained.  A header that is not
  set reads as the empty string.
\<close>

record out_request =
  or_URL :: string
  or_Headers :: "string \<Rightarrow> string"
  or_Body :: "(string + string) option"

record in_response =
  ir_StatusCode :: nat
  ir_Headers :: "string \<Rightarrow> string"
  ir_Body :: "string option"

text \<open>
  The base transport over a state of the world, with the response and the error that Go returns side
  by side.
\<close>

type_synonym 'w transport = "'w \<Rightarrow> out_request \<Rightarrow> 'w \<times> in_response option \<times> string option"

text \<open>
  The types of the x402 library: an accepted requirement has extra fields and a part the transport does
  not look at.  \<open>Unmarshal\<close> reads the requirements of a challenge, \<open>Marshal\<close> writes a payload with its
  version, its signature and the accepted requirement.
\<close>

record 'q requirement =
  rq_opaque :: 'q
  rq_Extra :: "string \<rightharpoonup> any"

record 'q x402_types =
  Unmarshal :: "string \<Rightarrow> string + 'q requirement list"
  Marshal :: "int \<Rightarrow> string \<times> string \<Rightarrow> 'q requirement \<Rightarrow> string + string"

definition read_body :: "out_request \<Rightarrow> string + string" where
  "read_body r = (case or_Body r of None \<Rightarrow> Inr [] | Some b \<Rightarrow> b)"

text \<open>The signature that answers a challenge: none when there is nothing to accept.\<close>

definition payment_signature :: "'q x402_types \<Rightarrow> string \<Rightarrow> string \<Rightarrow> string + string option" where
  "payment_signature ty url hdr =
     (case DecodeString hdr of
        None \<Rightarrow> Inl ''illegal base64 data''
      | Some raw \<Rightarrow>
          (case Unmarshal ty raw of
             Inl e \<Rightarrow> Inl e
           | Inr [] \<Rightarrow> Inr None
           | Inr (acc # _) \<Rightarrow>
               (case Marshal ty 2 (''sig'', ''test'') (acc\<lparr>rq_Extra := (rq_Extra acc)(''resourceUrl'' \<mapsto> AStr url)\<rparr>) of
                  Inl e \<Rightarrow> Inl e
                | Inr sigBytes \<Rightarrow> Inr (Some (EncodeToString sigBytes)))))"

definition signed_request :: "out_request \<Rightarrow> string \<Rightarrow> string \<Rightarrow> out_request" where
  "signed_request r bodyBytes sig =
     (let h = or_Headers r; ct = h ''Content-Type''; ac = h ''Accept'';
          h1 = h(''PAYMENT-SIGNATURE'' := sig);
          h2 = (if ct \<noteq> [] then h1(''Content-Type'' := ct) else h1);
          h3 = (if ac \<noteq> [] then h2(''Accept'' := ac) else h2(''Accept'' := ''application/json''))
      in r\<lparr>or_Headers := h3, or_Body := (if bodyBytes \<noteq> [] then Some (Inr bodyBytes) else or_Body r)\<rparr>)"

definition RoundTrip :: "'q x402_types \<Rightarrow> 'w transport \<Rightarrow> 'w transport" where
  "RoundTrip ty rt w r =
     (case read_body r of
        Inl e \<Rightarrow> (w, None, Some e)
      | Inr bodyBytes \<Rightarrow>
          (case rt w r of
             (w1, resp, err) \<Rightarrow>
               (case (resp, err) of
                  (Some p, None) \<Rightarrow>
                    if ir_StatusCode p \<noteq> 402 then (w1, resp, err)
                    else let drained = p\<lparr>ir_Body := None\<rparr>; hdr = ir_Headers p ''PAYMENT-REQUIRED''
                         in if hdr = [] then (w1, Some drained, None)
                            else (case payment_signature ty (or_URL r) hdr of
                                    Inl e \<Rightarrow> (w1, None, Some e)
                                  | Inr None \<Rightarrow> (w1, Some drained, None)
                                  | Inr (Some sig) \<Rightarrow> rt w1 (signed_request r bodyBytes sig))
                | _ \<Rightarrow> (w1, resp, err))))"

section \<open>What the transport sends\<close>

text \<open>A transport that also keeps the requests it is given.\<close>

definition logged :: "'w transport \<Rightarrow> ('w \<times> out_request list) transport" where
  "logged rt s r = (case s of (w, sent) \<Rightarrow> (case rt w r of (w', x) \<Rightarrow> ((w', sent @ [r]), x)))"

text \<open>
  It sends a request at most twice, the second time only after a challenge, to the same place with the
  same body, and with the signature.
\<close>

lemma pays_at_most_once:
  assumes "RoundTrip ty (logged rt) (w, []) r = ((w', sent), x)"
  shows "sent = [] \<or> sent = [r] \<or>
    (\<exists>r2 w1 p sig. sent = [r, r2] \<and> rt w r = (w1, Some p, None) \<and> ir_StatusCode p = 402 \<and>
       or_URL r2 = or_URL r \<and> read_body r2 = read_body r \<and> or_Headers r2 ''PAYMENT-SIGNATURE'' = sig \<and>
       payment_signature ty (or_URL r) (ir_Headers p ''PAYMENT-REQUIRED'') = Inr (Some sig))"
proof -
  have "or_URL (signed_request r b sig) = or_URL r"
    "or_Headers (signed_request r b sig) ''PAYMENT-SIGNATURE'' = sig" for b sig
    by (simp_all add: signed_request_def Let_def)
  moreover have "read_body r = Inr b \<Longrightarrow> read_body (signed_request r b sig) = read_body r" for b sig
    by (simp add: signed_request_def Let_def read_body_def split: option.splits)
  ultimately show ?thesis
    using assms
    by (auto simp: RoundTrip_def logged_def Let_def split: sum.splits prod.splits option.splits if_splits)
qed

text \<open>The configuration of the tests asks for what the mock supports.\<close>

lemma test_config_supported:
  "\<lparr>sk_X402Version = 2, sk_Scheme = ''exact'', sk_Network = XNetwork TestX402Config\<rparr> \<in> set (GetSupported f)"
  by (cases f) (simp_all add: TestX402Config_def mock_GetSupported_def reject_GetSupported_def error_GetSupported_def)

end
