(* ===== verification/Demo_Activity.thy ===== *)
theory Demo_Activity
  imports Config Go_Float Go_Time
begin

text \<open>
  The demo executable \<^verbatim>\<open>cmd/hcs-demo-activity/main.go\<close>: its dotenv files, its settings, the client it
  dials and the messages it submits.  The SDK is a parameter.  Parsing of the command line is not
  modelled.
\<close>

section \<open>Dotenv files\<close>

text \<open>\<open>strings.Split\<close> at one character.\<close>

fun split_at :: "char \<Rightarrow> string \<Rightarrow> string list" where
  "split_at c [] = [[]]"
| "split_at c (x # xs) =
     (if x = c then [] # split_at c xs
      else case split_at c xs of [] \<Rightarrow> [[x]] | p # ps \<Rightarrow> (x # p) # ps)"

definition dotenv_line :: "string \<Rightarrow> (string \<times> string) option" where
  "dotenv_line line0 =
     (let line = TrimSpace line0
      in if line = [] \<or> HasPrefix line ''#'' then None
         else let line = (if HasPrefix line ''export '' then TrimSpace (TrimPrefix line ''export '') else line);
                  i = length (takeWhile (\<lambda>c. c \<noteq> CHR ''='') line)
              in if i = length line \<or> i = 0 then None
                 else let key = TrimSpace (take i line); val = TrimSpace (drop (i + 1) line);
                          quoted = 2 \<le> length val \<and> hd val = CHR 0x22 \<and> last val = CHR 0x22
                      in Some (key, if quoted then butlast (tl val) else val))"

text \<open>\<open>os.Setenv\<close> refuses a NUL byte, an empty key and a key with an equals sign.\<close>

definition Setenv :: "env \<Rightarrow> string \<Rightarrow> string \<Rightarrow> env" where
  "Setenv env key val =
     (if key = [] \<or> CHR ''='' \<in> set key \<or> CHR 0x00 \<in> set key \<or> CHR 0x00 \<in> set val then env
      else env(key := val))"

definition set_if_unset :: "env \<Rightarrow> string \<times> string \<Rightarrow> env" where
  "set_if_unset env kv = (case kv of (key, val) \<Rightarrow> if env key \<noteq> [] then env else Setenv env key val)"

text \<open>The contents of the file, or \<open>None\<close> when it cannot be read.\<close>

definition loadDotEnv :: "env \<Rightarrow> string option \<Rightarrow> env" where
  "loadDotEnv env file =
     (case file of
        None \<Rightarrow> env
      | Some b \<Rightarrow> foldl set_if_unset env (List.map_filter dotenv_line (split_at (CHR 0x0A) b)))"

definition loadEnvFiles :: "(string \<Rightarrow> string option) \<Rightarrow> env \<Rightarrow> env" where
  "loadEnvFiles files env = foldl loadDotEnv env (map files [''.env'', ''cmd/hcs-demo-activity/.env''])"

section \<open>Settings\<close>

fun firstNonEmpty :: "string list \<Rightarrow> string" where
  "firstNonEmpty [] = []"
| "firstNonEmpty (v # vs) = (if TrimSpace v \<noteq> [] then TrimSpace v else firstNonEmpty vs)"

definition parseMirrorList :: "string \<Rightarrow> string list" where
  "parseMirrorList s0 =
     (let s = TrimSpace s0
      in if s = [] then [] else filter (\<lambda>p. p \<noteq> []) (map TrimSpace (split_at (CHR '','') s)))"

definition demo_truthy :: "string \<Rightarrow> bool" where
  "demo_truthy s0 = (let s = ToLower (TrimSpace s0) in s = ''1'' \<or> s = ''true'' \<or> s = ''yes'')"

definition demo_operator :: "env \<Rightarrow> string \<times> string" where
  "demo_operator env =
     (TrimSpace (firstNonEmpty [env ''HEDERA_OPERATOR_ID'', env ''RELAY_OPERATOR_ID_MAIN'']),
      TrimSpace (firstNonEmpty [env ''HEDERA_OPERATOR_KEY'', env ''RELAY_OPERATOR_KEY_MAIN'']))"

definition demo_topic :: "env \<Rightarrow> string \<Rightarrow> string" where
  "demo_topic env topicFlag =
     (let topicID = TrimSpace topicFlag
      in if topicID = []
         then firstNonEmpty [env ''HEDERA_HCS_TOPIC_ID'', env ''LOCAL_NODE_HCS_TOPIC_ID'', env ''SOLO_HCS_TOPIC_ID'',
                env ''HEDERA_AUDIT_TOPIC_ID'']
         else topicID)"

section \<open>The client\<close>

text \<open>
  The SDK: clients \<open>'c\<close>, accounts \<open>'a\<close>, keys \<open>'k\<close>, topics \<open>'p\<close>, responses \<open>'r\<close> and transaction ids \<open>'t\<close>.
  An error is its text.  A transaction id has an account and a start time, or lacks one of them.
\<close>

record ('c, 'a, 'k, 'p, 'r, 't) demo_hiero =
  dh_AccountIDFromString :: "string \<Rightarrow> string + 'a"
  dh_PrivateKeyFromString :: "string \<Rightarrow> string + 'k"
  dh_TopicIDFromString :: "string \<Rightarrow> string + 'p"
  ClientForNetworkV2 :: "string \<Rightarrow> 'a \<Rightarrow> string + 'c"
  ClientForName :: "string \<Rightarrow> string + 'c"
  ClientForMainnet :: 'c
  ClientForPreviewnet :: 'c
  ClientForTestnet :: 'c
  SetMirrorNetwork :: "'c \<Rightarrow> string list \<Rightarrow> 'c"
  SetTransportSecurity :: "'c \<Rightarrow> bool \<Rightarrow> 'c"
  SetOperator :: "'c \<Rightarrow> 'a \<Rightarrow> 'k \<Rightarrow> 'c"
  SetGrpcDeadline :: "'c \<Rightarrow> int \<Rightarrow> 'c"
  TopicCreateExecute :: "'c \<Rightarrow> string + 'r"
  GetReceipt :: "'c \<Rightarrow> 'r \<Rightarrow> string + 'p option"
  TopicMessageExecute :: "'c \<Rightarrow> 'p \<Rightarrow> string \<Rightarrow> string + 't"
  TransactionID_String :: "'t \<Rightarrow> string"
  TopicID_String :: "'p \<Rightarrow> string"
  TransactionID_parts :: "'t \<Rightarrow> (string \<times> gotime) option"

definition dialClient :: "('c, 'a, 'k, 'p, 'r, 't) demo_hiero \<Rightarrow> env \<Rightarrow> string + 'c" where
  "dialClient sdk env =
     (let n = ToLower (TrimSpace (env ''HEDERA_NETWORK''));
          net = (if n = [] then ''testnet'' else n);
          plain = (\<lambda>c. if demo_truthy (env ''HEDERA_LOCAL_PLAINTEXT'') then SetTransportSecurity sdk c False else c);
          localGRPC = TrimSpace (env ''HEDERA_LOCAL_GRPC'')
      in if localGRPC \<noteq> []
         then let a = TrimSpace (env ''HEDERA_LOCAL_NODE_ACCOUNT_ID'');
                  nodeAcc = (if a = [] then ''0.0.3'' else a)
              in (case dh_AccountIDFromString sdk nodeAcc of
                    Inl e \<Rightarrow> Inl (''HEDERA_LOCAL_NODE_ACCOUNT_ID: '' @ e)
                  | Inr acc \<Rightarrow>
                      (case ClientForNetworkV2 sdk localGRPC acc of
                         Inl e \<Rightarrow> Inl e
                       | Inr c \<Rightarrow>
                           let mirrors = parseMirrorList (env ''HEDERA_LOCAL_MIRROR'')
                           in Inr (plain (if mirrors \<noteq> [] then SetMirrorNetwork sdk c mirrors else c))))
         else if net = ''local'' \<or> net = ''localhost'' then map_sum id plain (ClientForName sdk ''local'')
         else if net = ''mainnet'' then Inr (ClientForMainnet sdk)
         else if net = ''previewnet'' then Inr (ClientForPreviewnet sdk)
         else Inr (ClientForTestnet sdk))"

definition applyClientDeadline :: "('c, 'a, 'k, 'p, 'r, 't) demo_hiero \<Rightarrow> env \<Rightarrow> 'c \<Rightarrow> 'c" where
  "applyClientDeadline sdk env c =
     (let s = TrimSpace (env ''HEDERA_GRPC_DEADLINE'');
          d = (if s = [] then 2 * Minute
               else case ParseDuration s of None \<Rightarrow> 2 * Minute | Some p \<Rightarrow> if 0 < p then p else 2 * Minute)
      in SetGrpcDeadline sdk c d)"

definition createConsensusTopic :: "('c, 'a, 'k, 'p, 'r, 't) demo_hiero \<Rightarrow> 'c \<Rightarrow> string + 'p" where
  "createConsensusTopic sdk c =
     (case TopicCreateExecute sdk c of
        Inl e \<Rightarrow> Inl e
      | Inr resp \<Rightarrow>
          (case GetReceipt sdk c resp of
             Inl e \<Rightarrow> Inl e
           | Inr None \<Rightarrow> Inl ''topic create: missing topic id in receipt''
           | Inr (Some tid) \<Rightarrow> Inr tid))"

definition mirrorRESTTransactionPath :: "('c, 'a, 'k, 'p, 'r, 't) demo_hiero \<Rightarrow> 't \<Rightarrow> string" where
  "mirrorRESTTransactionPath sdk tx =
     (case TransactionID_parts sdk tx of
        None \<Rightarrow> []
      | Some (account, t) \<Rightarrow> account @ ''-'' @ dec_int (Unix t) @ ''-'' @ pad 9 (t mod 10 ^ 9))"

section \<open>Messages\<close>

text \<open>\<open>Marshal\<close> writes the members of a map in the order of their keys.\<close>

definition demoPayload :: "int \<Rightarrow> gotime \<Rightarrow> int \<Rightarrow> string" where
  "demoPayload pid now seq =
     enc (JObj [(''demo'', JStr ''hcs-demo-activity''), (''pid'', JInt pid), (''seq'', JInt seq),
                (''timestamp'', JStr (RFC3339Nano now))])"

text \<open>How a run ends: with the text of a fatal log line, or normally.\<close>

datatype 'p demo_end = Fatal string | Created 'p | Finished

definition submit_failed :: "string \<Rightarrow> string" where
  "submit_failed e =
     (if Contains e ''INVALID_TOPIC_ID''
      then ''submit: '' @ e @ bytes [32, 226, 128, 148, 32] @ ''topic does not exist on this ledger; run: go run . ''
             @ ''-create-topic  then use the printed id with -topic''
      else ''submit: '' @ e)"

definition mirror_hint :: "env \<Rightarrow> string \<Rightarrow> string" where
  "mirror_hint env p =
     (let b = TrimSuffix (TrimSpace (env ''MIRROR_REST_URL'')) ''/''; base = (if b = [] then ''http://127.0.0.1:5551'' else b)
      in ''hcs-demo-activity: mirror lookup '' @ base @ ''/api/v1/transactions/'' @ p @ '' (404 '' @ bytes [226, 135, 146] @
         '' mirror at '' @ base @ '' is not ingesting txs from this consensus node)'')"

definition submitted_lines :: "('c, 'a, 'k, 'p, 'r, 't) demo_hiero \<Rightarrow> env \<Rightarrow> int \<Rightarrow> string \<Rightarrow> 't \<Rightarrow> string list" where
  "submitted_lines sdk env seq payload tx =
     (''hcs-demo-activity: submitted seq='' @ dec_int seq @ '' tx='' @ TransactionID_String sdk tx @
        '' bytes='' @ dec_nat (length payload)) #
     (let p = mirrorRESTTransactionPath sdk tx in if seq = 1 \<and> p \<noteq> [] then [mirror_hint env p] else [])"

text \<open>
  The loop, with the readings of the clock of its passes; it ends by itself with \<open>once\<close> or at a failure,
  else when the process is stopped, which is the end of the list.  The result has the lines it logs.
\<close>

fun submit_loop ::
  "('c, 'a, 'k, 'p, 'r, 't) demo_hiero \<Rightarrow> env \<Rightarrow> 'c \<Rightarrow> 'p \<Rightarrow> bool \<Rightarrow> int \<Rightarrow> int \<Rightarrow> gotime list \<Rightarrow> string list \<times> 'p demo_end" where
  "submit_loop sdk env c topic once pid seq [] = ([], Finished)"
| "submit_loop sdk env c topic once pid seq (t # ts) =
     (let seq' = add64 seq 1; payload = demoPayload pid t seq'
      in case TopicMessageExecute sdk c topic payload of
          Inl e \<Rightarrow> ([], Fatal (submit_failed e))
        | Inr tx \<Rightarrow>
            let ls = submitted_lines sdk env seq' payload tx
            in if once then (ls, Finished)
               else (case submit_loop sdk env c topic once pid seq' ts of (ls', r) \<Rightarrow> (ls @ ls', r)))"

definition created_lines :: "('c, 'a, 'k, 'p, 'r, 't) demo_hiero \<Rightarrow> 'p \<Rightarrow> string list" where
  "created_lines sdk tid =
     (let t = TopicID_String sdk tid
      in [''hcs-demo-activity: created topic '' @ t,
          ''use: go run . -topic '' @ t @ '' -interval 5s   (and set LOCAL_NODE_HCS_TOPIC_ID='' @ t @ '' for Naryo compose)''])"

definition demo_main ::
  "('c, 'a, 'k, 'p, 'r, 't) demo_hiero \<Rightarrow> (string \<Rightarrow> string option) \<Rightarrow> env \<Rightarrow> string \<Rightarrow> bool \<Rightarrow> bool \<Rightarrow> int \<Rightarrow>
   gotime list \<Rightarrow> string list \<times> 'p demo_end" where
  "demo_main sdk files env0 topicFlag createTopic once pid ts =
     (let env = loadEnvFiles files env0; (opID, opKey) = demo_operator env
      in if opID = [] \<or> opKey = []
         then ([], Fatal (''set HEDERA_OPERATOR_ID and HEDERA_OPERATOR_KEY (or RELAY_OPERATOR_* from hedera-local-node), ''
                @ ''or put them in .env next to this command; plain `source .env` without `export` does not pass vars to go run''))
         else case dialClient sdk env of
           Inl e \<Rightarrow> ([], Fatal (''hedera client: '' @ e))
         | Inr c0 \<Rightarrow>
         (case dh_AccountIDFromString sdk opID of
           Inl e \<Rightarrow> ([], Fatal (''operator id: '' @ e))
         | Inr operator \<Rightarrow>
         (case dh_PrivateKeyFromString sdk opKey of
           Inl e \<Rightarrow> ([], Fatal (''operator key: '' @ e))
         | Inr key \<Rightarrow>
           let c = applyClientDeadline sdk env (SetOperator sdk c0 operator key); topicID = demo_topic env topicFlag
           in if createTopic
              then (case createConsensusTopic sdk c of
                      Inl e \<Rightarrow> ([], Fatal (''create topic: '' @ e))
                    | Inr tid \<Rightarrow> (created_lines sdk tid, Created tid))
              else if topicID = [] \<or> topicID = ''0.0.0''
              then ([], Fatal (''topic required: use -topic with an existing topic, or run with -create-topic first; ''
                     @ ''or set HEDERA_HCS_TOPIC_ID / LOCAL_NODE_HCS_TOPIC_ID / SOLO_HCS_TOPIC_ID / HEDERA_AUDIT_TOPIC_ID''))
              else case dh_TopicIDFromString sdk topicID of
                Inl e \<Rightarrow> ([], Fatal (''topic id: '' @ e))
              | Inr topic \<Rightarrow> submit_loop sdk env c topic once pid 0 ts)))"

section \<open>What the files decide\<close>

text \<open>The assignments that \<open>Setenv\<close> would make.\<close>

definition assigns :: "string \<Rightarrow> string \<times> string \<Rightarrow> bool" where
  "assigns k kv \<longleftrightarrow> fst kv = k \<and> snd kv \<noteq> [] \<and> CHR 0x00 \<notin> set (snd kv)"

definition file_lines :: "string option \<Rightarrow> (string \<times> string) list" where
  "file_lines file = (case file of None \<Rightarrow> [] | Some b \<Rightarrow> List.map_filter dotenv_line (split_at (CHR 0x0A) b))"

lemma loadDotEnv_lines: "loadDotEnv env file = foldl set_if_unset env (file_lines file)"
  by (simp add: loadDotEnv_def file_lines_def split: option.split)

lemma foldl_set_if_unset:
  assumes "k \<noteq> []" "CHR ''='' \<notin> set k" "CHR 0x00 \<notin> set k"
  shows "foldl set_if_unset env kvs k =
    (if env k \<noteq> [] then env k else case List.find (assigns k) kvs of None \<Rightarrow> [] | Some kv \<Rightarrow> snd kv)"
  using assms
  by (induction kvs arbitrary: env) (auto simp: set_if_unset_def Setenv_def assigns_def split: prod.split option.split)

lemma loadEnvFiles_lookup:
  assumes "k \<noteq> []" "CHR ''='' \<notin> set k" "CHR 0x00 \<notin> set k"
  shows "loadEnvFiles files env k =
    (if env k \<noteq> [] then env k
     else case List.find (assigns k) (file_lines (files ''.env'') @ file_lines (files ''cmd/hcs-demo-activity/.env'')) of
            None \<Rightarrow> [] | Some kv \<Rightarrow> snd kv)"
  by (simp add: loadEnvFiles_def loadDotEnv_lines foldl_set_if_unset [OF assms] flip: foldl_append)

end
