(* ===== verification/Spec2Isabelle.thy ===== *)
theory Spec2Isabelle
  imports Accounting Config Naryo_Outcomes Observability_Facts Redelivery Price_Facts X402_Test
    Demo_Activity
begin

text \<open>
  A model of the control plane of rented event pipelines, the Go program under \<^verbatim>\<open>src/internal\<close> and
  \<^verbatim>\<open>src/cmd\<close>.  Agents create sessions, start, pause, resume and stop them over REST or over MCP
  tools; a running session has egress provisioned in Naryo (filters and HTTP broadcasters), whose
  webhooks come back to the program; a billing loop meters running sessions against a prepaid ledger;
  every step is logged for the Hedera Consensus Service.

  \<^bold>\<open>Conventions.\<close>  A Go struct is a record and an operation a function from the state to the state
  and its results, with the guards and early returns of the code as its branches.  Operations under one
  mutex are one step.  An error is a value of \<open>err\<close>, whose constructors are the sentinels of
  \<^verbatim>\<open>pipeline/errors.go\<close>; \<open>ErrOther\<close> keeps the text of any other error.  An \<open>int64\<close> is an \<open>int\<close> in range
  with the wrap-around written out (\<open>add64\<close>, \<open>mul64\<close>); strings are byte lists; a \<open>map[string]any\<close> is an
  association list read with \<open>map_of\<close>; an instant is the number of nanoseconds since year 1.  A call
  that may never return has an \<open>option\<close> as its result and \<open>None\<close> is not returning.  Code outside the
  repository is a parameter: the Naryo service, the clock and the random source of the HTTP client
  (record \<open>outside\<close>), the Hedera SDK (record \<open>hiero\<close>), the x402 middleware and the MCP transport
  (arguments of \<open>root_serve\<close>).  Where Go iterates a map the order is an argument.

  \<^bold>\<open>Theories.\<close>
    \<^item> \<open>Prelude\<close>, \<open>Go_Values\<close>, \<open>Go_Time\<close>, \<open>Json_Text\<close>, \<open>Sha256\<close>, \<open>Go_Float\<close>, \<open>Base64\<close>: integers, strings, dynamic
      values and \<open>float64\<close> with its parsing and printing, RFC 3339 times and durations, JSON text, SHA-256 and
      base64 as the standard library has them.
    \<^item> \<open>Idempotence\<close>: the contract of keyed effects, among requests without a key; interpreted for the requests
      to the ledger, where top-ups with a reference are keyed, and for webhook events.
    \<^item> \<open>Ledger\<close> (\<^verbatim>\<open>ledger/ledger.go\<close>): balances and the set of used keys.  The journal of accepted credits and
      debits is the abstract ledger; \<open>prepaid_ledger\<close> is the interface of the service.
    \<^item> \<open>Session_Store\<close> (\<^verbatim>\<open>pipeline/model.go\<close>, \<^verbatim>\<open>state_store.go\<close>, \<^verbatim>\<open>naryo_events.go\<close>): sessions and the bounded
      list of inbound events per session; \<open>session_table\<close> is its interface.
    \<^item> \<open>Activity\<close> (\<^verbatim>\<open>pipeline/activity.go\<close>): the ring buffer, refining the unbounded feed.
    \<^item> \<open>Naryo_Client\<close> (\<^verbatim>\<open>naryo/client.go\<close>, \<^verbatim>\<open>recording_client.go\<close>): the interface the service calls, and the
      in-process client.
    \<^item> \<open>Service\<close>, \<open>Billing\<close> (\<^verbatim>\<open>pipeline/service.go\<close>, \<^verbatim>\<open>prepaid.go\<close>, \<^verbatim>\<open>billing/ticker.go\<close>): the session service and its
      billing loop.
    \<^item> \<open>Lifecycle\<close>, \<open>Metering\<close>, \<open>Accounting\<close>: the step relation of the service with reachability, the state
      machine and its invariants, what becomes of stopped and of reconfigured sessions; what a tick
      charges, exactly; the two refusals behind a pause, summaries, restarts.
    \<^item> \<open>Config\<close> (\<^verbatim>\<open>config/*.go\<close>): settings from the environment.
    \<^item> \<open>Naryo_Plan\<close> (\<^verbatim>\<open>naryo/pipeline_filter_plan.go\<close>): which filter a session gets, and its description.
    \<^item> \<open>Naryo_Http\<close>, \<open>Naryo_Provision\<close>, \<open>Naryo_Session\<close> (\<^verbatim>\<open>naryo/http_client*.go\<close>, \<^verbatim>\<open>factory.go\<close>): the HTTP client:
      requests and operations, configurations, filters and broadcasters, the four operations, statistics
      and the snapshot.  \<open>Naryo_Facts\<close>, \<open>Naryo_Ensure\<close>, \<open>Naryo_Live\<close>, \<open>Naryo_Outcomes\<close>: what it does to
      its table of sessions, to its mutex and to its statistics; how its waiting ends.
    \<^item> \<open>Hcs_Logger\<close> (\<^verbatim>\<open>hcs/*.go\<close>): schemas, the notifications of the service as lines of JSON, the bounded
      queue and the submit loop.  No lock joins a caller's log line to its place in the queue, so the
      two are separate steps; callers interleave with one another and with the loop.
    \<^item> \<open>Hedera_Client\<close> (\<^verbatim>\<open>hedera/*.go\<close>): verification of deposits; \<open>deposit_verifier\<close> is what the deposit
      endpoint can rely on.
    \<^item> \<open>Rest_Api\<close>, \<open>Naryo_Ingest\<close> (\<^verbatim>\<open>http/handlers.go\<close>, \<^verbatim>\<open>naryo_ingest.go\<close>, \<^verbatim>\<open>routes.go\<close>): the handlers, from the
      text of the body to the JSON value of the response, the webhooks and the routes.
      \<open>Rest_Facts\<close>: what they guarantee.
    \<^item> \<open>Mcp_Tools\<close> (\<^verbatim>\<open>mcp/pipeline.go\<close>): the tools, and that they are the REST operations.
    \<^item> \<open>Observability\<close>, \<open>Observability_Facts\<close> (\<^verbatim>\<open>http/observability.go\<close>): the dashboards' views.
    \<^item> \<open>Payment_Gate\<close> (\<^verbatim>\<open>config/x402.go\<close>, \<^verbatim>\<open>http/middleware/x402.go\<close>): the price of a start, the gated routes and the
      construction of the gate.  \<open>Price_Facts\<close>: the rounding errors of \<open>float64\<close> and what they do to the price.
    \<^item> \<open>Api_Main\<close> (\<^verbatim>\<open>cmd/api/main.go\<close>): the wiring and the root mux.
    \<^item> \<open>X402_Test\<close> (\<^verbatim>\<open>x402test/x402test.go\<close>): the mock facilitators and the paying transport of the tests.
    \<^item> \<open>Process\<close>: the running process as steps (requests, tools, ticks, time), and that each is a run of the
      service, so that the invariants hold for every traffic.  A request, a tool call and a tick is one step each:
      the program interleaves them at every lock of the store and the ledger, which is finer.
    \<^item> \<open>Redelivery\<close>: webhook events delivered again after any run of the process.
    \<^item> \<open>Demo_Activity\<close> (\<^verbatim>\<open>cmd/hcs-demo-activity/main.go\<close>): the demo command; \<open>loadEnvFiles_lookup\<close> says which value a
      variable has after its dotenv files are read.

  \<^bold>\<open>What is shown.\<close>  Money: the ledger is its journal and is never overdrawn, a tick takes from an agent
  what it adds to the charges of its sessions (while their debit buckets are unused), the amount charged
  over time has a closed form, the summaries account for every unit, redelivered top-ups with a reference
  and webhooks act once, a session is paused only after two refusals a minute apart, the price asked for a
  start is price times runway up to its last decimal.  Sessions: the state
  machine, the well-formedness of reachable sessions, when a start succeeds and what it does, that
  errors change nothing, that a stopped session is final, when a new configuration reaches Naryo.  Naryo: the choice of
  the filter, what a provisioning leaves behind and which failures the statistics show, how waiting ends,
  that a broadcaster is recognised exactly.  Surfaces: JSON lines read back, the audit topic receives the lines of each caller in
  order, responses are well formed, REST and MCP agree, and the books hold in every state of the running
  process.  Some properties record where the code does not do what it means to: stopping a provisioned
  session with the HTTP client never returns; a restart gives away the windows charged before it; a top-up
  key can cancel a charge; a deposit is credited again under an id with a blank; a configuration without
  usable plan fails unseen by the statistics; stopping and starting does not apply a new configuration.

  \<^bold>\<open>Bounds.\<close>  The feed keeps 256 entries, the list of events 256 per session, the queue of the audit log
  256 payloads, the parser 10000 open brackets; all are the code's.  \<open>drain\<close> has fuel: two steps for each
  payload that waits and one for the payload being submitted, which \<open>topic_receives_log\<close> shows is enough.  The
  printer of floating point numbers tries 17 digits, which always suffice for a \<open>float64\<close>, and 330 positions
  of the decimal point.  The waiting loop of the HTTP client has no fuel: it is a \<open>partial_function\<close>, and
  \<open>waiting_ends_iff\<close> says exactly when it returns and with what.

  \<^bold>\<open>Not modelled.\<close>  \<open>ToLower\<close> and \<open>EqualFold\<close> map the ASCII letters only.  Receivers that are nil, headers of
  responses, timeouts of handlers, listening, signals and shutdown are left out.  A failing write to a
  client is ignored, as the code ignores it.  The parsing of flags and the encoding of request bodies for
  Naryo as text belong to the standard library and are left out too.  The dashboard, the agents and the
  deployment are not Go.
\<close>

end
